(* ===== verification/Prelude.thy ===== *)
theory Prelude
  imports Main "HOL-Library.AList" "HOL-Library.Char_ord" "HOL-Library.List_Lexorder"
begin

text \<open>
  Shared vocabulary of the development: Go maps, early-return loops, error results, clocks and
  durations, and the lemmas about them that every component uses.

  A Go map is an association list with distinct keys (\<open>gomap_ok\<close>). The order of the list
  is the order in which one \<open>range\<close> loop happens to visit the map: Go leaves it open, and
  every theorem is stated for all lists, hence for all orders. A pointer that may be nil is an
  option; an \<open>error\<close> result is an option too, with \<^term>\<open>None\<close> for nil.
\<close>

section \<open>Collections of facts\<close>

named_theorems go_loop \<open>loops with an early return\<close>
named_theorems go_eval \<open>equations that evaluate a check on a concrete input\<close>
named_theorems go_map \<open>lookups in updated and pruned maps\<close>

section \<open>Go maps\<close>

type_synonym ('k, 'v) gomap = "('k \<times> 'v) list"

definition gomap_ok :: "('k, 'v) gomap \<Rightarrow> bool" where
  "gomap_ok m \<longleftrightarrow> distinct (map fst m)"

abbreviation keys :: "('k, 'v) gomap \<Rightarrow> 'k list" where
  "keys m \<equiv> map fst m"

lemma gomap_ok_Nil [simp]: "gomap_ok []"
  by (simp add: gomap_ok_def)

lemma gomap_ok_update [simp, intro]: "gomap_ok m \<Longrightarrow> gomap_ok (AList.update k v m)"
  by (simp add: gomap_ok_def distinct_update)

lemma gomap_ok_delete [simp, intro]: "gomap_ok m \<Longrightarrow> gomap_ok (AList.delete k m)"
  by (simp add: gomap_ok_def distinct_delete)

lemma gomap_in_set [go_map]: "gomap_ok m \<Longrightarrow> (k, v) \<in> set m \<longleftrightarrow> map_of m k = Some v"
  by (auto simp: gomap_ok_def)

lemma gomap_Ball [go_map]:
  "gomap_ok m \<Longrightarrow> (\<forall>x \<in> set m. P x) \<longleftrightarrow> (\<forall>k v. map_of m k = Some v \<longrightarrow> P (k, v))"
  by (auto simp: gomap_in_set)

lemma gomap_lookup_update [go_map, simp]:
  "map_of (AList.update k v m) k' = (if k' = k then Some v else map_of m k')"
  by (simp add: update_conv')

lemma gomap_lookup_delete [go_map, simp]:
  "map_of (AList.delete k m) k' = (if k' = k then None else map_of m k')"
  by (simp add: delete_conv')

lemma gomap_key_iff: "k \<in> fst ` set m \<longleftrightarrow> map_of m k \<noteq> None"
  by (simp add: map_of_eq_None_iff)

text \<open>\<open>for k, v := range kvs { m[k] = v }\<close>\<close>

definition put_all :: "('k, 'v) gomap \<Rightarrow> ('k, 'v) gomap \<Rightarrow> ('k, 'v) gomap" where
  "put_all kvs m = fold (\<lambda>(k, v) m. AList.update k v m) kvs m"

lemma put_all_ok: "gomap_ok m \<Longrightarrow> gomap_ok (put_all kvs m)"
  unfolding put_all_def by (induction kvs arbitrary: m) auto

lemma put_all_lookup:
  "gomap_ok kvs \<Longrightarrow>
   map_of (put_all kvs m) k = (case map_of kvs k of Some v \<Rightarrow> Some v | None \<Rightarrow> map_of m k)"
  unfolding put_all_def
proof (induction kvs arbitrary: m)
  case (Cons kv kvs)
  obtain k' v where kv: "kv = (k', v)" by (cases kv)
  with Cons.prems have "gomap_ok kvs" and "k = k' \<Longrightarrow> map_of kvs k = None"
    by (auto simp: gomap_ok_def map_of_eq_None_iff)
  with Cons.IH kv show ?case by (auto split: option.split)
qed simp

lemma put_all_rev: "map_of (put_all kvs m) k = (case map_of (rev kvs) k of Some v \<Rightarrow> Some v | None \<Rightarrow> map_of m k)"
  unfolding put_all_def
  by (induction kvs arbitrary: m) (auto split: option.splits)

section \<open>Loops and checks with an early return\<close>

text \<open>\<open>for _, x := range xs { if err := f(x); err != nil { return err } }\<close>\<close>

fun first_err :: "('a \<Rightarrow> 'e option) \<Rightarrow> 'a list \<Rightarrow> 'e option" where
  "first_err f [] = None"
| "first_err f (x # xs) = (case f x of Some e \<Rightarrow> Some e | None \<Rightarrow> first_err f xs)"

text \<open>A sequence of \<open>if err := check(); err != nil { return err }\<close>.\<close>

fun first_some :: "'e option list \<Rightarrow> 'e option" where
  "first_some [] = None"
| "first_some (c # cs) = (case c of Some e \<Rightarrow> Some e | None \<Rightarrow> first_some cs)"

text \<open>
  The equations are unfolded only where a check is evaluated (\<open>go_eval\<close>); elsewhere the
  characterisations below rewrite whole loops.
\<close>

declare first_some.simps [simp del, go_eval]
declare first_err.simps [simp del, go_eval]

lemma first_err_None [go_loop]: "first_err f xs = None \<longleftrightarrow> (\<forall>x \<in> set xs. f x = None)"
  by (induction xs) (auto simp: go_eval split: option.splits)

lemma first_err_SomeD: "first_err f xs = Some e \<Longrightarrow> \<exists>x \<in> set xs. f x = Some e"
  by (induction xs) (auto simp: go_eval split: option.splits)

lemma first_some_None [go_loop]: "first_some cs = None \<longleftrightarrow> (\<forall>c \<in> set cs. c = None)"
  by (induction cs) (auto simp: go_eval split: option.splits)

text \<open>\<open>if cond { return err }\<close>\<close>

definition fail_if :: "bool \<Rightarrow> 'e \<Rightarrow> 'e option" where
  "fail_if b e = (if b then Some e else None)"

lemma fail_if_None [simp]: "fail_if b e = None \<longleftrightarrow> \<not> b"
  by (simp add: fail_if_def)

lemma fail_if_Some [simp]: "fail_if b e = Some e' \<longleftrightarrow> b \<and> e = e'"
  by (simp add: fail_if_def)

text \<open>A loop that rejects the first element seen before.\<close>

fun first_dup :: "'a list \<Rightarrow> 'a list \<Rightarrow> 'a option" where
  "first_dup seen [] = None"
| "first_dup seen (x # xs) = (if x \<in> set seen then Some x else first_dup (x # seen) xs)"

lemma first_dup_None: "first_dup seen xs = None \<longleftrightarrow> distinct xs \<and> set xs \<inter> set seen = {}"
  by (induction xs arbitrary: seen) auto

section \<open>Time\<close>

text \<open>
  \<open>time.Duration\<close> is an \<open>int64\<close> of nanoseconds. \<open>time.Time\<close> is the number of
  nanoseconds since Go's zero time, so that \<open>IsZero\<close> is equality with 0. \<open>Time.Sub\<close>
  saturates at the ends of the \<open>int64\<close> range, as the standard library documents.
\<close>

type_synonym duration = int
type_synonym gotime = int

definition second :: duration where
  "second = 1000000000"

definition max_int64 :: int where
  "max_int64 = 9223372036854775807"

definition min_int64 :: int where
  "min_int64 = - 9223372036854775808"

text \<open>Two's complement wrap-around of \<open>int64\<close> arithmetic.\<close>

definition wrap_int64 :: "int \<Rightarrow> int" where
  "wrap_int64 i = (i + 9223372036854775808) mod 18446744073709551616 - 9223372036854775808"

lemma wrap_int64_id: "min_int64 \<le> i \<Longrightarrow> i \<le> max_int64 \<Longrightarrow> wrap_int64 i = i"
  by (simp add: wrap_int64_def min_int64_def max_int64_def)

lemma wrap_int64_range: "min_int64 \<le> wrap_int64 i \<and> wrap_int64 i \<le> max_int64"
proof -
  have "0 \<le> (i + 9223372036854775808) mod 18446744073709551616"
    "(i + 9223372036854775808) mod 18446744073709551616 < 18446744073709551616"
    by simp_all
  then show ?thesis unfolding wrap_int64_def min_int64_def max_int64_def by linarith
qed

definition time_sub :: "gotime \<Rightarrow> gotime \<Rightarrow> duration" where
  "time_sub t u = max min_int64 (min max_int64 (t - u))"

abbreviation is_zero_time :: "gotime \<Rightarrow> bool" where
  "is_zero_time t \<equiv> t = 0"

lemma second_pos [simp]: "0 < second" "second \<noteq> 0"
  by (simp_all add: second_def)

lemma time_sub_less: "d \<le> max_int64 \<Longrightarrow> min_int64 < d \<Longrightarrow> time_sub t u < d \<longleftrightarrow> t - u < d"
  by (auto simp: time_sub_def)

text \<open>Integer division as Go does it: the quotient is truncated towards zero.\<close>

definition go_div :: "int \<Rightarrow> int \<Rightarrow> int" where
  "go_div a b = sgn a * sgn b * (\<bar>a\<bar> div \<bar>b\<bar>)"

lemma go_div_nonneg: "0 \<le> a \<Longrightarrow> 0 < b \<Longrightarrow> go_div a b = a div b"
  by (cases "a = 0") (auto simp: go_div_def)

text \<open>\<open>int64(d.Seconds())\<close>: whole seconds, truncated.\<close>

definition seconds :: "duration \<Rightarrow> int" where
  "seconds d = go_div d second"

lemma seconds_nonneg: "0 \<le> d \<Longrightarrow> 0 \<le> seconds d"
  by (simp add: seconds_def go_div_nonneg pos_imp_zdiv_nonneg_iff)

end
