(* ===== verification/Go_Strings.thy ===== *)
theory Go_Strings
  imports Prelude "HOL-Library.Sublist"
begin

text \<open>
  The functions of Go's \<open>strings\<close>, \<open>strconv\<close> and \<open>path/filepath\<close> packages that
  the program calls, on strings as byte sequences (a \<^typ>\<open>char\<close> is a byte). White space
  outside ASCII is recognised by its UTF-8 encodings, as \<open>strings.TrimSpace\<close> does.
\<close>

section \<open>Prefixes, suffixes, cutting and splitting\<close>

abbreviation has_prefix :: "string \<Rightarrow> string \<Rightarrow> bool" where
  "has_prefix s p \<equiv> prefix p s"

abbreviation has_suffix :: "string \<Rightarrow> string \<Rightarrow> bool" where
  "has_suffix s p \<equiv> suffix p s"

abbreviation contains :: "string \<Rightarrow> string \<Rightarrow> bool" where
  "contains s p \<equiv> sublist p s"

text \<open>\<open>strings.TrimPrefix\<close>.\<close>

definition trim_prefix :: "string \<Rightarrow> string \<Rightarrow> string" where
  "trim_prefix s p = (if prefix p s then drop (length p) s else s)"

text \<open>\<open>strings.Split(s, sep)\<close> for a one-byte separator: never empty.\<close>

fun split_on :: "char \<Rightarrow> string \<Rightarrow> string list" where
  "split_on c [] = [[]]"
| "split_on c (x # xs) =
     (if x = c then [] # split_on c xs
      else (case split_on c xs of [] \<Rightarrow> [[x]] | w # ws \<Rightarrow> (x # w) # ws))"

lemma split_on_nonempty [simp]: "split_on c s \<noteq> []"
  by (induction s) (auto split: list.splits)

lemma split_on_no_sep: "c \<notin> set s \<Longrightarrow> split_on c s = [s]"
  by (induction s) auto

lemma split_on_append: "c \<notin> set s \<Longrightarrow> split_on c (s @ c # t) = s # split_on c t"
  by (induction s) (auto split: list.splits)

text \<open>\<open>strings.Cut(s, sep)\<close> for a one-byte separator: \<^term>\<open>None\<close> when it does not occur.\<close>

fun cut_at :: "char \<Rightarrow> string \<Rightarrow> (string \<times> string) option" where
  "cut_at c [] = None"
| "cut_at c (x # xs) =
     (if x = c then Some ([], xs)
      else map_option (\<lambda>(a, b). (x # a, b)) (cut_at c xs))"

lemma cut_at_append: "c \<notin> set k \<Longrightarrow> cut_at c (k @ c # v) = Some (k, v)"
  by (induction k) auto

lemma cut_at_SomeD: "cut_at c s = Some (k, v) \<Longrightarrow> s = k @ c # v \<and> c \<notin> set k"
  by (induction s arbitrary: k) (auto split: if_splits)

text \<open>\<open>strings.TrimRight(s, c)\<close> for a one-byte cut set.\<close>

definition trim_right :: "char \<Rightarrow> string \<Rightarrow> string" where
  "trim_right c s = rev (dropWhile (\<lambda>x. x = c) (rev s))"

lemma trim_right_no_suffix: "s = [] \<or> last s \<noteq> c \<Longrightarrow> trim_right c s = s"
  by (cases s rule: rev_cases) (auto simp: trim_right_def)

section \<open>White space\<close>

definition ascii_space :: "char \<Rightarrow> bool" where
  "ascii_space c \<longleftrightarrow> (of_char c :: nat) \<in> {9, 10, 11, 12, 13, 32}"

text \<open>The UTF-8 encodings of the white space runes of \<open>unicode.IsSpace\<close> beyond ASCII.\<close>

definition utf8_spaces :: "string list" where
  "utf8_spaces = map (map char_of)
     ([[194, 133], [194, 160], [225, 154, 128]] @
      map (\<lambda>b. [226, 128, b]) [128, 129, 130, 131, 132, 133, 134, 135, 136, 137, 138] @
      [[226, 128, 168], [226, 128, 169], [226, 128, 175], [226, 129, 159], [227, 128, 128 :: nat]])"

function trim_left_with :: "string list \<Rightarrow> string \<Rightarrow> string" where
  "trim_left_with encs s =
     (case s of [] \<Rightarrow> []
      | c # cs \<Rightarrow>
          if ascii_space c then trim_left_with encs cs
          else (case find (\<lambda>e. e \<noteq> [] \<and> prefix e s) encs of
                  None \<Rightarrow> s
                | Some e \<Rightarrow> trim_left_with encs (drop (length e) s)))"
  by pat_completeness auto
termination
  by (relation "measure (\<lambda>(encs, s). length s)") (auto simp: find_Some_iff prefix_def)

declare trim_left_with.simps [simp del]

definition trim_space :: "string \<Rightarrow> string" where
  "trim_space s =
     rev (trim_left_with (map rev utf8_spaces) (rev (trim_left_with utf8_spaces s)))"

lemma trim_left_with_Nil [simp]: "trim_left_with encs [] = []"
  by (simp add: trim_left_with.simps)

lemma trim_left_with_suffix: "suffix (trim_left_with encs s) s"
proof (induction encs s rule: trim_left_with.induct)
  case (1 encs s)
  show ?case
  proof (cases s)
    case (Cons c cs)
    show ?thesis
    proof (cases "ascii_space c")
      case True
      with 1(1)[OF Cons True] Cons show ?thesis
        by (simp add: trim_left_with.simps[of encs "c # cs"] suffix_Cons)
    next
      case False
      show ?thesis
      proof (cases "find (\<lambda>e. e \<noteq> [] \<and> prefix e s) encs")
        case (Some e)
        from 1(2)[OF Cons False Some] have "suffix (trim_left_with encs (drop (length e) s)) s"
          using suffix_drop suffix_order.trans by blast
        with Cons False Some show ?thesis
          by (simp add: trim_left_with.simps[of encs "c # cs"])
      qed (use Cons False in \<open>simp add: trim_left_with.simps[of encs "c # cs"]\<close>)
    qed
  qed simp
qed

lemma trim_left_with_stop:
  assumes "s = c # cs" "\<not> ascii_space c" "\<forall>e \<in> set encs. e \<noteq> [] \<longrightarrow> hd e \<noteq> c"
  shows "trim_left_with encs s = s"
proof -
  have "find (\<lambda>e. e \<noteq> [] \<and> prefix e s) encs = None"
    using assms(1,3) by (auto simp: find_None_iff prefix_Cons)
  with assms(1,2) show ?thesis
    by (subst trim_left_with.simps) simp
qed

lemma set_trim_space: "set (trim_space s) \<subseteq> set s"
proof -
  have "set (trim_left_with encs t) \<subseteq> set t" for encs t
    using set_mono_suffix[OF trim_left_with_suffix] .
  then show ?thesis
    by (simp add: trim_space_def) (metis set_rev subset_trans)
qed

text \<open>Text that starts and ends with a visible ASCII character is left alone.\<close>

definition visible :: "char \<Rightarrow> bool" where
  "visible c \<longleftrightarrow> (of_char c :: nat) \<in> {33..<127}"

lemma utf8_space_bytes: "e \<in> set utf8_spaces \<Longrightarrow> c \<in> set e \<Longrightarrow> \<not> visible c"
proof -
  have "\<forall>e \<in> set utf8_spaces. \<forall>c \<in> set e. \<not> visible c"
    by (simp add: utf8_spaces_def visible_def)
  then show "e \<in> set utf8_spaces \<Longrightarrow> c \<in> set e \<Longrightarrow> \<not> visible c" by blast
qed

lemma visible_not_space: "visible c \<Longrightarrow> \<not> ascii_space c"
  by (auto simp: visible_def ascii_space_def)

lemma trim_space_visible:
  assumes "s \<noteq> []" "visible (hd s)" "visible (last s)"
  shows "trim_space s = s"
proof -
  have l: "trim_left_with utf8_spaces s = s"
    using assms(1,2) utf8_space_bytes visible_not_space
    by (cases s) (auto intro!: trim_left_with_stop dest: hd_in_set)
  have r: "trim_left_with (map rev utf8_spaces) (rev s) = rev s"
  proof (cases s rule: rev_cases)
    case (snoc ys y)
    with assms(3) show ?thesis
      using utf8_space_bytes visible_not_space
      by (intro trim_left_with_stop[of _ y "rev ys"]) (auto simp: hd_rev dest: last_in_set)
  qed simp
  from l r show ?thesis by (simp add: trim_space_def)
qed

section \<open>Lower case\<close>

text \<open>
  \<open>strings.ToLower\<close>, as far as ASCII text can tell: the two non-ASCII runes whose lower case
  is an ASCII letter (U+0130 and the Kelvin sign) are mapped; every other non-ASCII byte is kept,
  where Go may write other non-ASCII bytes. The program only looks for ASCII text in the result.
\<close>

definition lower_char :: "char \<Rightarrow> char" where
  "lower_char c = (let n = of_char c :: nat in if 65 \<le> n \<and> n \<le> 90 then char_of (n + 32) else c)"

fun to_lower :: "string \<Rightarrow> string" where
  "to_lower [] = []"
| "to_lower [c] = [lower_char c]"
| "to_lower [c, d] =
     (if c = char_of (196 :: nat) \<and> d = char_of (176 :: nat) then ''i'' else [lower_char c, lower_char d])"
| "to_lower (c # d # e # s) =
     (if c = char_of (196 :: nat) \<and> d = char_of (176 :: nat) then CHR ''i'' # to_lower (e # s)
      else if c = char_of (226 :: nat) \<and> d = char_of (132 :: nat) \<and> e = char_of (170 :: nat)
        then CHR ''k'' # to_lower s
      else lower_char c # to_lower (d # e # s))"

section \<open>Decimal numbers\<close>

definition digit_char :: "nat \<Rightarrow> char" where
  "digit_char d = char_of (48 + d)"

fun nat_str :: "nat \<Rightarrow> string" where
  "nat_str n = (if n < 10 then [digit_char n] else nat_str (n div 10) @ [digit_char (n mod 10)])"

declare nat_str.simps [simp del]

text \<open>\<open>strconv.Itoa\<close>.\<close>

definition itoa :: "int \<Rightarrow> string" where
  "itoa i = (if i < 0 then CHR ''-'' # nat_str (nat (- i)) else nat_str (nat i))"

definition digit_val :: "char \<Rightarrow> nat option" where
  "digit_val c = (let n = of_char c :: nat in if 48 \<le> n \<and> n \<le> 57 then Some (n - 48) else None)"

fun digits_val :: "nat \<Rightarrow> string \<Rightarrow> nat option" where
  "digits_val acc [] = Some acc"
| "digits_val acc (c # cs) =
     (case digit_val c of None \<Rightarrow> None | Some d \<Rightarrow> digits_val (10 * acc + d) cs)"

text \<open>\<open>strconv.Atoi\<close>: \<^term>\<open>None\<close> for its syntax and range errors.\<close>

definition atoi :: "string \<Rightarrow> int option" where
  "atoi s =
     (let (neg, ds) =
        (case s of [] \<Rightarrow> (False, [])
         | c # cs \<Rightarrow> if c = CHR ''-'' then (True, cs) else if c = CHR ''+'' then (False, cs) else (False, s))
      in if ds = [] then None
         else (case digits_val 0 ds of None \<Rightarrow> None
               | Some n \<Rightarrow>
                   (let i = (if neg then - int n else int n)
                    in if min_int64 \<le> i \<and> i \<le> max_int64 then Some i else None)))"

lemma digit_val_char [simp]: "d < 10 \<Longrightarrow> digit_val (digit_char d) = Some d"
  by (simp add: digit_val_def digit_char_def Let_def)

lemma digits_val_append:
  "digits_val acc (s @ t) = (case digits_val acc s of None \<Rightarrow> None | Some n \<Rightarrow> digits_val n t)"
  by (induction s arbitrary: acc) (auto split: option.splits)

lemma nat_str_neq_Nil [simp]: "nat_str n \<noteq> []"
  by (subst nat_str.simps) simp

lemma digits_val_nat_str [simp]: "digits_val 0 (nat_str n) = Some n"
proof (induction n rule: nat_str.induct)
  case (1 n)
  then show ?case
    by (cases "n < 10") (simp_all add: nat_str.simps[of n] digits_val_append)
qed

lemma digit_char_visible: "d < 10 \<Longrightarrow> visible (digit_char d) \<and> digit_char d \<notin> {CHR '','', CHR ''-'', CHR ''+''}"
proof -
  assume d: "d < 10"
  then have n: "(of_char (digit_char d) :: nat) = 48 + d" by (simp add: digit_char_def)
  have "(of_char c :: nat) < 48" if "c \<in> {CHR '','', CHR ''-'', CHR ''+''}" for c
    using that by auto
  with n have "digit_char d \<notin> {CHR '','', CHR ''-'', CHR ''+''}"
    by fastforce
  with n d show ?thesis by (simp add: visible_def)
qed

lemma nat_str_chars:
  "c \<in> set (nat_str n) \<Longrightarrow> visible c \<and> c \<notin> {CHR '','', CHR ''-'', CHR ''+''}"
proof (induction n rule: nat_str.induct)
  case (1 n)
  then show ?case
    by (cases "n < 10") (use digit_char_visible in \<open>auto simp: nat_str.simps[of n]\<close>)
qed

lemma atoi_nat_str: "int n \<le> max_int64 \<Longrightarrow> atoi (nat_str n) = Some (int n)"
proof -
  assume b: "int n \<le> max_int64"
  obtain c cs where s: "nat_str n = c # cs" by (cases "nat_str n") auto
  then have "c \<noteq> CHR ''-''" "c \<noteq> CHR ''+''" using nat_str_chars[of c n] by auto
  with s b show ?thesis
    using digits_val_nat_str[of n] by (simp add: atoi_def min_int64_def)
qed

lemma atoi_neg_nat_str: "min_int64 \<le> - int n \<Longrightarrow> atoi (CHR ''-'' # nat_str n) = Some (- int n)"
  by (simp add: atoi_def max_int64_def)

lemma atoi_itoa: "min_int64 \<le> i \<Longrightarrow> i \<le> max_int64 \<Longrightarrow> atoi (itoa i) = Some i"
  using atoi_nat_str[of "nat i"] atoi_neg_nat_str[of "nat (- i)"] by (auto simp: itoa_def)

lemma itoa_chars: "c \<in> set (itoa i) \<Longrightarrow> visible c \<and> c \<noteq> CHR '',''"
  using nat_str_chars by (auto simp: itoa_def visible_def split: if_splits)

lemma itoa_neq_Nil [simp]: "itoa i \<noteq> []"
  by (simp add: itoa_def)

lemma trim_space_itoa [simp]: "trim_space (itoa i) = itoa i"
  using itoa_chars[of _ i] by (intro trim_space_visible) (auto intro: hd_in_set last_in_set)

lemma itoa_inj_range:
  "\<lbrakk>itoa i = itoa j; min_int64 \<le> i; i \<le> max_int64; min_int64 \<le> j; j \<le> max_int64\<rbrakk> \<Longrightarrow> i = j"
  by (metis atoi_itoa option.inject)

section \<open>Joining numbers\<close>

text \<open>\<open>joinInts(nums, ",")\<close> of \<open>scheduler.go\<close>, for a one-byte separator.\<close>

fun join_with :: "char \<Rightarrow> string list \<Rightarrow> string" where
  "join_with c [] = []"
| "join_with c [s] = s"
| "join_with c (s # t # ss) = s @ c # join_with c (t # ss)"

lemma split_on_join:
  "ss \<noteq> [] \<Longrightarrow> \<forall>s \<in> set ss. c \<notin> set s \<Longrightarrow> split_on c (join_with c ss) = ss"
  by (induction c ss rule: join_with.induct) (auto simp: split_on_no_sep split_on_append)

section \<open>Paths\<close>

text \<open>
  \<open>filepath.Clean\<close> on a slash-separated path: empty and \<open>.\<close> elements are dropped, \<open>..\<close>
  removes the element before it, or is dropped at a root, or is kept at the start of a relative
  path.
\<close>

fun clean_elems :: "bool \<Rightarrow> string list \<Rightarrow> string list \<Rightarrow> string list" where
  "clean_elems rooted out [] = rev out"
| "clean_elems rooted out (e # es) =
     (if e = '''' \<or> e = ''.'' then clean_elems rooted out es
      else if e = ''..'' then
        (case out of
           [] \<Rightarrow> if rooted then clean_elems rooted [] es else clean_elems rooted [''..''] es
         | o1 # os \<Rightarrow> if o1 = ''..'' then clean_elems rooted (''..'' # out) es
                     else clean_elems rooted os es)
      else clean_elems rooted (e # out) es)"

definition path_clean :: "string \<Rightarrow> string" where
  "path_clean p =
     (if p = '''' then ''.''
      else let rooted = has_prefix p ''/'';
               body = join_with CHR ''/'' (clean_elems rooted [] (split_on CHR ''/'' p))
           in if rooted then CHR ''/'' # body else if body = '''' then ''.'' else body)"

text \<open>\<open>filepath.Join(a, b)\<close>: empty elements are ignored.\<close>

definition path_join :: "string \<Rightarrow> string \<Rightarrow> string" where
  "path_join a b =
     (if a = '''' \<and> b = '''' then ''''
      else if a = '''' then path_clean b
      else if b = '''' then path_clean a
      else path_clean (a @ CHR ''/'' # b))"

text \<open>\<open>filepath.Base\<close>.\<close>

definition path_base :: "string \<Rightarrow> string" where
  "path_base p =
     (if p = '''' then ''.''
      else let q = trim_right CHR ''/'' p
           in if q = '''' then ''/'' else last (split_on CHR ''/'' q))"

end
