(* ===== verification/Durations.thy ===== *)
theory Durations
  imports Go_Strings
begin

text \<open>
  The durations of the configuration file: \<open>Duration.UnmarshalYAML\<close> of \<open>internal/config/config.go\<close> on
  a node of the YAML document, with \<open>time.ParseDuration\<close> of Go's standard library, which it calls.
  The library computes a fraction like \<open>1.5h\<close> in \<open>float64\<close>; that product is the parameter \<open>frac\<close>,
  of the digits of the fraction as a number, the unit, and the number of those digits.
\<close>

section \<open>\<open>time.ParseDuration\<close>\<close>

datatype duration_error = InvalidDuration | MissingUnit | UnknownUnit string

definition unit_map :: "(string \<times> nat) list" where
  "unit_map =
     [(''ns'', 1), (''us'', 1000), (map char_of [194, 181 :: nat] @ ''s'', 1000),
      (map char_of [206, 188 :: nat] @ ''s'', 1000), (''ms'', 1000000), (''s'', 1000000000),
      (''m'', 60000000000), (''h'', 3600000000000)]"

text \<open>\<open>leadingInt\<close>: \<^term>\<open>None\<close> when the number does not fit.\<close>

fun leading_int :: "nat \<Rightarrow> string \<Rightarrow> (nat \<times> string) option" where
  "leading_int x [] = Some (x, [])"
| "leading_int x (c # cs) =
     (case digit_val c of
        None \<Rightarrow> Some (x, c # cs)
      | Some d \<Rightarrow>
          if 9223372036854775808 div 10 < x then None
          else if 9223372036854775808 < 10 * x + d then None
          else leading_int (10 * x + d) cs)"

text \<open>\<open>leadingFraction\<close>: digits that do not fit are skipped; \<open>k\<close> counts those that did.\<close>

fun leading_fraction :: "nat \<Rightarrow> nat \<Rightarrow> bool \<Rightarrow> string \<Rightarrow> nat \<times> nat \<times> string" where
  "leading_fraction x k overflow [] = (x, k, [])"
| "leading_fraction x k overflow (c # cs) =
     (case digit_val c of
        None \<Rightarrow> (x, k, c # cs)
      | Some d \<Rightarrow>
          if overflow \<or> 9223372036854775807 div 10 < x \<or> 9223372036854775808 < 10 * x + d
          then leading_fraction x k True cs
          else leading_fraction (10 * x + d) (Suc k) False cs)"

definition unit_char :: "char \<Rightarrow> bool" where
  "unit_char c \<longleftrightarrow> c \<noteq> CHR ''.'' \<and> digit_val c = None"

text \<open>The fraction after the point, and whether it has a digit.\<close>

definition fraction_part :: "string \<Rightarrow> nat \<times> nat \<times> string \<times> bool" where
  "fraction_part s =
     (case s of
        c # t \<Rightarrow>
          if c = CHR ''.'' then (case leading_fraction 0 0 False t of (f, k, r) \<Rightarrow> (f, k, r, length r \<noteq> length t))
          else (0, 0, s, False)
      | [] \<Rightarrow> (0, 0, s, False))"

text \<open>One number with its unit: its nanoseconds and the rest. The sum of both parts is a \<open>uint64\<close>.\<close>

definition parse_unit :: "(nat \<Rightarrow> nat \<Rightarrow> nat \<Rightarrow> nat) \<Rightarrow> string \<Rightarrow> duration_error + (nat \<times> string)" where
  "parse_unit frac s =
     (case leading_int 0 s of
        None \<Rightarrow> Inl InvalidDuration
      | Some (v, s1) \<Rightarrow>
          (case fraction_part s1 of
             (f, k, s2, post) \<Rightarrow>
               let u = takeWhile unit_char s2
               in if length s1 = length s \<and> \<not> post then Inl InvalidDuration
                  else if u = '''' then Inl MissingUnit
                  else (case map_of unit_map u of
                          None \<Rightarrow> Inl (UnknownUnit u)
                        | Some unit \<Rightarrow>
                            if 9223372036854775808 div unit < v then Inl InvalidDuration
                            else (let w = (if 0 < f then (v * unit + frac f unit k) mod 18446744073709551616
                                           else v * unit)
                                  in if 9223372036854775808 < w then Inl InvalidDuration
                                     else Inr (w, drop (length u) s2)))))"

lemma leading_int_length: "leading_int x s = Some (v, r) \<Longrightarrow> length r \<le> length s"
  by (induction x s arbitrary: v r rule: leading_int.induct) (fastforce split: option.splits if_splits)+

lemma leading_fraction_length: "leading_fraction x k b s = (f, n, r) \<Longrightarrow> length r \<le> length s"
  by (induction x k b s arbitrary: f n r rule: leading_fraction.induct) (fastforce split: option.splits if_splits)+

lemma fraction_part_length: "fraction_part s = (f, k, r, post) \<Longrightarrow> length r \<le> length s"
  by (cases s) (auto simp: fraction_part_def split: if_splits prod.splits dest: leading_fraction_length)

lemma parse_unit_shorter: "parse_unit frac s = Inr (w, r) \<Longrightarrow> length r < length s"
proof -
  assume p: "parse_unit frac s = Inr (w, r)"
  then obtain v s1 f k s2 post where s: "leading_int 0 s = Some (v, s1)" "fraction_part s1 = (f, k, s2, post)"
    by (auto simp: parse_unit_def split: option.splits prod.splits)
  with p have u: "takeWhile unit_char s2 \<noteq> ''''" and r: "r = drop (length (takeWhile unit_char s2)) s2"
    by (auto simp: parse_unit_def Let_def split: option.splits if_splits)
  from u have "0 < length (takeWhile unit_char s2)" by simp
  moreover have "length (takeWhile unit_char s2) \<le> length s2" by (rule length_takeWhile_le)
  ultimately show ?thesis
    using leading_int_length[OF s(1)] fraction_part_length[OF s(2)] unfolding r length_drop by linarith
qed

text \<open>The sum of the parts, again a \<open>uint64\<close>.\<close>

function parse_units :: "(nat \<Rightarrow> nat \<Rightarrow> nat \<Rightarrow> nat) \<Rightarrow> nat \<Rightarrow> string \<Rightarrow> duration_error + nat" where
  "parse_units frac d s =
     (if s = '''' then Inr d
      else (case parse_unit frac s of
              Inl e \<Rightarrow> Inl e
            | Inr (v, r) \<Rightarrow>
                let d' = (d + v) mod 18446744073709551616
                in if 9223372036854775808 < d' then Inl InvalidDuration else parse_units frac d' r))"
  by pat_completeness auto
termination
  by (relation "measure (\<lambda>(frac, d, s). length s)") (auto dest: parse_unit_shorter)

declare parse_units.simps [simp del]

definition ParseDuration :: "(nat \<Rightarrow> nat \<Rightarrow> nat \<Rightarrow> nat) \<Rightarrow> string \<Rightarrow> duration_error + duration" where
  "ParseDuration frac s =
     (let (neg, t) =
        (case s of [] \<Rightarrow> (False, [])
         | c # cs \<Rightarrow> if c = CHR ''-'' then (True, cs) else if c = CHR ''+'' then (False, cs) else (False, s))
      in if t = ''0'' then Inr 0
         else if t = '''' then Inl InvalidDuration
         else (case parse_units frac 0 t of
                 Inl e \<Rightarrow> Inl e
               | Inr d \<Rightarrow>
                   if neg then Inr (wrap_int64 (- int d))
                   else if 9223372036854775807 < d then Inl InvalidDuration else Inr (int d)))"

section \<open>The YAML node\<close>

record yaml_node =
  yn_scalar :: bool
  yn_tag :: string
  yn_value :: string

datatype duration_yaml_error = DurationNotScalar | DurationInvalid string duration_error

definition UnmarshalYAML :: "(nat \<Rightarrow> nat \<Rightarrow> nat \<Rightarrow> nat) \<Rightarrow> yaml_node \<Rightarrow> duration_yaml_error + duration" where
  "UnmarshalYAML frac node =
     (if yn_scalar node \<and> yn_tag node = ''!!null'' then Inr 0
      else if \<not> yn_scalar node then Inl DurationNotScalar
      else (case ParseDuration frac (yn_value node) of
              Inl e \<Rightarrow> Inl (DurationInvalid (yn_value node) e)
            | Inr d \<Rightarrow> Inr d))"

section \<open>What a duration means\<close>

lemma parse_units_bound: "d \<le> 9223372036854775808 \<Longrightarrow> parse_units frac d s = Inr n \<Longrightarrow> n \<le> 9223372036854775808"
proof (induction frac d s rule: parse_units.induct)
  case (1 frac d s)
  show ?case
  proof (cases "s = ''''")
    case True
    with 1(2,3) show ?thesis by (simp add: parse_units.simps[of frac d])
  next
    case False
    with 1(3) obtain v r where p: "parse_unit frac s = Inr (v, r)"
      by (auto simp: parse_units.simps[of frac d] split: sum.splits)
    with 1(3) False have "(d + v) mod 18446744073709551616 \<le> 9223372036854775808"
      "parse_units frac ((d + v) mod 18446744073709551616) r = Inr n"
      by (auto simp: parse_units.simps[of frac d] Let_def split: if_splits)
    with 1(1)[OF False p refl refl] show ?thesis by simp
  qed
qed

lemma ParseDuration_bound: "ParseDuration frac s = Inr d \<Longrightarrow> min_int64 \<le> d \<and> d \<le> max_int64"
  using wrap_int64_range
  by (auto simp: ParseDuration_def Let_def min_int64_def max_int64_def split: if_splits sum.splits list.splits)

lemma UnmarshalYAML_bound: "UnmarshalYAML frac node = Inr d \<Longrightarrow> min_int64 \<le> d \<and> d \<le> max_int64"
  using ParseDuration_bound[of frac "yn_value node" d]
  by (auto simp: UnmarshalYAML_def min_int64_def max_int64_def split: if_splits sum.splits)

text \<open>A duration as it is written: whole numbers, each with its unit.\<close>

fun written :: "(nat \<times> string) list \<Rightarrow> string" where
  "written [] = ''''"
| "written ((n, u) # parts) = nat_str n @ u @ written parts"

fun nanoseconds :: "(nat \<times> string) list \<Rightarrow> nat" where
  "nanoseconds [] = 0"
| "nanoseconds ((n, u) # parts) = n * the (map_of unit_map u) + nanoseconds parts"

lemma digits_val_mono: "digits_val acc s = Some n \<Longrightarrow> acc \<le> n"
  by (induction acc s rule: digits_val.induct) (auto split: option.splits)

lemma leading_int_digits:
  "\<lbrakk>digits_val acc s = Some n; n \<le> 9223372036854775808; r = [] \<or> digit_val (hd r) = None\<rbrakk> \<Longrightarrow>
   leading_int acc (s @ r) = Some (n, r)"
proof (induction acc s rule: digits_val.induct)
  case (1 acc)
  then show ?case by (cases r) auto
next
  case (2 acc c cs)
  then obtain d where d: "digit_val c = Some d" "digits_val (10 * acc + d) cs = Some n"
    by (auto split: option.splits)
  then have "10 * acc + d \<le> 9223372036854775808" using digits_val_mono[OF d(2)] 2(3) by simp
  with 2 d show ?case by simp
qed

lemma unit_map_names:
  "map_of unit_map u = Some k \<Longrightarrow> u \<noteq> '''' \<and> list_all unit_char u \<and> 0 < k"
proof -
  assume "map_of unit_map u = Some k"
  then have "(u, k) \<in> set unit_map" by (rule map_of_SomeD)
  moreover have "\<forall>(v, j) \<in> set unit_map. v \<noteq> '''' \<and> list_all unit_char v \<and> 0 < j"
    by (simp add: unit_map_def unit_char_def digit_val_def char_of_def bit_0)
  ultimately show ?thesis by blast
qed

lemma written_head: "written parts = [] \<or> \<not> unit_char (hd (written parts))"
proof (cases parts)
  case (Cons p ps)
  obtain n u where p: "p = (n, u)" by fastforce
  obtain c cs where c: "nat_str n = c # cs" by (cases "nat_str n") auto
  with digits_val_nat_str[of n] have "digit_val c \<noteq> None" by (auto split: option.splits)
  with c show ?thesis by (simp add: Cons p unit_char_def)
qed simp

lemma takeWhile_unit:
  "list_all unit_char u \<Longrightarrow> r = [] \<or> \<not> unit_char (hd r) \<Longrightarrow> takeWhile unit_char (u @ r) = u"
  by (induction u) (cases r; auto)+

lemma parse_unit_written:
  assumes u: "map_of unit_map u = Some k" and n: "n * k \<le> 9223372036854775808"
    and r: "r = [] \<or> \<not> unit_char (hd r)"
  shows "parse_unit frac (nat_str n @ u @ r) = Inr (n * k, r)"
proof -
  note un = unit_map_names[OF u]
  obtain c cs where c: "u = c # cs" "c \<noteq> CHR ''.''" "digit_val c = None"
    using un by (cases u) (auto simp: unit_char_def)
  have nk: "n \<le> n * k" using un by (cases k) simp_all
  then have "leading_int 0 (nat_str n @ u @ r) = Some (n, u @ r)"
    using order_trans[OF nk n] c by (intro leading_int_digits) auto
  moreover have "fraction_part (u @ r) = (0, 0, u @ r, False)" using c by (simp add: fraction_part_def)
  moreover have "takeWhile unit_char (u @ r) = u" using un r by (intro takeWhile_unit) auto
  moreover have "\<not> 9223372036854775808 div k < n" using n un by (simp add: not_less less_eq_div_iff_mult_less_eq)
  ultimately show ?thesis using u un n by (simp add: parse_unit_def Let_def)
qed

lemma parse_units_written:
  "\<lbrakk>\<forall>(n, u) \<in> set parts. map_of unit_map u \<noteq> None; d + nanoseconds parts \<le> 9223372036854775808\<rbrakk> \<Longrightarrow>
   parse_units frac d (written parts) = Inr (d + nanoseconds parts)"
proof (induction parts arbitrary: d)
  case Nil
  then show ?case by (simp add: parse_units.simps[of frac d])
next
  case (Cons p ps)
  obtain n u where p: "p = (n, u)" by fastforce
  with Cons.prems(1) obtain k where k: "map_of unit_map u = Some k" by auto
  from Cons.prems(2) have le: "n * k \<le> 9223372036854775808" "d + n * k \<le> 9223372036854775808"
    by (simp_all add: p k)
  note step = parse_unit_written[OF k le(1) written_head[of ps], of frac]
  from Cons.IH[of "d + n * k"] Cons.prems le(2)
  have "parse_units frac (d + n * k) (written ps) = Inr (d + nanoseconds (p # ps))" by (simp add: p k add.assoc)
  with step le(2) show ?case by (simp add: p parse_units.simps[of frac d] Let_def)
qed

lemma written_start:
  assumes "parts \<noteq> []" "\<forall>(n, u) \<in> set parts. map_of unit_map u \<noteq> None"
  shows "written parts \<notin> {'''', ''0''}" "hd (written parts) \<notin> {CHR ''-'', CHR ''+''}"
proof -
  obtain n u ps where p: "parts = (n, u) # ps" using assms(1) by (cases parts) auto
  then have "u \<noteq> ''''" using assms(2) unit_map_names[of u] by auto
  moreover obtain c cs where c: "nat_str n = c # cs" by (cases "nat_str n") auto
  ultimately show "written parts \<notin> {'''', ''0''}" by (auto simp: p)
  show "hd (written parts) \<notin> {CHR ''-'', CHR ''+''}" using nat_str_chars[of c n] c by (auto simp: p)
qed

text \<open>
  A duration of whole numbers with known units means the sum of its parts, with or without a sign;
  so a negative duration is accepted, and the validation of the configuration does not refuse it.
\<close>

lemma UnmarshalYAML_written:
  assumes "parts \<noteq> []" "\<forall>(n, u) \<in> set parts. map_of unit_map u \<noteq> None"
    and "nanoseconds parts \<le> 9223372036854775807" "yn_scalar node" "yn_tag node \<noteq> ''!!null''"
  shows "yn_value node = written parts \<Longrightarrow> UnmarshalYAML frac node = Inr (int (nanoseconds parts))"
    and "yn_value node = CHR ''-'' # written parts \<Longrightarrow> UnmarshalYAML frac node = Inr (- int (nanoseconds parts))"
proof -
  have u: "parse_units frac 0 (written parts) = Inr (nanoseconds parts)"
    using parse_units_written[OF assms(2), of 0 frac] assms(3) by simp
  note h = written_start[OF assms(1,2)]
  obtain c cs where w: "written parts = c # cs" using h(1) by (cases "written parts") auto
  show "UnmarshalYAML frac node = Inr (int (nanoseconds parts))" if "yn_value node = written parts"
    using that u h assms(3-5) by (auto simp: UnmarshalYAML_def ParseDuration_def w)
  show "UnmarshalYAML frac node = Inr (- int (nanoseconds parts))" if "yn_value node = CHR ''-'' # written parts"
    using that u h(1) assms(3-5) wrap_int64_id[of "- int (nanoseconds parts)"]
    by (simp add: UnmarshalYAML_def ParseDuration_def min_int64_def max_int64_def)
qed

end
