(* ===== verification/Config.thy ===== *)
theory Config
  imports Complex_Main Durations
begin

text \<open>
  The configuration of \<open>internal/config/config.go\<close>: the decoded YAML structures, the
  defaults, every validation rule, alias resolution and the log path of a model.
  Each validation function returns the first error the code returns, or \<^term>\<open>None\<close>;
  \<open>config_ok\<close> is the declarative contract they are proved to decide. The YAML decoder is a
  parameter of \<open>Load\<close>.
\<close>

section \<open>Data\<close>

text \<open>A \<open>float64\<close>: the comparisons of the code are false on NaN, as IEEE 754 requires.\<close>

datatype float64 = NaN | NegInf | PosInf | Fin rat

fun float_lt :: "float64 \<Rightarrow> float64 \<Rightarrow> bool" where
  "float_lt NaN _ = False"
| "float_lt _ NaN = False"
| "float_lt NegInf y = (y \<noteq> NegInf)"
| "float_lt _ NegInf = False"
| "float_lt PosInf y = False"
| "float_lt _ PosInf = True"
| "float_lt (Fin a) (Fin b) = (a < b)"

record server_config =
  srv_host :: string
  srv_port :: int
  srv_read_timeout :: duration
  srv_write_timeout :: duration
  srv_log_requests :: "bool option"
  srv_api_key :: string
  srv_api_key_set :: bool

record vllm_defaults =
  vd_gpu_memory_utilization :: "float64 option"
  vd_dtype :: string
  vd_max_model_len :: "int option"

record vllm_config =
  vc_port :: int
  vc_binary :: string
  vc_startup_timeout :: duration
  vc_shutdown_timeout :: duration
  vc_drain_timeout :: duration
  vc_swap_cooldown :: duration
  vc_swap_wait_timeout :: duration
  vc_defaults :: vllm_defaults
  vc_default_env :: "(string, string) gomap"
  vc_log_dir :: string
  vc_log_max_size_mb :: int
  vc_log_max_files :: int

record scheduler_config =
  sc_nvidia_smi_binary :: string
  sc_port_range_start :: int
  sc_port_range_end :: int
  sc_max_instances :: "int option"
  sc_min_instance_uptime :: "duration option"

record llama_cpp_config =
  lc_binary :: string
  lc_default_args :: "string list"

record behavior_config =
  bc_default_model :: string
  bc_rewrite_model_name :: bool

record model_config =
  mc_path :: string
  mc_runtime :: string
  mc_alias :: string
  mc_gpus :: "int list"
  mc_min_free_mem :: "int option"
  mc_pinned :: "bool option"
  mc_tensor_parallel_size :: "int option"
  mc_pipeline_parallel_size :: "int option"
  mc_max_model_len :: "int option"
  mc_gpu_memory_utilization :: "float64 option"
  mc_dtype :: string
  mc_quantization :: string
  mc_extra_args :: "string list"
  mc_env :: "(string, string) gomap"
  mc_power_limit :: "int option"
  mc_power_limits :: "(int, int) gomap option"
  mc_log_file :: string

record config =
  Server :: server_config
  VLLM :: vllm_config
  Behavior :: behavior_config
  SchedulerCfg :: "scheduler_config option"
  LlamaCpp :: "llama_cpp_config option"
  Models :: "(string, model_config) gomap"
  GPUPowerLimits :: "(int, int) gomap option"
  DefaultPowerLimit :: "int option"
  PowerLimitRequired :: bool

text \<open>A nil map and an empty map have the same length and the same lookups.\<close>

definition map_entries :: "('k, 'v) gomap option \<Rightarrow> ('k, 'v) gomap" where
  "map_entries m = (case m of None \<Rightarrow> [] | Some kvs \<Rightarrow> kvs)"

text \<open>One constructor per error the code returns.\<close>

datatype config_error =
    NoModels
  | PortRange string
  | EmptyAPIKey
  | UnknownRuntime string string
  | LlamaInScheduler string
  | LlamaBinaryMissing
  | PortRangeOrder
  | MaxInstancesNotPositive
  | MaxInstancesOverPorts int int
  | DefaultEnvSetsCUDA
  | ModelEnvSetsCUDA string
  | GPUsRequired string
  | GPUNegative string
  | GPUDuplicate string
  | MinFreeMemRequired string
  | DefaultModelUnknown string
  | PowerLimitsExclusive
  | GPUPowerLimitNotPositive int int
  | DefaultPowerLimitNotPositive int
  | LogMaxSizeNegative int
  | LogMaxFilesNegative int
  | PathRequired string
  | GPUMemoryUtilizationRange string
  | ModelPowerLimitsExclusive string
  | ModelPowerLimitNotPositive string int
  | ModelGPUPowerLimitNotPositive string int int
  | ModelPowerLimitForeignGPU string int
  | AliasLoop string string
  | AliasUnknown string string
  | AliasOfAlias string string
  | ModelNotFound string
  | DecodeError string

definition RuntimeVLLM :: string where
  "RuntimeVLLM = ''vllm''"

definition RuntimeLlamaCpp :: string where
  "RuntimeLlamaCpp = ''llama_cpp''"

definition cuda_env :: string where
  "cuda_env = ''CUDA_VISIBLE_DEVICES''"

section \<open>Defaults\<close>

definition dflt :: "'a \<Rightarrow> 'a \<Rightarrow> 'a \<Rightarrow> 'a" where
  "dflt zero d x = (if x = zero then d else x)"

lemma dflt_idem [simp]: "dflt z d (dflt z d x) = dflt z d x"
  by (simp add: dflt_def)

definition default_server :: "server_config \<Rightarrow> server_config" where
  "default_server s = s\<lparr>
     srv_host := dflt '''' ''127.0.0.1'' (srv_host s),
     srv_port := dflt 0 8080 (srv_port s),
     srv_read_timeout := dflt 0 (30 * second) (srv_read_timeout s),
     srv_write_timeout := dflt 0 (300 * second) (srv_write_timeout s),
     srv_log_requests := dflt None (Some True) (srv_log_requests s)\<rparr>"

definition default_vllm :: "vllm_config \<Rightarrow> vllm_config" where
  "default_vllm v = v\<lparr>
     vc_port := dflt 0 8000 (vc_port v),
     vc_binary := dflt '''' ''uvx'' (vc_binary v),
     vc_startup_timeout := dflt 0 (300 * second) (vc_startup_timeout v),
     vc_shutdown_timeout := dflt 0 (30 * second) (vc_shutdown_timeout v),
     vc_drain_timeout := dflt 0 (60 * second) (vc_drain_timeout v),
     vc_swap_cooldown := dflt 0 (30 * second) (vc_swap_cooldown v),
     vc_swap_wait_timeout := dflt 0 (60 * second) (vc_swap_wait_timeout v),
     vc_log_max_size_mb := dflt 0 50 (vc_log_max_size_mb v),
     vc_log_max_files := dflt 0 5 (vc_log_max_files v)\<rparr>"

definition default_scheduler :: "scheduler_config \<Rightarrow> scheduler_config" where
  "default_scheduler sc = sc\<lparr>
     sc_nvidia_smi_binary := dflt '''' ''nvidia-smi'' (sc_nvidia_smi_binary sc),
     sc_min_instance_uptime := dflt None (Some (30 * second)) (sc_min_instance_uptime sc)\<rparr>"

definition applyDefaults :: "config \<Rightarrow> config" where
  "applyDefaults c = c\<lparr>
     Server := default_server (Server c),
     VLLM := default_vllm (VLLM c),
     SchedulerCfg := map_option default_scheduler (SchedulerCfg c)\<rparr>"

section \<open>Validation\<close>

definition validatePort :: "string \<Rightarrow> int \<Rightarrow> config_error option" where
  "validatePort field port = fail_if (port < 1 \<or> port > 65535) (PortRange field)"

text \<open>The loop of \<open>validateRuntimes\<close>; \<open>anyLlama\<close> is its accumulator.\<close>

fun runtimes_loop ::
  "bool \<Rightarrow> bool \<Rightarrow> (string \<times> model_config) list \<Rightarrow> config_error + bool" where
  "runtimes_loop sched anyLlama [] = Inr anyLlama"
| "runtimes_loop sched anyLlama ((name, m) # ms) =
     (if mc_runtime m \<notin> {'''', RuntimeVLLM, RuntimeLlamaCpp}
        then Inl (UnknownRuntime name (mc_runtime m))
      else if mc_runtime m = RuntimeLlamaCpp
        then (if sched then Inl (LlamaInScheduler name) else runtimes_loop sched True ms)
      else runtimes_loop sched anyLlama ms)"

definition validateRuntimes :: "config \<Rightarrow> config_error option" where
  "validateRuntimes c =
     (case runtimes_loop (SchedulerCfg c \<noteq> None) False (Models c) of
        Inl e \<Rightarrow> Some e
      | Inr anyLlama \<Rightarrow>
          if anyLlama \<and> (case LlamaCpp c of None \<Rightarrow> True | Some l \<Rightarrow> lc_binary l = '''')
          then Some LlamaBinaryMissing else None)"

text \<open>The loop over one model's GPU list: negative ids and duplicates, in the code's order.\<close>

fun gpus_loop :: "string \<Rightarrow> int list \<Rightarrow> int list \<Rightarrow> config_error option" where
  "gpus_loop name seen [] = None"
| "gpus_loop name seen (g # gs) =
     (if g < 0 then Some (GPUNegative name)
      else if g \<in> set seen then Some (GPUDuplicate name)
      else gpus_loop name (g # seen) gs)"

definition validate_model_gpus :: "string \<times> model_config \<Rightarrow> config_error option" where
  "validate_model_gpus nm = (case nm of (name, m) \<Rightarrow>
     if mc_alias m \<noteq> '''' then None
     else first_some
       [fail_if (mc_gpus m = []) (GPUsRequired name),
        gpus_loop name [] (mc_gpus m),
        fail_if (case mc_min_free_mem m of None \<Rightarrow> True | Some x \<Rightarrow> x \<le> 0) (MinFreeMemRequired name)])"

definition validate_max_instances :: "scheduler_config \<Rightarrow> config_error option" where
  "validate_max_instances sc =
     (case sc_max_instances sc of None \<Rightarrow> None
      | Some n \<Rightarrow>
          let portCount = sc_port_range_end sc - sc_port_range_start sc + 1
          in first_some [fail_if (n \<le> 0) MaxInstancesNotPositive,
                         fail_if (n > portCount) (MaxInstancesOverPorts n portCount)])"

definition validateScheduler :: "config \<Rightarrow> config_error option" where
  "validateScheduler c =
     (case SchedulerCfg c of None \<Rightarrow> None
      | Some sc \<Rightarrow> first_some
          [validatePort ''scheduler.port_range_start'' (sc_port_range_start sc),
           validatePort ''scheduler.port_range_end'' (sc_port_range_end sc),
           fail_if (sc_port_range_start sc > sc_port_range_end sc) PortRangeOrder,
           validate_max_instances sc,
           fail_if (map_of (vc_default_env (VLLM c)) cuda_env \<noteq> None) DefaultEnvSetsCUDA,
           first_err (\<lambda>(name, m). fail_if (map_of (mc_env m) cuda_env \<noteq> None) (ModelEnvSetsCUDA name))
             (Models c),
           first_err validate_model_gpus (Models c)])"

text \<open>\<open>c.Models[current].Alias\<close>: the zero value for a missing key.\<close>

definition alias_of :: "(string, model_config) gomap \<Rightarrow> string \<Rightarrow> string" where
  "alias_of ms n = (case map_of ms n of None \<Rightarrow> '''' | Some m \<Rightarrow> mc_alias m)"

lemma card_diff_insert_less:
  "finite A \<Longrightarrow> x \<in> A \<Longrightarrow> x \<notin> B \<Longrightarrow> card (A - insert x B) < card (A - B)"
  by (rule psubset_card_mono) auto

text \<open>The inner loop of \<open>validateAliases\<close>; the result is the number of steps taken.\<close>

function alias_walk ::
  "(string, model_config) gomap \<Rightarrow> string \<Rightarrow> string \<Rightarrow> string list \<Rightarrow> nat \<Rightarrow> config_error + nat" where
  "alias_walk ms name current seen steps =
     (let nxt = alias_of ms current
      in if nxt = '''' then Inr steps
         else if nxt \<in> set seen then Inl (AliasLoop name nxt)
         else (case map_of ms nxt of
                 None \<Rightarrow> Inl (AliasUnknown name nxt)
               | Some nm \<Rightarrow>
                   if mc_alias nm = '''' then Inr (Suc steps)
                   else alias_walk ms name nxt (nxt # seen) (Suc steps)))"
  by pat_completeness auto

termination
proof (relation "measure (\<lambda>(ms, name, current, seen, steps). card (fst ` set ms - set seen))")
  fix ms :: "(string, model_config) gomap" and name current nxt nm
  fix seen :: "string list" and steps :: nat
  assume nxt: "\<not> nxt \<in> set seen" "map_of ms nxt = Some nm"
  then have "nxt \<in> fst ` set ms" by (metis gomap_key_iff option.distinct(1))
  with nxt(1) show "((ms, name, nxt, nxt # seen, Suc steps), (ms, name, current, seen, steps))
      \<in> measure (\<lambda>(ms, name, current, seen, steps). card (fst ` set ms - set seen))"
    using card_diff_insert_less[of "fst ` set ms" nxt "set seen"]
    by (simp del: card_Diff_insert)
qed simp

declare alias_walk.simps [simp del]

definition validate_alias ::
  "(string, model_config) gomap \<Rightarrow> string \<times> model_config \<Rightarrow> config_error option" where
  "validate_alias ms nm = (case nm of (name, m) \<Rightarrow>
     if mc_alias m = '''' then None
     else (case alias_walk ms name name [name] 0 of
             Inl e \<Rightarrow> Some e
           | Inr steps \<Rightarrow> fail_if (steps > 1) (AliasOfAlias name (alias_of ms name))))"

definition validateAliases :: "config \<Rightarrow> config_error option" where
  "validateAliases c = first_err (validate_alias (Models c)) (Models c)"

definition validatePowerLimits :: "config \<Rightarrow> config_error option" where
  "validatePowerLimits c =
     (let limits = map_entries (GPUPowerLimits c)
      in first_some
        [fail_if (length limits > 0 \<and> DefaultPowerLimit c \<noteq> None) PowerLimitsExclusive,
         first_err (\<lambda>(gpu, limit). fail_if (limit \<le> 0) (GPUPowerLimitNotPositive gpu limit)) limits,
         (case DefaultPowerLimit c of None \<Rightarrow> None
          | Some w \<Rightarrow> fail_if (w \<le> 0) (DefaultPowerLimitNotPositive w))])"

definition validateModelPowerLimits :: "string \<times> model_config \<Rightarrow> config_error option" where
  "validateModelPowerLimits nm = (case nm of (name, m) \<Rightarrow>
     let limits = map_entries (mc_power_limits m)
     in first_some
       [fail_if (mc_power_limit m \<noteq> None \<and> length limits > 0) (ModelPowerLimitsExclusive name),
        (case mc_power_limit m of None \<Rightarrow> None
         | Some w \<Rightarrow> fail_if (w \<le> 0) (ModelPowerLimitNotPositive name w)),
        first_err (\<lambda>(gpu, limit). fail_if (limit \<le> 0) (ModelGPUPowerLimitNotPositive name gpu limit)) limits,
        (if length limits > 0 \<and> length (mc_gpus m) > 0
         then first_err (\<lambda>(gpu, limit). fail_if (gpu \<notin> set (mc_gpus m)) (ModelPowerLimitForeignGPU name gpu)) limits
         else None)])"

definition validateLogSettings :: "config \<Rightarrow> config_error option" where
  "validateLogSettings c = first_some
     [fail_if (vc_log_max_size_mb (VLLM c) < 0) (LogMaxSizeNegative (vc_log_max_size_mb (VLLM c))),
      fail_if (vc_log_max_files (VLLM c) < 0) (LogMaxFilesNegative (vc_log_max_files (VLLM c)))]"

definition util_out_of_range :: "float64 option \<Rightarrow> bool" where
  "util_out_of_range u = (case u of None \<Rightarrow> False
     | Some f \<Rightarrow> float_lt f (Fin 0) \<or> float_lt (Fin 1) f)"

text \<open>The body of the model loop of \<open>Validate\<close>.\<close>

definition validate_model :: "string \<times> model_config \<Rightarrow> config_error option" where
  "validate_model nm = (case nm of (name, m) \<Rightarrow> first_some
     [fail_if (mc_alias m = '''' \<and> mc_path m = '''') (PathRequired name),
      fail_if (util_out_of_range (mc_gpu_memory_utilization m)) (GPUMemoryUtilizationRange name),
      validateModelPowerLimits (name, m)])"

definition Validate :: "config \<Rightarrow> config_error option" where
  "Validate c = first_some
     [fail_if (length (Models c) = 0) NoModels,
      validatePort ''server.port'' (srv_port (Server c)),
      validatePort ''vllm.port'' (vc_port (VLLM c)),
      fail_if (srv_api_key_set (Server c) \<and> trim_space (srv_api_key (Server c)) = '''') EmptyAPIKey,
      validateRuntimes c,
      validateScheduler c,
      fail_if (bc_default_model (Behavior c) \<noteq> '''' \<and>
               map_of (Models c) (bc_default_model (Behavior c)) = None)
        (DefaultModelUnknown (bc_default_model (Behavior c))),
      validatePowerLimits c,
      validateLogSettings c,
      first_err validate_model (Models c),
      validateAliases c]"

section \<open>Loading\<close>

text \<open>
  \<open>yaml.v3\<close> is not part of the repository: \<open>raw\<close> is the first decoding pass, which delivers the
  keys under \<open>server\<close> (none where there is no such mapping), and \<open>decode\<close> the strict second one.
  The unexported flag is not reachable by the decoder, so it is set on its result.
\<close>

definition serverAPIKeyPresent :: "('d \<Rightarrow> config_error + string list) \<Rightarrow> 'd \<Rightarrow> config_error + bool" where
  "serverAPIKeyPresent raw data =
     (case raw data of Inl e \<Rightarrow> Inl e | Inr ks \<Rightarrow> Inr (''api_key'' \<in> set ks))"

definition Load ::
  "('d \<Rightarrow> config_error + string list) \<Rightarrow> ('d \<Rightarrow> config_error + config) \<Rightarrow> 'd \<Rightarrow> config_error + config" where
  "Load raw decode data =
     (case serverAPIKeyPresent raw data of Inl e \<Rightarrow> Inl e
      | Inr apiKeySet \<Rightarrow>
          (case decode data of Inl e \<Rightarrow> Inl e
           | Inr c0 \<Rightarrow>
               let c = applyDefaults (c0\<lparr>Server := (Server c0)\<lparr>srv_api_key_set := apiKeySet\<rparr>\<rparr>)
               in (case Validate c of Some e \<Rightarrow> Inl e | None \<Rightarrow> Inr c)))"

section \<open>Lookups\<close>

definition ResolveModel :: "config \<Rightarrow> string \<Rightarrow> config_error + (string \<times> model_config)" where
  "ResolveModel c name =
     (case map_of (Models c) name of
        None \<Rightarrow> Inl (ModelNotFound name)
      | Some m \<Rightarrow>
          if mc_alias m = '''' then Inr (name, m)
          else (case map_of (Models c) (mc_alias m) of
                  None \<Rightarrow> Inl (AliasUnknown name (mc_alias m))
                | Some target \<Rightarrow> Inr (mc_alias m, target)))"

definition ResolveLogPath :: "config \<Rightarrow> string \<Rightarrow> string" where
  "ResolveLogPath c modelName =
     (case map_of (Models c) modelName of
        None \<Rightarrow> ''''
      | Some m \<Rightarrow>
          if mc_log_file m \<noteq> '''' then mc_log_file m
          else if vc_log_dir (VLLM c) \<noteq> '''' then path_join (vc_log_dir (VLLM c)) (modelName @ ''.log'')
          else '''')"

section \<open>What validation accepts\<close>

text \<open>
  The contract, in terms of lookups only: it does not depend on the order in which the maps are
  visited.
\<close>

definition port_ok :: "int \<Rightarrow> bool" where
  "port_ok p \<longleftrightarrow> 1 \<le> p \<and> p \<le> 65535"

definition scheduled_model_ok :: "model_config \<Rightarrow> bool" where
  "scheduled_model_ok m \<longleftrightarrow>
     mc_gpus m \<noteq> [] \<and> distinct (mc_gpus m) \<and> (\<forall>g \<in> set (mc_gpus m). 0 \<le> g) \<and>
     (\<exists>x. mc_min_free_mem m = Some x \<and> 0 < x)"

definition model_power_ok :: "model_config \<Rightarrow> bool" where
  "model_power_ok m \<longleftrightarrow>
     (mc_power_limit m = None \<or> map_entries (mc_power_limits m) = []) \<and>
     (\<forall>w. mc_power_limit m = Some w \<longrightarrow> 0 < w) \<and>
     (\<forall>(g, w) \<in> set (map_entries (mc_power_limits m)).
        0 < w \<and> (mc_gpus m \<noteq> [] \<longrightarrow> g \<in> set (mc_gpus m)))"

definition scheduler_ok :: "config \<Rightarrow> scheduler_config \<Rightarrow> bool" where
  "scheduler_ok c sc \<longleftrightarrow>
     port_ok (sc_port_range_start sc) \<and> port_ok (sc_port_range_end sc) \<and>
     sc_port_range_start sc \<le> sc_port_range_end sc \<and>
     (\<forall>n. sc_max_instances sc = Some n \<longrightarrow>
        0 < n \<and> n \<le> sc_port_range_end sc - sc_port_range_start sc + 1) \<and>
     map_of (vc_default_env (VLLM c)) cuda_env = None \<and>
     (\<forall>n m. map_of (Models c) n = Some m \<longrightarrow>
        map_of (mc_env m) cuda_env = None \<and> (mc_alias m = '''' \<longrightarrow> scheduled_model_ok m))"

definition runtime_ok :: "config \<Rightarrow> model_config \<Rightarrow> bool" where
  "runtime_ok c m \<longleftrightarrow>
     mc_runtime m \<in> {'''', RuntimeVLLM} \<or>
     mc_runtime m = RuntimeLlamaCpp \<and> SchedulerCfg c = None \<and>
       (\<exists>l. LlamaCpp c = Some l \<and> lc_binary l \<noteq> '''')"

definition alias_ok :: "config \<Rightarrow> model_config \<Rightarrow> bool" where
  "alias_ok c m \<longleftrightarrow>
     (mc_alias m = '''' \<or> (\<exists>t. map_of (Models c) (mc_alias m) = Some t \<and> mc_alias t = ''''))"

definition model_ok :: "config \<Rightarrow> model_config \<Rightarrow> bool" where
  "model_ok c m \<longleftrightarrow>
     runtime_ok c m \<and> (mc_alias m = '''' \<longrightarrow> mc_path m \<noteq> '''') \<and>
     \<not> util_out_of_range (mc_gpu_memory_utilization m) \<and> model_power_ok m \<and> alias_ok c m"

definition power_ok :: "config \<Rightarrow> bool" where
  "power_ok c \<longleftrightarrow>
     (map_entries (GPUPowerLimits c) = [] \<or> DefaultPowerLimit c = None) \<and>
     (\<forall>(g, w) \<in> set (map_entries (GPUPowerLimits c)). 0 < w) \<and>
     (\<forall>w. DefaultPowerLimit c = Some w \<longrightarrow> 0 < w)"

definition config_ok :: "config \<Rightarrow> bool" where
  "config_ok c \<longleftrightarrow>
     Models c \<noteq> [] \<and> port_ok (srv_port (Server c)) \<and> port_ok (vc_port (VLLM c)) \<and>
     (srv_api_key_set (Server c) \<longrightarrow> trim_space (srv_api_key (Server c)) \<noteq> '''') \<and>
     (\<forall>sc. SchedulerCfg c = Some sc \<longrightarrow> scheduler_ok c sc) \<and>
     (bc_default_model (Behavior c) \<noteq> '''' \<longrightarrow> map_of (Models c) (bc_default_model (Behavior c)) \<noteq> None) \<and>
     power_ok c \<and> 0 \<le> vc_log_max_size_mb (VLLM c) \<and> 0 \<le> vc_log_max_files (VLLM c) \<and>
     (\<forall>n m. map_of (Models c) n = Some m \<longrightarrow> model_ok c m)"

section \<open>Correctness of the checks\<close>

lemma validatePort_None [simp]: "validatePort f p = None \<longleftrightarrow> port_ok p"
  by (auto simp: validatePort_def port_ok_def)

lemma runtimes_loop_Inr:
  "runtimes_loop sched acc ms = Inr b \<longleftrightarrow>
     (\<forall>(n, m) \<in> set ms. mc_runtime m \<in> {'''', RuntimeVLLM} \<or> mc_runtime m = RuntimeLlamaCpp \<and> \<not> sched) \<and>
     b = (acc \<or> (\<exists>(n, m) \<in> set ms. mc_runtime m = RuntimeLlamaCpp))"
  by (induction sched acc ms rule: runtimes_loop.induct)
     (auto simp: RuntimeVLLM_def RuntimeLlamaCpp_def)

lemma validateRuntimes_None:
  "validateRuntimes c = None \<longleftrightarrow> (\<forall>(n, m) \<in> set (Models c). runtime_ok c m)"
proof (cases "runtimes_loop (SchedulerCfg c \<noteq> None) False (Models c)")
  case (Inl e)
  have "\<not> (\<forall>(n, m) \<in> set (Models c). runtime_ok c m)"
  proof
    assume "\<forall>(n, m) \<in> set (Models c). runtime_ok c m"
    then have "\<exists>b. runtimes_loop (SchedulerCfg c \<noteq> None) False (Models c) = Inr b"
      by (auto simp: runtimes_loop_Inr runtime_ok_def)
    with Inl show False by simp
  qed
  with Inl show ?thesis by (simp add: validateRuntimes_def)
next
  case (Inr b)
  then have ok: "\<forall>(n, m) \<in> set (Models c). mc_runtime m \<in> {[], RuntimeVLLM} \<or>
      mc_runtime m = RuntimeLlamaCpp \<and> SchedulerCfg c = None"
    and b: "b \<longleftrightarrow> (\<exists>(n, m) \<in> set (Models c). mc_runtime m = RuntimeLlamaCpp)"
    by (simp_all add: runtimes_loop_Inr)
  let ?bin = "\<exists>l. LlamaCpp c = Some l \<and> lc_binary l \<noteq> []"
  have "validateRuntimes c = None \<longleftrightarrow> (b \<longrightarrow> ?bin)"
    using Inr by (auto simp: validateRuntimes_def split: option.splits)
  also have "\<dots> \<longleftrightarrow> (\<forall>(n, m) \<in> set (Models c). runtime_ok c m)"
    using ok unfolding b by (fastforce simp: runtime_ok_def RuntimeVLLM_def RuntimeLlamaCpp_def)
  finally show ?thesis .
qed

lemma gpus_loop_None:
  "gpus_loop n seen gs = None \<longleftrightarrow> (\<forall>g \<in> set gs. 0 \<le> g) \<and> distinct gs \<and> set gs \<inter> set seen = {}"
  by (induction n seen gs rule: gpus_loop.induct) auto

lemma validate_model_gpus_None:
  "validate_model_gpus (n, m) = None \<longleftrightarrow> (mc_alias m = '''' \<longrightarrow> scheduled_model_ok m)"
  by (auto simp: validate_model_gpus_def go_loop gpus_loop_None scheduled_model_ok_def
           split: option.splits)

lemma validateScheduler_None:
  "gomap_ok (Models c) \<Longrightarrow>
   validateScheduler c = None \<longleftrightarrow> (\<forall>sc. SchedulerCfg c = Some sc \<longrightarrow> scheduler_ok c sc)"
  by (cases "SchedulerCfg c")
     (auto simp: validateScheduler_def scheduler_ok_def validate_max_instances_def go_loop go_map
                 validate_model_gpus_None Let_def split: option.splits)

lemma validatePowerLimits_None: "validatePowerLimits c = None \<longleftrightarrow> power_ok c"
  by (cases "DefaultPowerLimit c") (auto simp: validatePowerLimits_def power_ok_def go_loop Let_def not_le)

lemma validateModelPowerLimits_None:
  "validateModelPowerLimits (n, m) = None \<longleftrightarrow> model_power_ok m"
  by (cases "mc_power_limit m")
     (auto simp: validateModelPowerLimits_def go_loop Let_def model_power_ok_def not_le split: if_splits)

lemma validate_model_None:
  "validate_model (n, m) = None \<longleftrightarrow>
     (mc_alias m = '''' \<longrightarrow> mc_path m \<noteq> '''') \<and>
     \<not> util_out_of_range (mc_gpu_memory_utilization m) \<and> model_power_ok m"
  by (auto simp: validate_model_def go_loop validateModelPowerLimits_None)

text \<open>The alias walk accepts after one step exactly when the target exists and is no alias.\<close>

lemma alias_walk_steps: "alias_walk ms name cur seen k = Inr s \<Longrightarrow> k \<le> s"
proof (induction ms name cur seen k rule: alias_walk.induct)
  case (1 ms name cur seen k)
  from "1.prems" show ?case
    by (subst (asm) alias_walk.simps)
       (auto simp: Let_def split: if_splits option.splits dest!: "1.IH"[OF refl])
qed

lemma validate_alias_None:
  assumes "map_of (Models c) n = Some m"
  shows "validate_alias (Models c) (n, m) = None \<longleftrightarrow> alias_ok c m"
proof (cases "mc_alias m = ''''")
  case False
  with assms have a: "alias_of (Models c) n = mc_alias m" by (simp add: alias_of_def)
  show ?thesis
  proof (cases "map_of (Models c) (mc_alias m)")
    case None
    with a False show ?thesis
      by (auto simp: validate_alias_def alias_walk.simps[of _ n n] alias_ok_def Let_def)
  next
    case (Some t)
    show ?thesis
    proof (cases "mc_alias t = ''''")
      case True
      with a False Some assms show ?thesis
        by (auto simp: validate_alias_def alias_walk.simps[of _ n n] alias_ok_def Let_def)
    next
      case tgt: False
      have "steps > 1" if "alias_walk (Models c) n (mc_alias m) [mc_alias m, n] (Suc 0) = Inr steps" for steps
        using that tgt Some
        by (subst (asm) alias_walk.simps)
           (auto simp: Let_def alias_of_def split: if_splits option.splits dest!: alias_walk_steps)
      with a False Some tgt show ?thesis
        by (auto simp: validate_alias_def alias_walk.simps[of _ n n] alias_ok_def Let_def
                 split: sum.splits)
    qed
  qed
qed (simp add: validate_alias_def alias_ok_def)

lemma validateAliases_None:
  "gomap_ok (Models c) \<Longrightarrow>
   validateAliases c = None \<longleftrightarrow> (\<forall>n m. map_of (Models c) n = Some m \<longrightarrow> alias_ok c m)"
  by (auto simp: validateAliases_def go_loop go_map validate_alias_None)

lemmas validate_parts =
  validateRuntimes_None validateScheduler_None validatePowerLimits_None validate_model_None
  validateAliases_None

lemma Validate_None_iff: "gomap_ok (Models c) \<Longrightarrow> Validate c = None \<longleftrightarrow> config_ok c"
  by (auto simp: Validate_def validateLogSettings_def go_loop validate_parts go_map config_ok_def
        model_ok_def)

end
