(* ===== verification/Runtime_Args.thy ===== *)
theory Runtime_Args
  imports Config
begin

text \<open>
  How a backend process is described: the vLLM and llama.cpp adapters of \<open>internal/runtime\<close>,
  the command line of \<open>internal/vllmcli/args.go\<close> and the environment of
  \<open>internal/vllm/manager.go\<close>. The locale \<open>backend_runtime\<close> is the \<open>Runtime\<close>
  interface; both adapters are instances. \<open>fmt_float\<close> stands for
  \<open>strconv.FormatFloat\<close> and \<open>exists\<close> for a successful \<open>os.Stat\<close>.
\<close>

section \<open>vLLM command line\<close>

type_synonym args_result = "config_error + string list"

definition opt_flag :: "string \<Rightarrow> ('a \<Rightarrow> string) \<Rightarrow> 'a option \<Rightarrow> string list" where
  "opt_flag flag render v = (case v of None \<Rightarrow> [] | Some x \<Rightarrow> [flag, render x])"

definition str_flag :: "string \<Rightarrow> string \<Rightarrow> string list" where
  "str_flag flag v = (if v = '''' then [] else [flag, v])"

definition bind_args :: "int \<Rightarrow> string list" where
  "bind_args port = [''--host'', ''127.0.0.1'', ''--port'', itoa port]"

definition BuildServeArgsForPort ::
  "(float64 \<Rightarrow> string) \<Rightarrow> config \<Rightarrow> string \<Rightarrow> int \<Rightarrow> args_result" where
  "BuildServeArgsForPort fmt_float c requestedModel port =
     (case ResolveModel c requestedModel of Inl e \<Rightarrow> Inl e
      | Inr (_, m) \<Rightarrow>
          let d = vc_defaults (VLLM c);
              gpu = (if mc_gpu_memory_utilization m = None then vd_gpu_memory_utilization d
                     else mc_gpu_memory_utilization m);
              maxLen = (if mc_max_model_len m = None then vd_max_model_len d else mc_max_model_len m);
              dtype = (if mc_dtype m = '''' then vd_dtype d else mc_dtype m)
          in Inr ([''serve'', mc_path m] @ bind_args port
                  @ opt_flag ''--tensor-parallel-size'' itoa (mc_tensor_parallel_size m)
                  @ opt_flag ''--pipeline-parallel-size'' itoa (mc_pipeline_parallel_size m)
                  @ opt_flag ''--gpu-memory-utilization'' fmt_float gpu
                  @ opt_flag ''--max-model-len'' itoa maxLen
                  @ str_flag ''--dtype'' dtype
                  @ str_flag ''--quantization'' (mc_quantization m)
                  @ mc_extra_args m))"

definition BuildServeArgs :: "(float64 \<Rightarrow> string) \<Rightarrow> config \<Rightarrow> string \<Rightarrow> args_result" where
  "BuildServeArgs fmt_float c requestedModel =
     BuildServeArgsForPort fmt_float c requestedModel (vc_port (VLLM c))"

section \<open>llama.cpp command line\<close>

definition looksLikeLocalGGUF :: "(string \<Rightarrow> bool) \<Rightarrow> string \<Rightarrow> bool" where
  "looksLikeLocalGGUF exists p \<longleftrightarrow>
     has_prefix p ''/'' \<or> has_prefix p ''./'' \<or> has_prefix p ''../'' \<or>
     has_suffix (to_lower p) ''.gguf'' \<or> exists p"

text \<open>The fields \<open>warnIgnoredVLLMFields\<close> names in its warning.\<close>

definition ignored_vllm_fields :: "model_config \<Rightarrow> string list" where
  "ignored_vllm_fields m =
     (if mc_tensor_parallel_size m \<noteq> None then [''tensor_parallel_size''] else []) @
     (if mc_pipeline_parallel_size m \<noteq> None then [''pipeline_parallel_size''] else []) @
     (if mc_gpu_memory_utilization m \<noteq> None then [''gpu_memory_utilization''] else []) @
     (if mc_dtype m \<noteq> '''' then [''dtype''] else []) @
     (if mc_quantization m \<noteq> '''' then [''quantization''] else [])"

definition llama_args ::
  "(string \<Rightarrow> bool) \<Rightarrow> config \<Rightarrow> model_config \<Rightarrow> string \<Rightarrow> int \<Rightarrow> args_result" where
  "llama_args exists c m resolvedName port =
     (if mc_path m = '''' then Inl (PathRequired resolvedName)
      else Inr (bind_args port
                @ (if looksLikeLocalGGUF exists (mc_path m) then [''-m'', mc_path m]
                   else [''--hf-repo'', mc_path m])
                @ opt_flag ''--ctx-size'' itoa (mc_max_model_len m)
                @ (case LlamaCpp c of None \<Rightarrow> [] | Some l \<Rightarrow> lc_default_args l)
                @ mc_extra_args m))"

section \<open>The runtime adapters\<close>

datatype runtime = VllmRuntime | LlamaCppRuntime

text \<open>\<open>For\<close>: the empty name is vLLM.\<close>

definition runtime_for :: "string \<Rightarrow> config_error + runtime" where
  "runtime_for name =
     (if name = '''' \<or> name = RuntimeVLLM then Inr VllmRuntime
      else if name = RuntimeLlamaCpp then Inr LlamaCppRuntime
      else Inl (UnknownRuntime '''' name))"

fun runtime_name :: "runtime \<Rightarrow> string" where
  "runtime_name VllmRuntime = RuntimeVLLM"
| "runtime_name LlamaCppRuntime = RuntimeLlamaCpp"

fun runtime_binary :: "runtime \<Rightarrow> config \<Rightarrow> string" where
  "runtime_binary VllmRuntime c = vc_binary (VLLM c)"
| "runtime_binary LlamaCppRuntime c = (case LlamaCpp c of None \<Rightarrow> '''' | Some l \<Rightarrow> lc_binary l)"

fun runtime_build_args ::
  "(float64 \<Rightarrow> string) \<Rightarrow> (string \<Rightarrow> bool) \<Rightarrow> runtime \<Rightarrow> config \<Rightarrow> model_config \<Rightarrow> string \<Rightarrow> int \<Rightarrow> args_result" where
  "runtime_build_args ff ex VllmRuntime c m resolvedName port = BuildServeArgsForPort ff c resolvedName port"
| "runtime_build_args ff ex LlamaCppRuntime c m resolvedName port = llama_args ex c m resolvedName port"

text \<open>
  \<open>VerifyModelLoaded\<close> on the ids listed by \<open>GET /v1/models\<close>; the HTTP exchange is the
  caller's environment.
\<close>

fun model_loaded :: "runtime \<Rightarrow> string \<Rightarrow> string \<Rightarrow> string list \<Rightarrow> bool" where
  "model_loaded VllmRuntime expectedID expectedPath ids =
     list_ex (\<lambda>i. i = expectedID \<or> (expectedPath \<noteq> '''' \<and> i = expectedPath)) ids"
| "model_loaded LlamaCppRuntime expectedID expectedPath ids =
     (let base = (if expectedPath \<noteq> '''' then path_base expectedPath else '''')
      in list_ex (\<lambda>i. i = expectedID \<or> (expectedPath \<noteq> '''' \<and> i = expectedPath) \<or>
                      (base \<noteq> '''' \<and> i = base)) ids)"

text \<open>
  The contract of the interface: an adapter that builds a command line binds the process to the
  loopback address and the given port, before any configured extra argument, and accepts a backend
  that lists the model under its name or its path.
\<close>

locale backend_runtime =
  fixes build :: "config \<Rightarrow> model_config \<Rightarrow> string \<Rightarrow> int \<Rightarrow> args_result"
    and loaded :: "string \<Rightarrow> string \<Rightarrow> string list \<Rightarrow> bool"
  assumes build_binds:
      "\<lbrakk>ResolveModel c r = Inr (r, m); build c m r port = Inr args\<rbrakk> \<Longrightarrow>
        \<exists>pre post. \<forall>p. build c m r p = Inr (pre @ bind_args p @ post @ mc_extra_args m)"
    and loaded_id: "i \<in> set ids \<Longrightarrow> loaded i p ids"
    and loaded_path: "\<lbrakk>p \<noteq> ''''; p \<in> set ids\<rbrakk> \<Longrightarrow> loaded i p ids"
    and loaded_sound: "loaded i p ids \<Longrightarrow> ids \<noteq> []"
begin

lemma port_is_bound:
  assumes "ResolveModel c r = Inr (r, m)" "build c m r port = Inr args"
  shows "\<exists>i. i + 3 < length args \<and> args ! i = ''--host'' \<and> args ! (i + 1) = ''127.0.0.1'' \<and>
             args ! (i + 2) = ''--port'' \<and> args ! (i + 3) = itoa port"
proof -
  obtain pre post where "args = pre @ bind_args port @ post @ mc_extra_args m"
    using build_binds[OF assms] assms(2) by fastforce
  then show ?thesis
    by (intro exI[of _ "length pre"]) (simp add: bind_args_def nth_append)
qed

text \<open>Two processes of one model with different ports never share a command line.\<close>

lemma ports_separate:
  assumes "ResolveModel c r = Inr (r, m)" "build c m r p = Inr args" "build c m r q = Inr args'"
    and "p \<noteq> q" "port_ok p" "port_ok q"
  shows "args \<noteq> args'"
proof
  assume "args = args'"
  with build_binds[OF assms(1,2)] assms(2,3) have "bind_args p = bind_args q" by fastforce
  then have "itoa p = itoa q" by (simp add: bind_args_def)
  with assms(4-6) show False using itoa_inj_range[of p q] by (simp add: port_ok_def min_int64_def max_int64_def)
qed

end

lemma resolve_self: "ResolveModel c r = Inr (r', m) \<Longrightarrow> map_of (Models c) r' = Some m"
  by (auto simp: ResolveModel_def split: option.splits if_splits)

interpretation vllm_rt: backend_runtime
  "runtime_build_args ff ex VllmRuntime" "model_loaded VllmRuntime" for ff ex
proof
  fix c r m port args
  assume r: "ResolveModel c r = Inr (r, m)"
  show "\<exists>pre post. \<forall>p. runtime_build_args ff ex VllmRuntime c m r p = Inr (pre @ bind_args p @ post @ mc_extra_args m)"
    by (rule exI[of _ "[''serve'', mc_path m]"]) (simp add: r BuildServeArgsForPort_def Let_def)
qed (auto simp: list_ex_iff)

interpretation llama_rt: backend_runtime
  "runtime_build_args ff ex LlamaCppRuntime" "model_loaded LlamaCppRuntime" for ff ex
proof
  fix c r m port args
  assume "runtime_build_args ff ex LlamaCppRuntime c m r port = Inr args"
  then have "mc_path m \<noteq> ''''" by (auto simp: llama_args_def)
  then show "\<exists>pre post. \<forall>p. runtime_build_args ff ex LlamaCppRuntime c m r p = Inr (pre @ bind_args p @ post @ mc_extra_args m)"
    by (intro exI[of _ "[]"] exI[of _ "(if looksLikeLocalGGUF ex (mc_path m) then [''-m'', mc_path m] else [''--hf-repo'', mc_path m])
        @ opt_flag ''--ctx-size'' itoa (mc_max_model_len m) @ (case LlamaCpp c of None \<Rightarrow> [] | Some l \<Rightarrow> lc_default_args l)"])
       (simp add: llama_args_def)
qed (auto simp: list_ex_iff Let_def)

section \<open>Wrapping and environment\<close>

text \<open>\<open>uvx\<close> is called as \<open>uvx vllm \<dots>\<close>.\<close>

definition wrapBinaryArgs :: "string \<Rightarrow> string list \<Rightarrow> string \<times> string list" where
  "wrapBinaryArgs binary args =
     (if path_base binary = ''uvx'' then (binary, ''vllm'' # args) else (binary, args))"

definition mergeEnv :: "(string, string) gomap \<Rightarrow> (string, string) gomap \<Rightarrow> (string, string) gomap" where
  "mergeEnv base overlay = put_all overlay (put_all base [])"

text \<open>The map built by \<open>BuildEnv\<close>; entries of the process environment without \<open>=\<close> are dropped.\<close>

definition env_map ::
  "string list \<Rightarrow> (string, string) gomap \<Rightarrow> (string, string) gomap \<Rightarrow> (string, string) gomap" where
  "env_map base defaultEnv modelEnv =
     put_all modelEnv (put_all defaultEnv (put_all (List.map_filter (cut_at CHR ''='') base) []))"

definition BuildEnv ::
  "string list \<Rightarrow> (string, string) gomap \<Rightarrow> (string, string) gomap \<Rightarrow> string list" where
  "BuildEnv base defaultEnv modelEnv =
     map (\<lambda>(k, v). k @ CHR ''='' # v) (env_map base defaultEnv modelEnv)"

lemma env_map_ok: "gomap_ok (env_map base d m)"
  by (simp add: env_map_def put_all_ok)

lemma env_map_overlay:
  "\<lbrakk>gomap_ok d; gomap_ok m; map_of m k = Some v\<rbrakk> \<Longrightarrow> map_of (env_map base d m) k = Some v"
  by (simp add: env_map_def put_all_lookup)

lemma mergeEnv_lookup:
  "\<lbrakk>gomap_ok b; gomap_ok ov\<rbrakk> \<Longrightarrow>
   map_of (mergeEnv b ov) k = (case map_of ov k of Some v \<Rightarrow> Some v | None \<Rightarrow> map_of b k)"
  by (simp add: mergeEnv_def put_all_lookup split: option.splits)

lemma mergeEnv_ok: "gomap_ok (mergeEnv b ov)"
  by (simp add: mergeEnv_def put_all_ok)

text \<open>Every variable occurs once, with the value of the map.\<close>

lemma BuildEnv_entry:
  "\<lbrakk>gomap_ok d; gomap_ok m; map_of (env_map base d m) k = Some v\<rbrakk> \<Longrightarrow>
   k @ CHR ''='' # v \<in> set (BuildEnv base d m)"
  by (force simp: BuildEnv_def dest: map_of_SomeD)

end
