(* ===== verification/Log_Writer.thy ===== *)
theory Log_Writer
  imports Go_Strings
begin

text \<open>
  Where the output of a backend process goes: the bounded tail buffer of
  \<open>internal/vllm/runtime.go\<close> and the rotating log file of \<open>internal/vllm/logwriter.go\<close>.
  The file system is a map from paths to contents; which of its operations succeed is given by an
  environment record.
\<close>

section \<open>Tail buffer\<close>

record tail_buffer =
  tb_buf :: string
  tb_max :: nat

definition newTailBuffer :: "nat \<Rightarrow> tail_buffer" where
  "newTailBuffer mx = \<lparr>tb_buf = [], tb_max = mx\<rparr>"

definition tail_write :: "string \<Rightarrow> tail_buffer \<Rightarrow> nat \<times> tail_buffer" where
  "tail_write p t =
     (let buf = tb_buf t @ p
      in (length p, t\<lparr>tb_buf := if length buf > tb_max t then drop (length buf - tb_max t) buf else buf\<rparr>))"

definition tail_string :: "tail_buffer \<Rightarrow> string" where
  "tail_string t = tb_buf t"

text \<open>The last \<open>n\<close> bytes of a stream.\<close>

definition last_bytes :: "nat \<Rightarrow> string \<Rightarrow> string" where
  "last_bytes n s = drop (length s - n) s"

lemma tail_write_eq: "tail_string (snd (tail_write p t)) = last_bytes (tb_max t) (tb_buf t @ p)"
  by (simp add: tail_write_def tail_string_def last_bytes_def Let_def)

lemma tail_write_max [simp]: "tb_max (snd (tail_write p t)) = tb_max t"
  by (simp add: tail_write_def Let_def)

lemma last_bytes_append: "last_bytes n (last_bytes n s @ t) = last_bytes n (s @ t)"
  by (simp add: last_bytes_def) (cases "length s \<le> n"; cases "length t \<le> n"; simp add: drop_append add.commute)

lemma tail_writes_eq:
  "tail_string (fold (\<lambda>p t. snd (tail_write p t)) ps t) =
     (if ps = [] then tb_buf t else last_bytes (tb_max t) (tb_buf t @ concat ps))"
proof (induction ps arbitrary: t)
  case (Cons p ps)
  have "tb_buf (snd (tail_write p t)) = last_bytes (tb_max t) (tb_buf t @ p)"
    using tail_write_eq[of p t] by (simp add: tail_string_def)
  with Cons.IH[of "snd (tail_write p t)"] show ?case by (simp add: last_bytes_append)
qed (simp add: tail_string_def)

section \<open>Rotating log file\<close>

type_synonym fs = "(string, string) gomap"

text \<open>Which calls into the operating system succeed, by path; \<open>written\<close> is what \<open>Write\<close> accepts.\<close>

record fs_env =
  can_mkdir :: bool
  can_open :: bool
  can_remove :: "string \<Rightarrow> bool"
  can_rename :: "string \<Rightarrow> bool"
  written :: "nat \<Rightarrow> nat"

record log_writer =
  lw_path :: string
  lw_max_bytes :: int
  lw_max_files :: int
  lw_current_size :: int
  lw_open :: bool

datatype log_error = MkdirFailed | OpenFailed string | LogClosed | ShortWrite | InvalidFile

definition rot_path :: "string \<Rightarrow> int \<Rightarrow> string" where
  "rot_path path i = path @ CHR ''.'' # itoa i"

text \<open>\<open>os.Remove\<close> and \<open>os.Rename\<close>; the flag says whether a rename failed for another reason
  than a missing source.\<close>

definition fs_remove :: "fs_env \<Rightarrow> string \<Rightarrow> fs \<Rightarrow> fs" where
  "fs_remove env p f = (if can_remove env p then AList.delete p f else f)"

definition fs_rename :: "fs_env \<Rightarrow> string \<Rightarrow> string \<Rightarrow> fs \<Rightarrow> bool \<times> fs" where
  "fs_rename env p q f =
     (case map_of f p of
        None \<Rightarrow> (False, f)
      | Some content \<Rightarrow>
          if can_rename env p then (False, AList.update q content (AList.delete p f)) else (True, f))"

definition openFile :: "fs_env \<Rightarrow> log_writer \<Rightarrow> fs \<Rightarrow> log_error option \<times> log_writer \<times> fs" where
  "openFile env w f =
     (if \<not> can_open env then (Some (OpenFailed (lw_path w)), w, f)
      else let content = (case map_of f (lw_path w) of None \<Rightarrow> '''' | Some s \<Rightarrow> s)
           in (None, w\<lparr>lw_open := True, lw_current_size := int (length content)\<rparr>,
               AList.update (lw_path w) content f))"

definition NewRotatingFileWriter ::
  "fs_env \<Rightarrow> string \<Rightarrow> int \<Rightarrow> int \<Rightarrow> fs \<Rightarrow> (log_error + log_writer) \<times> fs" where
  "NewRotatingFileWriter env path maxSizeMB maxFiles f =
     (if \<not> can_mkdir env then (Inl MkdirFailed, f)
      else let w = \<lparr>lw_path = path, lw_max_bytes = wrap_int64 (wrap_int64 (maxSizeMB * 1024) * 1024),
                    lw_max_files = maxFiles, lw_current_size = 0, lw_open = False\<rparr>
           in (case openFile env w f of
                 (Some e, _, f') \<Rightarrow> (Inl e, f')
               | (None, w', f') \<Rightarrow> (Inr w', f')))"

text \<open>\<open>for i := n; i >= 1; i--\<close>: file \<open>.i\<close> becomes file \<open>.(i+1)\<close>.\<close>

fun shift_files :: "fs_env \<Rightarrow> string \<Rightarrow> nat \<Rightarrow> fs \<Rightarrow> fs" where
  "shift_files env path 0 f = f"
| "shift_files env path (Suc k) f =
     shift_files env path k
       (snd (fs_rename env (rot_path path (int (Suc k))) (rot_path path (int (Suc k) + 1)) f))"

definition rotate_log :: "fs_env \<Rightarrow> log_writer \<Rightarrow> fs \<Rightarrow> log_error option \<times> log_writer \<times> fs" where
  "rotate_log env w f =
     (let w1 = w\<lparr>lw_open := False\<rparr>;
          f1 = fs_remove env (rot_path (lw_path w) (lw_max_files w)) f;
          f2 = shift_files env (lw_path w) (nat (lw_max_files w - 1)) f1;
          (failed, f3) = fs_rename env (lw_path w) (lw_path w @ ''.1'') f2
      in if failed then openFile env w1 f3
         else openFile env (w1\<lparr>lw_current_size := 0\<rparr>) f3)"

text \<open>\<open>w.file.Write(p)\<close>: on a nil file it returns an error and writes nothing.\<close>

definition file_write :: "fs_env \<Rightarrow> string \<Rightarrow> log_writer \<Rightarrow> fs \<Rightarrow> nat \<times> log_error option \<times> fs" where
  "file_write env p w f =
     (if \<not> lw_open w then (0, Some InvalidFile, f)
      else let n = min (length p) (written env (length p));
               content = (case map_of f (lw_path w) of None \<Rightarrow> '''' | Some s \<Rightarrow> s)
           in (n, if n < length p then Some ShortWrite else None,
               AList.update (lw_path w) (content @ take n p) f))"

definition log_write ::
  "fs_env \<Rightarrow> string \<Rightarrow> log_writer \<Rightarrow> fs \<Rightarrow> nat \<times> log_error option \<times> log_writer \<times> fs" where
  "log_write env p w f =
     (if \<not> lw_open w then (0, Some LogClosed, w, f)
      else let (w1, f1) =
                 (if lw_max_bytes w > 0 \<and> lw_current_size w + int (length p) > lw_max_bytes w
                  then (case rotate_log env w f of (_, w', f') \<Rightarrow> (w', f')) else (w, f));
               (n, err, f2) = file_write env p w1 f1
           in (n, err, w1\<lparr>lw_current_size := lw_current_size w1 + int n\<rparr>, f2))"

definition log_close :: "log_writer \<Rightarrow> log_writer" where
  "log_close w = w\<lparr>lw_open := False\<rparr>"

section \<open>Correctness of rotation\<close>

text \<open>An environment in which every call succeeds.\<close>

definition all_ok :: fs_env where
  "all_ok = \<lparr>can_mkdir = True, can_open = True, can_remove = (\<lambda>_. True), can_rename = (\<lambda>_. True),
             written = (\<lambda>n. n)\<rparr>"

lemma all_ok_simps [simp]:
  "can_mkdir all_ok" "can_open all_ok" "can_remove all_ok p" "can_rename all_ok p" "written all_ok n = n"
  by (simp_all add: all_ok_def)

text \<open>The writer's size is the length of the file it has open.\<close>

definition log_inv :: "log_writer \<Rightarrow> fs \<Rightarrow> bool" where
  "log_inv w f \<longleftrightarrow>
     (lw_open w \<longrightarrow> (\<exists>s. map_of f (lw_path w) = Some s \<and> lw_current_size w = int (length s)))"

lemma rot_path_neq [simp]: "rot_path p i \<noteq> p" "p \<noteq> rot_path p i"
  by (simp_all add: rot_path_def)

lemma rot_path_inj:
  "\<lbrakk>rot_path p i = rot_path p j; min_int64 \<le> i; i \<le> max_int64; min_int64 \<le> j; j \<le> max_int64\<rbrakk> \<Longrightarrow> i = j"
  by (auto simp: rot_path_def intro: itoa_inj_range)

lemma rot_path_one: "p @ ''.1'' = rot_path p 1"
proof -
  have "itoa 1 = ''1''" by code_simp
  then show ?thesis by (simp add: rot_path_def)
qed

lemma openFile_inv:
  "openFile env w f = (e, w', f') \<Longrightarrow> (e = None \<longrightarrow> log_inv w' f' \<and> lw_open w') \<and> (e \<noteq> None \<longrightarrow> w' = w \<and> f' = f)
   \<and> lw_path w' = lw_path w \<and> lw_max_bytes w' = lw_max_bytes w \<and> lw_max_files w' = lw_max_files w"
  by (auto simp: openFile_def log_inv_def Let_def split: if_splits)

lemma rotate_log_inv: "rotate_log env w f = (e, w', f') \<Longrightarrow> log_inv w' f' \<and> lw_path w' = lw_path w \<and> lw_max_bytes w' = lw_max_bytes w"
  by (auto simp: rotate_log_def Let_def log_inv_def split: if_splits prod.splits dest!: openFile_inv)

lemma log_write_inv:
  "\<lbrakk>log_write env p w f = (n, e, w', f'); log_inv w f\<rbrakk> \<Longrightarrow> log_inv w' f'"
proof -
  have "log_inv (v\<lparr>lw_current_size := lw_current_size v + int n\<rparr>) g'"
    if "file_write env p v g = (n, e, g')" "log_inv v g" for v g g'
    using that by (auto simp: file_write_def log_inv_def Let_def min_def split: if_splits)
  then show "\<lbrakk>log_write env p w f = (n, e, w', f'); log_inv w f\<rbrakk> \<Longrightarrow> log_inv w' f'"
    by (auto simp: log_write_def Let_def split: if_splits prod.splits dest: rotate_log_inv)
qed

text \<open>What the shifting loop does when no rename fails.\<close>

lemma fs_rename_ok:
  "p \<noteq> q \<Longrightarrow> map_of (snd (fs_rename all_ok p q f)) r =
     (case map_of f p of None \<Rightarrow> map_of f r
      | Some s \<Rightarrow> if r = q then Some s else if r = p then None else map_of f r)"
  by (auto simp: fs_rename_def split: option.splits)

lemma shift_files_frame:
  "\<forall>i. 1 \<le> i \<and> i \<le> int n + 1 \<longrightarrow> r \<noteq> rot_path p i \<Longrightarrow>
   map_of (shift_files all_ok p n f) r = map_of f r"
proof (induction n arbitrary: f)
  case (Suc n)
  let ?f = "snd (fs_rename all_ok (rot_path p (int (Suc n))) (rot_path p (int (Suc n) + 1)) f)"
  have "r \<noteq> rot_path p (int (Suc n))" "r \<noteq> rot_path p (int (Suc n) + 1)"
    using Suc.prems by auto
  then have "map_of ?f r = map_of f r" by (simp add: fs_rename_def split: option.splits)
  with Suc.IH[of ?f] Suc.prems show ?case by simp
qed simp

lemma shift_files_at:
  assumes "int n < max_int64" "map_of f (rot_path p (int n + 1)) = None"
  shows "(1 \<le> i \<and> i \<le> int n \<longrightarrow>
            map_of (shift_files all_ok p n f) (rot_path p (i + 1)) = map_of f (rot_path p i)) \<and>
         map_of (shift_files all_ok p n f) (rot_path p 1) = (if n = 0 then map_of f (rot_path p 1) else None)"
  using assms
proof (induction n arbitrary: f)
  case (Suc n)
  let ?src = "rot_path p (int (Suc n))" and ?dst = "rot_path p (int (Suc n) + 1)"
  let ?f = "snd (fs_rename all_ok ?src ?dst f)"
  have inj: "rot_path p j = rot_path p k \<longleftrightarrow> j = k" if "1 \<le> j" "1 \<le> k" "j \<le> int n + 2" "k \<le> int n + 2" for j k
    using that Suc.prems(1) rot_path_inj[of p j k] by (auto simp: min_int64_def)
  have f: "map_of ?f r = (case map_of f ?src of None \<Rightarrow> map_of f r
      | Some s \<Rightarrow> if r = ?dst then Some s else if r = ?src then None else map_of f r)" for r
    by (rule fs_rename_ok) (use inj[of "int (Suc n)" "int (Suc n) + 1"] in simp)
  have src: "map_of ?f ?src = None"
    unfolding f using inj[of "int (Suc n)" "int (Suc n) + 1"] by (auto split: option.splits)
  have IH: "(1 \<le> i \<and> i \<le> int n \<longrightarrow>
            map_of (shift_files all_ok p n ?f) (rot_path p (i + 1)) = map_of ?f (rot_path p i)) \<and>
         map_of (shift_files all_ok p n ?f) (rot_path p 1) = (if n = 0 then map_of ?f (rot_path p 1) else None)"
    using Suc.IH[of ?f] Suc.prems(1) src by (simp add: algebra_simps)
  have low: "map_of ?f (rot_path p i) = map_of f (rot_path p i)" if "1 \<le> i" "i \<le> int n"
    unfolding f using inj[of i "int (Suc n) + 1"] inj[of i "int (Suc n)"] that by (auto split: option.splits)
  have top: "map_of (shift_files all_ok p n ?f) ?dst = map_of f ?src"
  proof -
    have "map_of (shift_files all_ok p n ?f) ?dst = map_of ?f ?dst"
      by (rule shift_files_frame) (use inj[of "int (Suc n) + 1"] in auto)
    also have "\<dots> = map_of f ?src"
      unfolding f using Suc.prems(2) by (auto simp: algebra_simps split: option.splits)
    finally show ?thesis .
  qed
  show ?case
  proof (intro conjI impI)
    assume "1 \<le> i \<and> i \<le> int (Suc n)"
    then show "map_of (shift_files all_ok p (Suc n) f) (rot_path p (i + 1)) = map_of f (rot_path p i)"
      using IH low top by (cases "i = int (Suc n)") auto
  qed (use IH src in auto)
qed auto

text \<open>One rotation: every kept file moves up by one, the oldest is gone, a fresh file is open.\<close>

lemma rotate_log_ok:
  assumes mf: "1 \<le> lw_max_files w" "lw_max_files w < max_int64"
    and r: "rotate_log all_ok w f = (e, w', f')"
  shows "e = None \<and> lw_open w' \<and> lw_current_size w' = 0 \<and> map_of f' (lw_path w) = Some '''' \<and>
    map_of f' (rot_path (lw_path w) 1) =
      (case map_of f (lw_path w) of Some s \<Rightarrow> Some s
       | None \<Rightarrow> None) \<and>
    (\<forall>i. 1 \<le> i \<and> i < lw_max_files w \<longrightarrow>
       map_of f' (rot_path (lw_path w) (i + 1)) = map_of f (rot_path (lw_path w) i))"
proof -
  let ?p = "lw_path w" and ?n = "nat (lw_max_files w - 1)"
  let ?f1 = "fs_remove all_ok (rot_path ?p (lw_max_files w)) f"
  let ?f2 = "shift_files all_ok ?p ?n ?f1"
  have n: "int ?n + 1 = lw_max_files w" "int ?n < max_int64" using mf by auto
  have inj: "rot_path ?p j = rot_path ?p k \<longleftrightarrow> j = k" if "1 \<le> j" "1 \<le> k" "j \<le> lw_max_files w" "k \<le> lw_max_files w" for j k
    using that mf rot_path_inj[of ?p j k] by (auto simp: min_int64_def)
  have f1: "map_of ?f1 r = (if r = rot_path ?p (lw_max_files w) then None else map_of f r)" for r
    by (simp add: fs_remove_def)
  have none: "map_of ?f1 (rot_path ?p (int ?n + 1)) = None" using n(1) by (simp add: f1)
  note shift = shift_files_at[OF n(2) none]
  have at: "map_of ?f2 (rot_path ?p (i + 1)) = map_of f (rot_path ?p i)" if "1 \<le> i" "i < lw_max_files w" for i
    using shift[of i] n(1) inj[of i "lw_max_files w"] that by (auto simp: f1)
  have first: "map_of ?f2 (rot_path ?p 1) = None"
    using shift none by (cases "?n = 0") auto
  have base: "map_of ?f2 ?p = map_of f ?p"
    using shift_files_frame[of ?n ?p ?p ?f1] f1 by simp
  from r at first base mf(1) show ?thesis
    by (auto simp: rotate_log_def Let_def rot_path_one fs_rename_def openFile_def inj split: option.splits)
qed

end
