(* ===== verification/Json.thy ===== *)
theory Json
  imports Go_Strings
begin

text \<open>
  The part of \<open>encoding/json\<close> the proxy uses: reading a document, writing a value, and the
  strings in between, on bytes. A number keeps its text; what \<open>float64\<close> makes of it is a
  parameter of the code that converts numbers.
\<close>

section \<open>UTF-8\<close>

abbreviation byte :: "char \<Rightarrow> nat" where
  "byte c \<equiv> of_char c"

abbreviation bytes :: "nat list \<Rightarrow> string" where
  "bytes ns \<equiv> map char_of ns"

definition continues :: "nat \<Rightarrow> string \<Rightarrow> bool" where
  "continues n s \<longleftrightarrow> n \<le> length s \<and> list_all (\<lambda>c. 128 \<le> byte c \<and> byte c < 192) (take n s)"

text \<open>The length of the well-formed encoding at the start of a string, 0 if there is none.\<close>

definition rune_len :: "string \<Rightarrow> nat" where
  "rune_len s =
     (case s of [] \<Rightarrow> 0
      | c # cs \<Rightarrow>
          let b = byte c
          in if b < 128 then 1
             else if 194 \<le> b \<and> b < 224 \<and> continues 1 cs then 2
             else if 224 \<le> b \<and> b < 240 \<and> continues 2 cs \<and> (b = 224 \<longrightarrow> 160 \<le> byte (hd cs)) \<and>
                     (b = 237 \<longrightarrow> byte (hd cs) < 160) then 3
             else if 240 \<le> b \<and> b < 245 \<and> continues 3 cs \<and> (b = 240 \<longrightarrow> 144 \<le> byte (hd cs)) \<and>
                     (b = 244 \<longrightarrow> byte (hd cs) < 144) then 4
             else 0)"

definition replacement :: string where
  "replacement = bytes [239, 191, 189]"

definition utf8_encode :: "nat \<Rightarrow> string" where
  "utf8_encode r = bytes
     (if r < 128 then [r]
      else if r < 2048 then [192 + r div 64, 128 + r mod 64]
      else if r < 65536 then [224 + r div 4096, 128 + r div 64 mod 64, 128 + r mod 64]
      else [240 + r div 262144, 128 + r div 4096 mod 64, 128 + r div 64 mod 64, 128 + r mod 64])"

text \<open>Well-formed text.\<close>

inductive utf8_ok :: "string \<Rightarrow> bool" where
  empty: "utf8_ok []"
| rune: "0 < rune_len s \<Longrightarrow> utf8_ok (drop (rune_len s) s) \<Longrightarrow> utf8_ok s"

lemma rune_len_Nil [simp]: "rune_len [] = 0"
  by (simp add: rune_len_def)

lemma rune_len_ascii: "byte c < 128 \<Longrightarrow> rune_len (c # cs) = 1"
  by (simp add: rune_len_def)

lemma rune_len_1D: "rune_len (c # cs) = 1 \<Longrightarrow> byte c < 128"
  by (auto simp: rune_len_def Let_def split: if_splits)

lemma rune_len_le: "rune_len s \<le> length s"
  by (cases s) (auto simp: rune_len_def Let_def continues_def)

lemma continues_take: "continues n s \<Longrightarrow> continues n (take n s @ t)"
  by (simp add: continues_def)

lemma rune_len_take: "0 < rune_len s \<Longrightarrow> rune_len (take (rune_len s) s @ t) = rune_len s"
proof (cases s)
  case (Cons c cs)
  have hd_take: "hd (take n cs @ t) = hd cs" if "continues n cs" "0 < n" for n
    using that by (cases cs) (auto simp: continues_def take_Cons')
  assume "0 < rune_len s"
  with Cons show ?thesis
    by (auto simp: rune_len_def Let_def continues_take hd_take split: if_splits)
qed simp

section \<open>Strings\<close>

definition hex_val :: "char \<Rightarrow> nat option" where
  "hex_val c =
     (let b = byte c
      in if 48 \<le> b \<and> b \<le> 57 then Some (b - 48)
         else if 97 \<le> b \<and> b \<le> 102 then Some (b - 87)
         else if 65 \<le> b \<and> b \<le> 70 then Some (b - 55)
         else None)"

definition hex4 :: "string \<Rightarrow> nat option" where
  "hex4 s =
     (case map hex_val (take 4 s) of
        [Some a, Some b, Some c, Some d] \<Rightarrow> Some (((a * 16 + b) * 16 + c) * 16 + d)
      | _ \<Rightarrow> None)"

text \<open>The text after a backslash: what it stands for and how many bytes it takes.\<close>

definition unescape :: "string \<Rightarrow> (string \<times> nat) option" where
  "unescape s =
     (case s of [] \<Rightarrow> None
      | e # r \<Rightarrow>
          if e = CHR 0x22 \<or> e = CHR 0x5C \<or> e = CHR ''/'' then Some ([e], 1)
          else if e = CHR ''b'' then Some (bytes [8], 1)
          else if e = CHR ''f'' then Some (bytes [12], 1)
          else if e = CHR ''n'' then Some (bytes [10], 1)
          else if e = CHR ''r'' then Some (bytes [13], 1)
          else if e = CHR ''t'' then Some (bytes [9], 1)
          else if e = CHR ''u'' then
            (case hex4 r of
               None \<Rightarrow> None
             | Some v \<Rightarrow>
                 if v < 55296 \<or> 57344 \<le> v then Some (utf8_encode v, 5)
                 else (case (if take 2 (drop 4 r) = [CHR 0x5C, CHR ''u''] then hex4 (drop 6 r) else None) of
                         Some w \<Rightarrow>
                           if v < 56320 \<and> 56320 \<le> w \<and> w < 57344
                           then Some (utf8_encode (65536 + (v - 55296) * 1024 + (w - 56320)), 11)
                           else Some (replacement, 5)
                       | None \<Rightarrow> Some (replacement, 5)))
          else None)"

text \<open>The text after an opening quote: the string and what follows its closing quote.\<close>

function str_body :: "string \<Rightarrow> (string \<times> string) option" where
  "str_body s =
     (case s of [] \<Rightarrow> None
      | c # cs \<Rightarrow>
          if c = CHR 0x22 then Some ([], cs)
          else if c = CHR 0x5C then
            (case unescape cs of
               None \<Rightarrow> None
             | Some (t, n) \<Rightarrow> map_option (apfst ((@) t)) (str_body (drop n cs)))
          else if byte c < 32 then None
          else if rune_len s = 0 then map_option (apfst ((@) replacement)) (str_body cs)
          else map_option (apfst ((@) (take (rune_len s) s))) (str_body (drop (rune_len s) s)))"
  by pat_completeness auto
termination
  by (relation "measure length") auto

declare str_body.simps [simp del]

definition hex_char :: "nat \<Rightarrow> char" where
  "hex_char d = (if d < 10 then char_of (48 + d) else char_of (87 + d))"

definition u00 :: "nat \<Rightarrow> string" where
  "u00 b = [CHR 0x5C, CHR ''u'', CHR ''0'', CHR ''0'', hex_char (b div 16), hex_char (b mod 16)]"

definition enc_ascii :: "char \<Rightarrow> string" where
  "enc_ascii c =
     (if c = CHR 0x22 \<or> c = CHR 0x5C then [CHR 0x5C, c]
      else if byte c = 8 then [CHR 0x5C, CHR ''b'']
      else if byte c = 12 then [CHR 0x5C, CHR ''f'']
      else if byte c = 10 then [CHR 0x5C, CHR ''n'']
      else if byte c = 13 then [CHR 0x5C, CHR ''r'']
      else if byte c = 9 then [CHR 0x5C, CHR ''t'']
      else if byte c < 32 \<or> c = CHR ''<'' \<or> c = CHR ''>'' \<or> c = CHR ''&'' then u00 (byte c)
      else [c])"

definition line_sep :: "nat \<Rightarrow> string" where
  "line_sep b = bytes [226, 128, b]"

function enc_body :: "string \<Rightarrow> string" where
  "enc_body s =
     (case s of [] \<Rightarrow> []
      | c # cs \<Rightarrow>
          if rune_len s = 0 then CHR 0x5C # ''ufffd'' @ enc_body cs
          else if rune_len s = 1 then enc_ascii c @ enc_body cs
          else if take 3 s = line_sep 168 then CHR 0x5C # ''u2028'' @ enc_body (drop 3 s)
          else if take 3 s = line_sep 169 then CHR 0x5C # ''u2029'' @ enc_body (drop 3 s)
          else take (rune_len s) s @ enc_body (drop (rune_len s) s))"
  by pat_completeness auto
termination
  by (relation "measure length") auto

declare enc_body.simps [simp del]

definition enc_string :: "string \<Rightarrow> string" where
  "enc_string s = CHR 0x22 # enc_body s @ [CHR 0x22]"

subsection \<open>Reading what was written\<close>

lemma hex_val_char: "d < 16 \<Longrightarrow> hex_val (hex_char d) = Some d"
  by (auto simp: hex_val_def hex_char_def Let_def)

lemma hex4_u00: "b < 256 \<Longrightarrow> hex4 (drop 2 (u00 b) @ t) = Some b"
proof -
  assume "b < 256"
  then have d: "b div 16 < 16" "b mod 16 < 16" by simp_all
  have z: "hex_val CHR ''0'' = Some 0" by (simp add: hex_val_def)
  show ?thesis by (simp add: hex4_def u00_def hex_val_char[OF d(1)] hex_val_char[OF d(2)] z)
qed

lemma unescape_u00: "b < 128 \<Longrightarrow> unescape (drop 1 (u00 b) @ t) = Some ([char_of b], 5)"
proof -
  assume b: "b < 128"
  have "drop 1 (u00 b) @ t = CHR ''u'' # (drop 2 (u00 b) @ t)" by (simp add: u00_def)
  with b hex4_u00[of b t] show ?thesis by (simp add: unescape_def utf8_encode_def)
qed

lemma str_body_escape:
  "unescape cs = Some (t, n) \<Longrightarrow> str_body (CHR 0x5C # cs) = map_option (apfst ((@) t)) (str_body (drop n cs))"
  by (subst str_body.simps) simp

lemma append_single [simp]: "(@) [x] = (#) x"
  by (rule ext) simp

lemma enc_ctl:
  "n \<in> {8, 12, 10, 13, 9 :: nat} \<Longrightarrow>
   \<exists>l. enc_ascii (char_of n) = [CHR 0x5C, l] \<and> unescape (l # t) = Some ([char_of n], 1)"
  by (elim insertE emptyE) (simp_all add: enc_ascii_def unescape_def char_of_eq_iff)

lemma str_body_ascii:
  assumes "byte c < 128"
  shows "str_body (enc_ascii c @ t) = map_option (apfst ((#) c)) (str_body t)"
proof -
  consider (quote) "c = CHR 0x22 \<or> c = CHR 0x5C" | (ctl) "byte c \<in> {8, 12, 10, 13, 9}"
    | (hex) "\<not> (c = CHR 0x22 \<or> c = CHR 0x5C)" "byte c \<notin> {8, 12, 10, 13, 9}"
        "byte c < 32 \<or> c = CHR ''<'' \<or> c = CHR ''>'' \<or> c = CHR ''&''"
    | (plain) "\<not> (c = CHR 0x22 \<or> c = CHR 0x5C)"
        "\<not> (byte c < 32 \<or> c = CHR ''<'' \<or> c = CHR ''>'' \<or> c = CHR ''&'')" "byte c \<notin> {8, 12, 10, 13, 9}"
    by blast
  then show ?thesis
  proof cases
    case quote
    then show ?thesis by (auto simp: enc_ascii_def unescape_def str_body_escape)
  next
    case ctl
    then obtain l where "enc_ascii c = [CHR 0x5C, l]" "unescape (l # t) = Some ([c], 1)"
      using enc_ctl[OF ctl, of t] by auto
    then show ?thesis by (simp add: str_body_escape)
  next
    case hex
    then have "enc_ascii c = u00 (byte c)" by (auto simp: enc_ascii_def)
    then have "enc_ascii c @ t = CHR 0x5C # drop 1 (u00 (byte c)) @ t" "drop 5 (drop 1 (u00 (byte c)) @ t) = t"
      by (simp_all add: u00_def)
    with unescape_u00[OF assms, of t] show ?thesis by (simp add: str_body_escape)
  next
    case plain
    then have "enc_ascii c = [c]" by (auto simp: enc_ascii_def)
    with plain assms show ?thesis by (subst str_body.simps) (auto simp: rune_len_ascii)
  qed
qed

lemma str_body_multi:
  assumes "s = c # cs" "128 \<le> byte c" "0 < rune_len s"
  shows "str_body s = map_option (apfst ((@) (take (rune_len s) s))) (str_body (drop (rune_len s) s))"
  using assms by (subst str_body.simps) auto

lemma str_body_rune:
  assumes n: "2 \<le> rune_len s"
  shows "str_body (take (rune_len s) s @ t) = map_option (apfst ((@) (take (rune_len s) s))) (str_body t)"
proof -
  let ?X = "take (rune_len s) s @ t"
  obtain c cs where s: "s = c # cs" using n by (cases s) auto
  have c: "128 \<le> byte c"
  proof (rule ccontr)
    assume "\<not> 128 \<le> byte c"
    then have "rune_len s = 1" by (simp add: s rune_len_ascii)
    with n show False by simp
  qed
  have r: "rune_len ?X = rune_len s" using n by (intro rune_len_take) simp
  obtain xs where "?X = c # xs" using n s by (cases "rune_len s") auto
  from str_body_multi[OF this c] r n rune_len_le[of s] show ?thesis by simp
qed

lemma unescape_line_sep:
  "unescape (''u2028'' @ t) = Some (line_sep 168, 5)" "unescape (''u2029'' @ t) = Some (line_sep 169, 5)"
  by (simp_all add: unescape_def hex4_def hex_val_def utf8_encode_def line_sep_def)

lemma rune_len_line_sep: "take 3 s = line_sep b \<Longrightarrow> 128 \<le> b \<Longrightarrow> b < 192 \<Longrightarrow> rune_len s = 3"
proof -
  assume "take 3 s = line_sep b" and b: "128 \<le> b" "b < 192"
  then have "s = line_sep b @ drop 3 s" by (metis append_take_drop_id)
  moreover have "rune_len (line_sep b @ drop 3 s) = 3"
    using b by (simp add: rune_len_def line_sep_def continues_def)
  ultimately show ?thesis by simp
qed

lemma str_body_enc: "utf8_ok s \<Longrightarrow> str_body (enc_body s @ CHR 0x22 # rest) = Some (s, rest)"
proof (induction rule: utf8_ok.induct)
  case empty
  show ?case by (simp add: enc_body.simps str_body.simps[of "CHR 0x22 # rest"])
next
  case (rune s)
  obtain c cs where s: "s = c # cs" using rune(1) by (cases s) auto
  let ?n = "rune_len s"
  consider (ascii) "?n = 1" | (sep) b where "take 3 s = line_sep b" "b = 168 \<or> b = 169"
    | (other) "2 \<le> ?n" "take 3 s \<noteq> line_sep 168" "take 3 s \<noteq> line_sep 169"
    using rune(1) by fastforce
  then show ?case
  proof cases
    case ascii
    then have "enc_body s = enc_ascii c @ enc_body (drop ?n s)" by (simp add: s enc_body.simps[of "c # cs"])
    with ascii rune.IH rune_len_1D[of c cs] s show ?thesis by (simp add: str_body_ascii)
  next
    case sep
    then have n: "?n = 3" by (auto intro: rune_len_line_sep)
    have e: "take 3 s @ drop 3 s = s" by simp
    have "enc_body s = CHR 0x5C # (if b = 168 then ''u2028'' else ''u2029'') @ enc_body (drop 3 s)"
      using sep n by (subst enc_body.simps) (auto simp: s line_sep_def)
    with sep rune.IH n e show ?thesis
      using str_body_escape[OF unescape_line_sep(1)] str_body_escape[OF unescape_line_sep(2)]
      by (auto simp: append_eq_append_conv2)
  next
    case other
    then have "enc_body s = take ?n s @ enc_body (drop ?n s)" by (simp add: s enc_body.simps[of "c # cs"])
    with other rune.IH show ?thesis by (simp add: str_body_rune)
  qed
qed

section \<open>Values\<close>

text \<open>The members of an object in the order of the text, repetitions included.\<close>

datatype json =
    JNull
  | JBool bool
  | JNum string
  | JStr string
  | JArr "json list"
  | JObj "(string \<times> json) list"

definition json_space :: "char \<Rightarrow> bool" where
  "json_space c \<longleftrightarrow> byte c \<in> {32, 9, 10, 13}"

definition skip_ws :: "string \<Rightarrow> string" where
  "skip_ws s = dropWhile json_space s"

definition is_digit :: "char \<Rightarrow> bool" where
  "is_digit c \<longleftrightarrow> 48 \<le> byte c \<and> byte c < 58"

text \<open>The parts of a number: each gives the text it takes, \<^term>\<open>None\<close> when it is malformed.\<close>

definition num_digits :: "string \<Rightarrow> string option" where
  "num_digits s = (let ds = takeWhile is_digit s in if ds = [] then None else Some ds)"

definition num_int :: "string \<Rightarrow> string option" where
  "num_int s = (if prefix ''0'' s then Some ''0'' else num_digits s)"

definition num_frac :: "string \<Rightarrow> string option" where
  "num_frac s =
     (case s of c # cs \<Rightarrow> if c = CHR ''.'' then map_option (Cons c) (num_digits cs) else Some [] | [] \<Rightarrow> Some [])"

definition num_exp :: "string \<Rightarrow> string option" where
  "num_exp s =
     (case s of
        c # cs \<Rightarrow>
          if c = CHR ''e'' \<or> c = CHR ''E'' then
            (case cs of
               d # ds \<Rightarrow> if d = CHR ''+'' \<or> d = CHR ''-'' then map_option (\<lambda>t. c # d # t) (num_digits ds)
                          else map_option (Cons c) (num_digits cs)
             | [] \<Rightarrow> None)
          else Some []
      | [] \<Rightarrow> Some [])"

definition parse_number :: "string \<Rightarrow> (string \<times> string) option" where
  "parse_number s =
     (let sg = (if prefix ''-'' s then ''-'' else ''''); r0 = drop (length sg) s
      in case num_int r0 of None \<Rightarrow> None
         | Some a \<Rightarrow> (let r1 = drop (length a) r0
           in case num_frac r1 of None \<Rightarrow> None
              | Some b \<Rightarrow> (let r2 = drop (length b) r1
                in case num_exp r2 of None \<Rightarrow> None
                   | Some e \<Rightarrow> Some (sg @ a @ b @ e, drop (length e) r2))))"

text \<open>\<open>lit\<close> recognises a literal name, \<open>expect\<close> a character after white space.\<close>

definition lit :: "string \<Rightarrow> json \<Rightarrow> string \<Rightarrow> (json \<times> string) option" where
  "lit name v s = (if prefix name s then Some (v, drop (length name) s) else None)"

definition expect :: "char \<Rightarrow> string \<Rightarrow> string option" where
  "expect c s = (case skip_ws s of [] \<Rightarrow> None | x # r \<Rightarrow> if x = c then Some r else None)"

text \<open>The first argument bounds the nesting of calls; the length of the text is enough.\<close>

fun parse_value :: "nat \<Rightarrow> string \<Rightarrow> (json \<times> string) option"
  and parse_elems :: "nat \<Rightarrow> string \<Rightarrow> (json list \<times> string) option"
  and parse_members :: "nat \<Rightarrow> string \<Rightarrow> ((string \<times> json) list \<times> string) option" where
  "parse_value 0 s = None"
| "parse_value (Suc k) s =
     (case skip_ws s of
        [] \<Rightarrow> None
      | c # cs \<Rightarrow>
          if c = CHR ''{'' then
            (case expect CHR ''}'' cs of
               Some r \<Rightarrow> Some (JObj [], r)
             | None \<Rightarrow> map_option (apfst JObj) (parse_members k cs))
          else if c = CHR ''['' then
            (case expect CHR '']'' cs of
               Some r \<Rightarrow> Some (JArr [], r)
             | None \<Rightarrow> map_option (apfst JArr) (parse_elems k cs))
          else if c = CHR 0x22 then map_option (apfst JStr) (str_body cs)
          else if c = CHR ''t'' then lit ''true'' (JBool True) (c # cs)
          else if c = CHR ''f'' then lit ''false'' (JBool False) (c # cs)
          else if c = CHR ''n'' then lit ''null'' JNull (c # cs)
          else map_option (apfst JNum) (parse_number (c # cs)))"
| "parse_elems 0 s = None"
| "parse_elems (Suc k) s =
     (case parse_value k s of
        None \<Rightarrow> None
      | Some (v, r) \<Rightarrow>
          (case expect CHR '','' r of
             Some r' \<Rightarrow> map_option (apfst (Cons v)) (parse_elems k r')
           | None \<Rightarrow> map_option (Pair [v]) (expect CHR '']'' r)))"
| "parse_members 0 s = None"
| "parse_members (Suc k) s =
     (case Option.bind (expect CHR 0x22 s) str_body of
        None \<Rightarrow> None
      | Some (key, s1) \<Rightarrow>
          (case Option.bind (expect CHR '':'' s1) (parse_value k) of
             None \<Rightarrow> None
           | Some (v, r) \<Rightarrow>
               (case expect CHR '','' r of
                  Some r' \<Rightarrow> map_option (apfst (Cons (key, v))) (parse_members k r')
                | None \<Rightarrow> map_option (Pair [(key, v)]) (expect CHR ''}'' r))))"

declare parse_value.simps [simp del] parse_elems.simps [simp del] parse_members.simps [simp del]

text \<open>A whole document; the decoder refuses deeper nesting.\<close>

primrec depth :: "json \<Rightarrow> nat" where
  "depth JNull = 0"
| "depth (JBool b) = 0"
| "depth (JNum n) = 0"
| "depth (JStr s) = 0"
| "depth (JArr xs) = Suc (Max (set (0 # map depth xs)))"
| "depth (JObj kvs) = Suc (Max (set (0 # map snd (map (map_prod id depth) kvs))))"

definition parse_json :: "string \<Rightarrow> json option" where
  "parse_json s =
     (case parse_value (Suc (length s)) s of
        None \<Rightarrow> None
      | Some (v, r) \<Rightarrow> if skip_ws r = [] \<and> depth v \<le> 10000 then Some v else None)"

primrec render :: "json \<Rightarrow> string" where
  "render JNull = ''null''"
| "render (JBool b) = (if b then ''true'' else ''false'')"
| "render (JNum n) = n"
| "render (JStr s) = enc_string s"
| "render (JArr xs) = CHR ''['' # join_with CHR '','' (map render xs) @ '']''"
| "render (JObj kvs) =
     CHR ''{'' # join_with CHR '','' (map (\<lambda>(k, t). enc_string k @ CHR '':'' # t) (map (map_prod id render) kvs)) @ ''}''"

section \<open>Reading a value that was written\<close>

definition num_ok :: "string \<Rightarrow> bool" where
  "num_ok n \<longleftrightarrow> parse_number n = Some (n, '''')"

primrec clean :: "json \<Rightarrow> bool" where
  "clean JNull = True"
| "clean (JBool b) = True"
| "clean (JNum n) = num_ok n"
| "clean (JStr s) = utf8_ok s"
| "clean (JArr xs) = list_all id (map clean xs)"
| "clean (JObj kvs) = list_all (\<lambda>(k, b). utf8_ok k \<and> b) (map (map_prod id clean) kvs)"

text \<open>What may follow a value: the end, a comma or a closing bracket.\<close>

definition follow :: "string \<Rightarrow> bool" where
  "follow r \<longleftrightarrow> r = [] \<or> hd r \<in> {CHR '','', CHR '']'', CHR ''}''}"

lemma skip_ws_stop [simp]: "\<not> json_space c \<Longrightarrow> skip_ws (c # s) = c # s"
  by (simp add: skip_ws_def)

lemma not_space [simp]:
  "\<not> json_space CHR '','' " "\<not> json_space CHR '']''" "\<not> json_space CHR ''}''" "\<not> json_space CHR '':''"
  "\<not> json_space CHR 0x22" "\<not> json_space CHR ''{''" "\<not> json_space CHR ''[''" "\<not> json_space CHR ''t''"
  "\<not> json_space CHR ''f''" "\<not> json_space CHR ''n''"
  by (simp_all add: json_space_def)

lemma expect_stop [simp]: "\<not> json_space x \<Longrightarrow> expect c (x # s) = (if x = c then Some s else None)"
  by (simp add: expect_def)

subsection \<open>Numbers\<close>

lemma num_digits_follow: "r = [] \<or> \<not> is_digit (hd r) \<Longrightarrow> num_digits (s @ r) = num_digits s"
  by (cases r) (auto simp: num_digits_def takeWhile_append Let_def takeWhile_eq_Nil_iff takeWhile_eq_all_conv[THEN iffD2])

lemma num_digits_length: "num_digits s = Some a \<Longrightarrow> length a \<le> length s \<and> a \<noteq> []"
  by (auto simp: num_digits_def Let_def length_takeWhile_le split: if_splits)

lemma follow_hd:
  "follow r \<Longrightarrow> r = [] \<or> \<not> is_digit (hd r) \<and> hd r \<notin> {CHR ''0'', CHR ''.'', CHR ''e'', CHR ''E'', CHR ''+'', CHR ''-''}"
  by (auto simp: follow_def is_digit_def)

lemma num_int_follow: "follow r \<Longrightarrow> num_int (s @ r) = num_int s"
  using follow_hd[of r] num_digits_follow[of r s] by (cases s; cases r) (auto simp: num_int_def)

lemma num_int_length: "num_int s = Some a \<Longrightarrow> length a \<le> length s"
  using num_digits_length by (auto simp: num_int_def dest: prefix_length_le split: if_splits)

lemma num_frac_follow: "follow r \<Longrightarrow> num_frac (s @ r) = num_frac s"
  using follow_hd[of r] num_digits_follow[of r "tl s"] by (cases s; cases r) (auto simp: num_frac_def)

lemma num_frac_length: "num_frac s = Some a \<Longrightarrow> length a \<le> length s"
  by (auto simp: num_frac_def dest: num_digits_length split: list.splits if_splits)

lemma num_exp_follow: "follow r \<Longrightarrow> num_exp (s @ r) = num_exp s"
proof -
  assume f: "follow r"
  note h = follow_hd[OF f] num_digits_follow[of r]
  show ?thesis
  proof (cases s)
    case Nil
    with h show ?thesis by (cases r) (auto simp: num_exp_def)
  next
    case (Cons c cs)
    show ?thesis
    proof (cases cs)
      case Nil
      with Cons h(1) h(2)[of "[]"] show ?thesis by (cases r) (auto simp: num_exp_def num_digits_def)
    next
      case (Cons d ds)
      with \<open>s = c # cs\<close> h(1) h(2)[of ds] h(2)[of cs] show ?thesis by (auto simp: num_exp_def)
    qed
  qed
qed

lemma num_exp_length: "num_exp s = Some a \<Longrightarrow> length a \<le> length s"
  by (auto simp: num_exp_def dest!: num_digits_length split: list.splits if_splits)

lemma parse_number_follow:
  assumes f: "follow r" and n: "parse_number n = Some (m, t)"
  shows "parse_number (n @ r) = Some (m, t @ r)"
proof -
  let ?sg = "if prefix ''-'' n then ''-'' else ''''"
  have sg: "(if prefix ''-'' (n @ r) then ''-'' else '''') = ?sg" "length ?sg \<le> length n"
    using follow_hd[OF f] by (cases n; cases r; auto)+
  define r0 where "r0 = drop (length ?sg) n"
  from n obtain a where a: "num_int r0 = Some a" by (auto simp: parse_number_def r0_def Let_def split: option.splits)
  with n obtain b where b: "num_frac (drop (length a) r0) = Some b"
    by (auto simp: parse_number_def r0_def Let_def split: option.splits)
  with n a obtain e where e: "num_exp (drop (length b) (drop (length a) r0)) = Some e"
    by (auto simp: parse_number_def r0_def Let_def split: option.splits)
  note l = num_int_length[OF a] num_frac_length[OF b] num_exp_length[OF e]
  have d: "drop (length ?sg) (n @ r) = r0 @ r" using sg(2) by (simp add: r0_def)
  have "num_int (r0 @ r) = Some a" "num_frac (drop (length a) (r0 @ r)) = Some b"
    "num_exp (drop (length b) (drop (length a) (r0 @ r))) = Some e"
    using a b e l num_int_follow[OF f] num_frac_follow[OF f] num_exp_follow[OF f] by simp_all
  with n a b e l sg d show ?thesis
    unfolding parse_number_def sg(1) d by (auto simp: Let_def r0_def split: if_splits)
qed

subsection \<open>Whole values\<close>

text \<open>How a written value starts: never with white space, a comma or a closing bracket.\<close>

definition starts_value :: "string \<Rightarrow> bool" where
  "starts_value s \<longleftrightarrow> (\<exists>c cs. s = c # cs \<and> \<not> json_space c \<and> c \<notin> {CHR '','', CHR '']'', CHR ''}''})"

lemma num_ok_hd: "num_ok n \<Longrightarrow> \<exists>c cs. n = c # cs \<and> (c = CHR ''-'' \<or> is_digit c)"
proof (cases n)
  case Nil
  assume "num_ok n"
  with Nil show ?thesis by (simp add: num_ok_def parse_number_def num_int_def num_digits_def)
next
  case (Cons c cs)
  assume "num_ok n"
  then have "c = CHR ''-'' \<or> num_int n \<noteq> None"
    by (auto simp: Cons num_ok_def parse_number_def Let_def split: if_splits option.splits)
  then have "c = CHR ''-'' \<or> is_digit c"
    by (auto simp: Cons num_int_def num_digits_def is_digit_def split: if_splits)
  with Cons show ?thesis by blast
qed

lemma digit_char_start:
  "c = CHR ''-'' \<or> is_digit c \<Longrightarrow>
   \<not> json_space c \<and> c \<notin> {CHR '','', CHR '']'', CHR ''}'', CHR ''{'', CHR ''['', CHR 0x22, CHR ''t'', CHR ''f'', CHR ''n''}"
  by (auto simp: json_space_def is_digit_def)

lemma render_starts: "clean v \<Longrightarrow> starts_value (render v @ t)"
  by (cases v) (auto simp: starts_value_def enc_string_def dest!: num_ok_hd digit_char_start)

lemma starts_value_expect: "starts_value s \<Longrightarrow> c \<in> {CHR '','', CHR '']'', CHR ''}''} \<Longrightarrow> expect c s = None"
  by (auto simp: starts_value_def)

lemma join_with_Cons: "join_with c (s # ss) = (if ss = [] then s else s @ c # join_with c ss)"
  by (cases ss) auto

text \<open>The induction over the elements of an array and the members of an object.\<close>

lemma parse_elems_render:
  assumes "\<And>x k r. x \<in> set xs \<Longrightarrow> follow r \<Longrightarrow> length (render x) < k \<Longrightarrow> parse_value k (render x @ r) = Some (x, r)"
    and "xs \<noteq> []" "length (join_with CHR '','' (map render xs)) + 1 < k"
  shows "parse_elems k (join_with CHR '','' (map render xs) @ CHR '']'' # r) = Some (xs, r)"
  using assms
proof (induction xs arbitrary: k)
  case (Cons x xs)
  obtain j where k: "k = Suc j" using Cons.prems(3) by (cases k) auto
  show ?case
  proof (cases xs)
    case Nil
    with Cons.prems(3) k Cons.prems(1)[of x "CHR '']'' # r" j] show ?thesis
      by (simp add: parse_elems.simps follow_def)
  next
    case (Cons y ys)
    let ?t = "join_with CHR '','' (map render xs) @ CHR '']'' # r"
    have "parse_value j (render x @ CHR '','' # ?t) = Some (x, CHR '','' # ?t)"
      using Cons.prems(1)[of x "CHR '','' # ?t" j] Cons.prems(3) k Cons by (simp add: follow_def join_with_Cons)
    moreover have "parse_elems j ?t = Some (xs, r)"
      using Cons.prems(1,3) k Cons by (intro Cons.IH) (auto simp: join_with_Cons)
    ultimately show ?thesis using Cons k by (simp add: parse_elems.simps join_with_Cons)
  qed
qed simp

definition member :: "string \<times> json \<Rightarrow> string" where
  "member kv = enc_string (fst kv) @ CHR '':'' # render (snd kv)"

lemma render_JObj: "render (JObj kvs) = CHR ''{'' # join_with CHR '','' (map member kvs) @ ''}''"
  by (simp add: member_def[abs_def] comp_def split_def)

lemma parse_member:
  assumes "utf8_ok (fst kv)" "parse_value k (render (snd kv) @ t) = Some (snd kv, t)"
  shows "Option.bind (expect CHR 0x22 (member kv @ t)) str_body = Some (fst kv, CHR '':'' # render (snd kv) @ t)"
    "Option.bind (expect CHR '':'' (CHR '':'' # render (snd kv) @ t)) (parse_value k) = Some (snd kv, t)"
  using assms str_body_enc[of "fst kv" "CHR '':'' # render (snd kv) @ t"] by (simp_all add: member_def enc_string_def)

lemma parse_members_render:
  assumes "\<And>x k r. x \<in> set kvs \<Longrightarrow> follow r \<Longrightarrow> length (render (snd x)) < k \<Longrightarrow>
      parse_value k (render (snd x) @ r) = Some (snd x, r)"
    and "\<And>x. x \<in> set kvs \<Longrightarrow> utf8_ok (fst x)"
    and "kvs \<noteq> []" "length (join_with CHR '','' (map member kvs)) + 1 < k"
  shows "parse_members k (join_with CHR '','' (map member kvs) @ CHR ''}'' # r) = Some (kvs, r)"
  using assms
proof (induction kvs arbitrary: k)
  case (Cons x xs)
  obtain j where k: "k = Suc j" using Cons.prems(4) by (cases k) auto
  have l: "length (render (snd x)) < j" using Cons.prems(4) k by (auto simp: join_with_Cons member_def split: if_splits)
  show ?case
  proof (cases xs)
    case Nil
    have v: "parse_value j (render (snd x) @ CHR ''}'' # r) = Some (snd x, CHR ''}'' # r)"
      using Cons.prems(1)[of x _ j] l by (simp add: follow_def)
    with Nil k parse_member[OF Cons.prems(2) v] show ?thesis by (simp add: parse_members.simps)
  next
    case (Cons y ys)
    let ?t = "join_with CHR '','' (map member xs) @ CHR ''}'' # r"
    have v: "parse_value j (render (snd x) @ CHR '','' # ?t) = Some (snd x, CHR '','' # ?t)"
      using Cons.prems(1)[of x _ j] l by (simp add: follow_def)
    have "parse_members j ?t = Some (xs, r)"
      using Cons.prems k Cons by (intro Cons.IH) (auto simp: join_with_Cons)
    with Cons k parse_member[OF Cons.prems(2) v] show ?thesis by (simp add: parse_members.simps join_with_Cons)
  qed
qed simp

lemma parse_value_render:
  "clean v \<Longrightarrow> follow r \<Longrightarrow> length (render v) < k \<Longrightarrow> parse_value k (render v @ r) = Some (v, r)"
proof (induction v arbitrary: k r)
  case (JNum n)
  then obtain j where k: "k = Suc j" by (cases k) auto
  obtain c cs where c: "n = c # cs" "c = CHR ''-'' \<or> is_digit c" using num_ok_hd[of n] JNum.prems(1) by auto
  from JNum parse_number_follow[of r n n "[]"] have "parse_number (n @ r) = Some (n, r)" by (simp add: num_ok_def)
  with c(1) k digit_char_start[OF c(2)] show ?case by (simp add: parse_value.simps)
next
  case (JStr s)
  then obtain j where k: "k = Suc j" by (cases k) auto
  with JStr show ?case by (simp add: parse_value.simps enc_string_def str_body_enc)
next
  case (JArr xs)
  then obtain j where k: "k = Suc j" by (cases k) auto
  show ?case
  proof (cases "xs = []")
    case False
    let ?t = "join_with CHR '','' (map render xs) @ CHR '']'' # r"
    have "parse_elems j ?t = Some (xs, r)"
      using JArr k False by (intro parse_elems_render) (auto simp: list_all_iff)
    moreover have "starts_value ?t"
      using False JArr.prems(1) render_starts by (cases xs) (auto simp: join_with_Cons)
    ultimately show ?thesis using k by (simp add: parse_value.simps starts_value_expect)
  qed (simp add: k parse_value.simps)
next
  case (JObj kvs)
  then obtain j where k: "k = Suc j" by (cases k) auto
  show ?case
  proof (cases "kvs = []")
    case False
    let ?t = "join_with CHR '','' (map member kvs) @ CHR ''}'' # r"
    have ok: "utf8_ok (fst x) \<and> clean (snd x)" if "x \<in> set kvs" for x
      using JObj.prems(1) that by (auto simp: list_all_iff split_def)
    have "parse_members j ?t = Some (kvs, r)"
      using JObj.prems(3) k False ok JObj.IH
      by (intro parse_members_render) (auto simp: render_JObj simp del: render.simps intro: snds.intros)
    moreover have "starts_value ?t"
      using False by (cases kvs) (auto simp: join_with_Cons starts_value_def member_def enc_string_def)
    ultimately show ?thesis using k by (simp add: render_JObj parse_value.simps starts_value_expect del: render.simps)
  qed (simp add: k parse_value.simps)
qed (auto simp: parse_value.simps lit_def gr0_conv_Suc dest!: less_imp_Suc_add)

lemma parse_render: "clean v \<Longrightarrow> depth v \<le> 10000 \<Longrightarrow> parse_json (render v) = Some v"
  using parse_value_render[of v "[]" "Suc (length (render v))"] by (simp add: parse_json_def follow_def skip_ws_def)

section \<open>What is read is well-formed\<close>

lemma utf8_rune_append: "0 < length u \<Longrightarrow> rune_len (u @ t) = length u \<Longrightarrow> utf8_ok t \<Longrightarrow> utf8_ok (u @ t)"
  by (rule utf8_ok.rune) simp_all

lemma utf8_ascii: "byte c < 128 \<Longrightarrow> utf8_ok t \<Longrightarrow> utf8_ok (c # t)"
  using utf8_rune_append[of "[c]" t] by (simp add: rune_len_ascii)

lemma rune_len_replacement: "rune_len (replacement @ t) = length replacement"
  by (simp add: rune_len_def replacement_def continues_def)

lemma div_bounds:
  "r < 2048 \<Longrightarrow> r div 64 < 32" "r < 65536 \<Longrightarrow> r div 4096 < 16" "r < 1114112 \<Longrightarrow> r div 262144 < 5" for r :: nat
  by (simp_all add: less_mult_imp_div_less)

lemma utf8_encode_2: "128 \<le> r \<Longrightarrow> r < 2048 \<Longrightarrow> rune_len (utf8_encode r @ t) = 2 \<and> length (utf8_encode r) = 2"
  using div_bounds(1)[of r] div_le_mono[of 128 r 64] by (simp add: rune_len_def utf8_encode_def continues_def Let_def)

lemma utf8_encode_3:
  assumes "2048 \<le> r" "r < 65536" "\<not> (55296 \<le> r \<and> r < 57344)"
  shows "rune_len (utf8_encode r @ t) = 3 \<and> length (utf8_encode r) = 3"
proof -
  have a: "r div 4096 < 16" using div_bounds(2)[of r] assms by simp
  have b: "32 \<le> r div 64 mod 64" if "r div 4096 = 0"
  proof -
    have "r < 4096" "32 \<le> r div 64" using that assms(1) div_le_mono[of 2048 r 64] by (simp_all add: div_eq_0_iff)
    moreover from this have "r div 64 < 64" by (simp add: less_mult_imp_div_less)
    ultimately show ?thesis by simp
  qed
  have c: "r div 64 mod 64 < 32" if "r div 4096 = 13"
  proof -
    have q: "53248 \<le> r" "r < 57344" using that mult_div_mod_eq[of 4096 r] mod_less_divisor[of 4096 r] by linarith+
    then have "r < 55296" using assms(3) by simp
    then have "r div 64 < 864" by (simp add: less_mult_imp_div_less)
    moreover have "832 \<le> r div 64" using div_le_mono[OF q(1), of 64] by simp
    ultimately have "r div 64 mod 64 = r div 64 - 832" by (simp add: mod_if le_mod_geq)
    with \<open>r div 64 < 864\<close> show ?thesis by linarith
  qed
  from a b c assms show ?thesis
    by (simp add: rune_len_def utf8_encode_def continues_def Let_def)
qed

lemma utf8_encode_4:
  assumes "65536 \<le> r" "r < 1114112"
  shows "rune_len (utf8_encode r @ t) = 4 \<and> length (utf8_encode r) = 4"
proof -
  have a: "r div 262144 < 5" using div_bounds(3) assms(2) by simp
  have b: "16 \<le> r div 4096 mod 64" if "r div 262144 = 0"
  proof -
    have "r < 262144" "16 \<le> r div 4096" using that assms(1) div_le_mono[of 65536 r 4096] by (simp_all add: div_eq_0_iff)
    moreover from this have "r div 4096 < 64" by (simp add: less_mult_imp_div_less)
    ultimately show ?thesis by simp
  qed
  have c: "r div 4096 mod 64 < 16" if "r div 262144 = 4"
  proof -
    have q: "1048576 \<le> r" using that mult_div_mod_eq[of 262144 r] by linarith
    have "r div 4096 < 272" using assms(2) by (simp add: less_mult_imp_div_less)
    moreover have "256 \<le> r div 4096" using div_le_mono[OF q, of 4096] by simp
    ultimately have "r div 4096 mod 64 = r div 4096 - 256" by (simp add: mod_if le_mod_geq)
    with \<open>r div 4096 < 272\<close> show ?thesis by linarith
  qed
  from a b c assms show ?thesis
    by (simp add: rune_len_def utf8_encode_def continues_def Let_def)
qed

lemma utf8_encode_ok:
  assumes "r < 1114112" "\<not> (55296 \<le> r \<and> r < 57344)" "utf8_ok t"
  shows "utf8_ok (utf8_encode r @ t)"
proof -
  consider "r < 128" | "128 \<le> r" "r < 2048" | "2048 \<le> r" "r < 65536" | "65536 \<le> r" by linarith
  then show ?thesis
  proof cases
    case 1
    with assms(3) show ?thesis by (simp add: utf8_encode_def utf8_ascii)
  next
    case 2
    with assms(3) utf8_encode_2[OF 2, of t] show ?thesis by (intro utf8_rune_append) auto
  next
    case 3
    with assms utf8_encode_3[OF 3, of t] show ?thesis by (intro utf8_rune_append) auto
  next
    case 4
    with assms utf8_encode_4[OF 4, of t] show ?thesis by (intro utf8_rune_append) auto
  qed
qed

lemma hex_val_less: "hex_val c = Some v \<Longrightarrow> v < 16"
  by (auto simp: hex_val_def Let_def split: if_splits)

lemma hex4_less: "hex4 s = Some v \<Longrightarrow> v < 65536"
  by (auto simp: hex4_def dest!: hex_val_less split: list.splits option.splits)

lemma replacement_ok: "utf8_ok t \<Longrightarrow> utf8_ok (replacement @ t)"
  by (intro utf8_rune_append rune_len_replacement) (simp_all add: replacement_def)

lemma unescape_utf8:
  assumes "unescape s = Some (u, n)" "utf8_ok t"
  shows "utf8_ok (u @ t)"
proof -
  obtain e r where s: "s = e # r" using assms(1) by (cases s) (auto simp: unescape_def)
  show ?thesis
  proof (cases "e = CHR ''u''")
    case True
    then obtain v where v: "hex4 r = Some v" using assms(1) by (auto simp: s unescape_def split: option.splits)
    let ?w = "if take 2 (drop 4 r) = [CHR 0x5C, CHR ''u''] then hex4 (drop 6 r) else None"
    consider (plain) "v < 55296 \<or> 57344 \<le> v" "u = utf8_encode v" | (rep) "u = replacement"
      | (pair) w where "?w = Some w" "55296 \<le> v" "v < 56320" "56320 \<le> w" "w < 57344"
          "u = utf8_encode (65536 + (v - 55296) * 1024 + (w - 56320))"
      using assms(1) v True by (auto simp: s unescape_def split: option.splits if_splits)
    then show ?thesis
    proof cases
      case plain
      with hex4_less[OF v] assms(2) show ?thesis by (auto intro: utf8_encode_ok)
    next
      case pair
      then have "65536 + (v - 55296) * 1024 + (w - 56320) < 1114112" by linarith
      with pair assms(2) show ?thesis by (auto intro: utf8_encode_ok)
    qed (use assms(2) in \<open>simp add: replacement_ok\<close>)
  next
    case False
    with assms show ?thesis by (auto simp: s unescape_def intro!: utf8_ascii split: if_splits)
  qed
qed

lemma str_body_utf8: "str_body s = Some (t, r) \<Longrightarrow> utf8_ok t"
proof (induction s arbitrary: t rule: str_body.induct)
  case (1 s)
  obtain c cs where s: "s = c # cs" using 1(4) by (cases s) (auto simp: str_body.simps)
  consider (q) "t = []" | (esc) u n t' where "c = CHR 0x5C" "unescape cs = Some (u, n)" "t = u @ t'"
      "str_body (drop n cs) = Some (t', r)"
    | (rep) t' where "c \<noteq> CHR 0x22" "c \<noteq> CHR 0x5C" "\<not> byte c < 32" "rune_len s = 0" "t = replacement @ t'"
        "str_body cs = Some (t', r)"
    | (rune) t' where "c \<noteq> CHR 0x22" "c \<noteq> CHR 0x5C" "\<not> byte c < 32" "rune_len s \<noteq> 0" "t = take (rune_len s) s @ t'"
        "str_body (drop (rune_len s) s) = Some (t', r)"
    using 1(4) by (auto simp: s str_body.simps[of "c # cs"] split: if_splits option.splits)
  then show ?case
  proof cases
    case q
    then show ?thesis by (simp add: utf8_ok.empty)
  next
    case esc
    with 1(1)[OF s] unescape_utf8 show ?thesis by auto
  next
    case rep
    with 1(2)[OF s] show ?thesis by (auto intro: replacement_ok)
  next
    case rune
    with 1(3)[OF s] rune_len_take[of s t'] rune_len_le[of s] show ?thesis
      by (auto intro!: utf8_rune_append)
  qed
qed

text \<open>The strings and keys of a value.\<close>

primrec strings_ok :: "json \<Rightarrow> bool" where
  "strings_ok JNull = True"
| "strings_ok (JBool b) = True"
| "strings_ok (JNum n) = True"
| "strings_ok (JStr s) = utf8_ok s"
| "strings_ok (JArr xs) = list_all id (map strings_ok xs)"
| "strings_ok (JObj kvs) = list_all (\<lambda>(k, b). utf8_ok k \<and> b) (map (map_prod id strings_ok) kvs)"

lemma parse_strings_ok:
  "parse_value k s = Some (v, r) \<Longrightarrow> strings_ok v"
  "parse_elems k s = Some (vs, r) \<Longrightarrow> list_all strings_ok vs"
  "parse_members k s = Some (kvs, r) \<Longrightarrow> list_all (\<lambda>kv. utf8_ok (fst kv) \<and> strings_ok (snd kv)) kvs"
proof (induction k s and k s and k s arbitrary: v r and vs r and kvs r
    rule: parse_value_parse_elems_parse_members.induct)
  case (2 k s)
  then show ?case
    by (auto simp: parse_value.simps lit_def list_all_iff split_def str_body_utf8 split: list.splits if_splits option.splits)
next
  case (4 k s)
  then show ?case by (auto simp: parse_elems.simps split: option.splits)
next
  case (6 k s)
  then show ?case
    by (fastforce simp: parse_members.simps Option.bind_eq_Some_conv str_body_utf8 split: option.splits)
qed (simp_all add: parse_value.simps parse_elems.simps parse_members.simps)

end
