(* ===== verification/Model_Listing.thy ===== *)
theory Model_Listing
  imports Json
begin

text \<open>
  The answer of a backend to \<open>GET /v1/models\<close>, as \<open>internal/vllmcli/health.go\<close> and
  \<open>internal/runtime/llamacpp.go\<close> decode it: a struct with the one field \<open>data\<close>, a slice of structs
  with the one field \<open>id\<close>. A member matches its field in any case; \<open>null\<close> leaves a struct or string as
  it was and empties a slice; a value of another kind makes the decoding fail.
\<close>

section \<open>Decoding\<close>

definition field_is :: "string \<Rightarrow> string \<Rightarrow> bool" where
  "field_is name k \<longleftrightarrow> map lower_char k = name"

text \<open>\<open>old\<close> is what the string held before.\<close>

fun id_field :: "(string \<times> json) list \<Rightarrow> string \<Rightarrow> string option" where
  "id_field [] old = Some old"
| "id_field ((k, v) # kvs) old =
     (if \<not> field_is ''id'' k then id_field kvs old
      else (case v of JStr s \<Rightarrow> id_field kvs s | JNull \<Rightarrow> id_field kvs old | _ \<Rightarrow> None))"

text \<open>
  The elements are decoded into the slots of the slice's backing array one by one; a slot that was
  used before keeps its value where the element has no \<open>id\<close>.
\<close>

fun decode_elems :: "json list \<Rightarrow> string list \<Rightarrow> string list option" where
  "decode_elems [] slots = Some []"
| "decode_elems (v # vs) slots =
     (let old = (case slots of [] \<Rightarrow> '''' | s # _ \<Rightarrow> s)
      in case (case v of JObj kvs \<Rightarrow> id_field kvs old | JNull \<Rightarrow> Some old | _ \<Rightarrow> None) of
           None \<Rightarrow> None
         | Some i \<Rightarrow> map_option (Cons i) (decode_elems vs (tl slots)))"

text \<open>A repeated \<open>data\<close> is decoded over the one before; \<open>n\<close> is the length of the slice.\<close>

fun data_field :: "(string \<times> json) list \<Rightarrow> string list \<Rightarrow> nat \<Rightarrow> string list option" where
  "data_field [] slots n = Some (take n slots)"
| "data_field ((k, v) # kvs) slots n =
     (if \<not> field_is ''data'' k then data_field kvs slots n
      else (case v of
              JNull \<Rightarrow> data_field kvs [] 0
            | JArr [] \<Rightarrow> data_field kvs [] 0
            | JArr vs \<Rightarrow>
                (case decode_elems vs slots of
                   None \<Rightarrow> None
                 | Some ids \<Rightarrow> data_field kvs (ids @ drop (length ids) slots) (length ids))
            | _ \<Rightarrow> None))"

text \<open>The decoder reads one value and leaves the rest of the body.\<close>

definition decode_models :: "string \<Rightarrow> string list option" where
  "decode_models body =
     (case parse_value (Suc (length body)) body of
        None \<Rightarrow> None
      | Some (v, rest) \<Rightarrow>
          if 10000 < depth v then None
          else (case v of JObj kvs \<Rightarrow> data_field kvs [] 0 | JNull \<Rightarrow> Some [] | _ \<Rightarrow> None))"

section \<open>What a backend lists is read back\<close>

lemma id_field_skip: "list_all (\<lambda>(k, v). \<not> field_is ''id'' k) kvs \<Longrightarrow> id_field (kvs @ rest) old = id_field rest old"
  by (induction kvs) auto

lemma data_field_skip:
  "list_all (\<lambda>(k, v). \<not> field_is ''data'' k) kvs \<Longrightarrow> data_field (kvs @ rest) slots n = data_field rest slots n"
  by (induction kvs) auto

text \<open>A model in the list, with other members before and after its \<open>id\<close>.\<close>

definition model_entry :: "(string \<times> json) list \<Rightarrow> (string \<times> json) list \<Rightarrow> string \<Rightarrow> json" where
  "model_entry before after i = JObj (before @ (''id'', JStr i) # after)"

definition without :: "string \<Rightarrow> (string \<times> json) list \<Rightarrow> bool" where
  "without name kvs \<longleftrightarrow> list_all (\<lambda>(k, v). \<not> field_is name k) kvs"

lemma field_names [simp]: "field_is ''id'' ''id''" "field_is ''data'' ''data''"
  by (simp_all add: field_is_def lower_char_def char_of_def bit_0)

lemma decode_entries:
  assumes "without ''id'' before" "without ''id'' after"
  shows "decode_elems (map (model_entry before after) ids) slots = Some ids"
proof (induction ids arbitrary: slots)
  case (Cons i ids)
  have "id_field (before @ (''id'', JStr i) # after) old = Some i" for old
    using assms id_field_skip[of before "(''id'', JStr i) # after"] id_field_skip[of after "[]"]
    by (simp add: without_def)
  with Cons.IH show ?case by (simp add: model_entry_def)
qed simp

lemma decode_page:
  assumes "without ''data'' pre" "without ''data'' post" "without ''id'' before" "without ''id'' after"
  shows "data_field (pre @ (''data'', JArr (map (model_entry before after) ids)) # post) [] 0 = Some ids"
proof -
  have rest: "data_field post slots n = Some (take n slots)" for slots n
    using assms(2) data_field_skip[of post "[]"] by (simp add: without_def)
  have "data_field ((''data'', JArr (map (model_entry before after) ids)) # post) [] 0 = Some ids"
    using decode_entries[OF assms(3,4), of ids "[]"] by (cases ids) (simp_all add: rest)
  with assms(1) show ?thesis by (simp add: data_field_skip without_def)
qed

lemma decode_rendered:
  assumes "clean (JObj kvs)" "depth (JObj kvs) \<le> 10000"
  shows "decode_models (render (JObj kvs)) = data_field kvs [] 0"
  using parse_value_render[OF assms(1), of "[]" "Suc (length (render (JObj kvs)))"] assms(2)
  by (simp add: decode_models_def follow_def del: render.simps depth.simps)

end
