(* ===== verification/Process_Manager.thy ===== *)
theory Process_Manager
  imports Runtime_Args Log_Writer Model_Listing
begin

text \<open>
  The process manager of \<open>internal/vllm/runtime.go\<close> and the readiness checks of
  \<open>internal/vllm/health.go\<close> and \<open>internal/vllmcli/health.go\<close>. Each method is a function
  of the manager and of what the environment did during the call (the operating system, the
  backend, the clock). The last section interleaves the methods with the goroutine that waits for
  the process. \<open>instance_manager\<close> is the interface the routers use.
\<close>

section \<open>State\<close>

text \<open>The error of \<open>cmd.Wait\<close>: an exit status other than 0, or anything else.\<close>

datatype wait_err = ExitError | OtherWaitError

record exit_info =
  ei_pid :: int
  ei_model :: string
  ei_runtime :: string
  ei_err :: "wait_err option"
  ei_stdout :: string
  ei_stderr :: string

record command =
  cm_bin :: string
  cm_args :: "string list"
  cm_env :: "string list"

text \<open>
  A started \<open>exec.Cmd\<close>, its wait channel and its exit channel are created together, so one number
  identifies the three.
\<close>

record manager =
  mg_port :: int
  mg_extra_env :: "(string, string) gomap"
  mg_cmd :: "(nat \<times> command) option"
  mg_pid :: int
  mg_exit_info :: "exit_info option"
  mg_stop_requested :: bool
  mg_current_model :: string
  mg_current_runtime :: string
  mg_started_at :: gotime
  mg_stdout_tail :: "tail_buffer option"
  mg_stderr_tail :: "tail_buffer option"
  mg_log :: "log_writer option"

definition NewInstanceManager :: "int \<Rightarrow> (string, string) gomap \<Rightarrow> manager" where
  "NewInstanceManager port extraEnv =
     \<lparr>mg_port = port, mg_extra_env = put_all extraEnv [], mg_cmd = None, mg_pid = 0,
      mg_exit_info = None, mg_stop_requested = False, mg_current_model = '''',
      mg_current_runtime = '''', mg_started_at = 0, mg_stdout_tail = None, mg_stderr_tail = None,
      mg_log = None\<rparr>"

definition NewManager :: "config \<Rightarrow> manager" where
  "NewManager c = NewInstanceManager (vc_port (VLLM c)) []"

definition CurrentPID :: "manager \<Rightarrow> int" where
  "CurrentPID m = mg_pid m"

definition BaseURL :: "manager \<Rightarrow> string" where
  "BaseURL m = ''http://127.0.0.1:'' @ itoa (mg_port m)"

section \<open>Starting\<close>

text \<open>What happens around a call of \<open>Start\<close>: \<open>se_pid\<close> is \<^term>\<open>None\<close> when the process
  cannot be created.\<close>

record start_env =
  se_ctx_err :: bool
  se_environ :: "string list"
  se_fs :: fs_env
  se_pid :: "int option"
  se_id :: nat
  se_now :: gotime
  se_fmt_float :: "float64 \<Rightarrow> string"
  se_exists :: "string \<Rightarrow> bool"

datatype start_error =
  StartCtxDone | AlreadyRunning int | StartConfigError config_error | ExecFailed

text \<open>The command line and environment of the process.\<close>

definition build_command :: "start_env \<Rightarrow> config \<Rightarrow> string \<Rightarrow> manager \<Rightarrow> start_error + (runtime \<times> command)" where
  "build_command env c modelName m =
     (case ResolveModel c modelName of Inl e \<Rightarrow> Inl (StartConfigError e)
      | Inr (resolvedName, mc) \<Rightarrow>
          (case runtime_for (mc_runtime mc) of Inl e \<Rightarrow> Inl (StartConfigError e)
           | Inr rt \<Rightarrow>
               (case runtime_build_args (se_fmt_float env) (se_exists env) rt c mc resolvedName (mg_port m) of
                  Inl e \<Rightarrow> Inl (StartConfigError e)
                | Inr args \<Rightarrow>
                    let (bin, binArgs) = wrapBinaryArgs (runtime_binary rt c) args
                    in Inr (rt, \<lparr>cm_bin = bin, cm_args = binArgs,
                         cm_env = BuildEnv (se_environ env) (vc_default_env (VLLM c))
                                    (mergeEnv (mc_env mc) (mg_extra_env m))\<rparr>))))"

definition open_log :: "start_env \<Rightarrow> config \<Rightarrow> string \<Rightarrow> fs \<Rightarrow> log_writer option \<times> fs" where
  "open_log env c modelName f =
     (let logPath = ResolveLogPath c modelName
      in if logPath = '''' then (None, f)
         else (case NewRotatingFileWriter (se_fs env) logPath (vc_log_max_size_mb (VLLM c)) (vc_log_max_files (VLLM c)) f of
                 (Inl _, f') \<Rightarrow> (None, f')
               | (Inr w, f') \<Rightarrow> (Some w, f')))"

text \<open>\<open>Start\<close> after its check, which it makes in a critical section of its own: build the command,
  create the process, record it.\<close>

definition launch ::
  "start_env \<Rightarrow> config \<Rightarrow> string \<Rightarrow> manager \<Rightarrow> fs \<Rightarrow> (start_error + int) \<times> manager \<times> fs" where
  "launch env c modelName m f =
     (case build_command env c modelName m of
        Inl e \<Rightarrow> (Inl e, m, f)
      | Inr (rt, cmd) \<Rightarrow>
          let (lw, f') = open_log env c modelName f
          in (case se_pid env of
                None \<Rightarrow> (Inl ExecFailed, m, f')
              | Some pid \<Rightarrow>
                  (Inr pid,
                   m\<lparr>mg_cmd := Some (se_id env, cmd), mg_pid := pid, mg_exit_info := None,
                     mg_stop_requested := False, mg_current_model := modelName,
                     mg_current_runtime := runtime_name rt, mg_started_at := se_now env,
                     mg_stderr_tail := Some (newTailBuffer (16 * 1024)),
                     mg_stdout_tail := Some (newTailBuffer (16 * 1024)), mg_log := lw\<rparr>, f')))"

definition Start ::
  "start_env \<Rightarrow> config \<Rightarrow> string \<Rightarrow> manager \<Rightarrow> fs \<Rightarrow> (start_error + int) \<times> manager \<times> fs" where
  "Start env c modelName m f =
     (if se_ctx_err env then (Inl StartCtxDone, m, f)
      else if mg_cmd m \<noteq> None then (Inl (AlreadyRunning (mg_pid m)), m, f)
      else launch env c modelName m f)"

section \<open>Waiting for the process\<close>

definition tail_text :: "tail_buffer option \<Rightarrow> string" where
  "tail_text t = (case t of None \<Rightarrow> '''' | Some b \<Rightarrow> tail_string b)"

text \<open>
  The locked part of the goroutine started by \<open>Start\<close> for process \<open>cid\<close> on runtime
  \<open>rt\<close>, after \<open>cmd.Wait\<close> returned \<open>err\<close>.
\<close>

definition reap :: "nat \<Rightarrow> string \<Rightarrow> wait_err option \<Rightarrow> manager \<Rightarrow> manager" where
  "reap cid rt err m =
     (if map_option fst (mg_cmd m) = Some cid
      then m\<lparr>mg_exit_info := Some \<lparr>ei_pid = mg_pid m, ei_model = mg_current_model m, ei_runtime = rt,
                                  ei_err = err, ei_stdout = tail_text (mg_stdout_tail m),
                                  ei_stderr = tail_text (mg_stderr_tail m)\<rparr>,
              mg_log := None, mg_cmd := None, mg_pid := 0, mg_stop_requested := False,
              mg_current_model := '''', mg_current_runtime := '''', mg_started_at := 0,
              mg_stderr_tail := None, mg_stdout_tail := None\<rparr>
      else m)"

section \<open>Stopping\<close>

definition normalizeStopWaitErr :: "wait_err option \<Rightarrow> wait_err option" where
  "normalizeStopWaitErr err =
     (case err of None \<Rightarrow> None | Some ExitError \<Rightarrow> None | Some OtherWaitError \<Rightarrow> Some OtherWaitError)"

text \<open>
  How the process answers: it exits after SIGTERM, or after SIGKILL within two seconds of the
  context's end, or its end is not observed. \<open>reaped\<close> says whether the waiting goroutine has
  already cleared the manager when \<open>Stop\<close> returns: it sends on the wait channel first.
\<close>

datatype stop_outcome = TermExit "wait_err option" | KillExit "wait_err option" | NoExit

record stop_env =
  sp_outcome :: stop_outcome
  sp_reaped :: bool

datatype stop_error = StopWaitError wait_err | StopCtxError

definition Stop :: "stop_env \<Rightarrow> manager \<Rightarrow> stop_error option \<times> manager" where
  "Stop env m =
     (case mg_cmd m of
        None \<Rightarrow> (None, m)
      | Some (cid, cmd) \<Rightarrow>
          if mg_pid m = 0 then (None, m)
          else let m1 = m\<lparr>mg_stop_requested := True\<rparr>;
                   gone = (\<lambda>e. if sp_reaped env then reap cid (mg_current_runtime m1) e m1 else m1)
               in (case sp_outcome env of
                     TermExit e \<Rightarrow> (map_option StopWaitError (normalizeStopWaitErr e), gone e)
                   | KillExit e \<Rightarrow> (None, gone e)
                   | NoExit \<Rightarrow> (Some StopCtxError, m1)))"

section \<open>Readiness\<close>

datatype poll_end = Tick | ExitSeen | CtxSeen

text \<open>One round of the polling loop: the first look at the exit channel, the answer to
  \<open>GET /health\<close> if any, and what ended the \<open>select\<close>.\<close>

record poll =
  po_exited :: bool
  po_status :: "int option"
  po_end :: poll_end

datatype health = Healthy | ProcessExited | HealthCtxDone

text \<open>\<open>WaitForHealth\<close>, over the rounds that happen; \<^term>\<open>None\<close> while it is still polling.\<close>

fun WaitForHealth :: "poll list \<Rightarrow> health option" where
  "WaitForHealth [] = None"
| "WaitForHealth (p # ps) =
     (if po_status p = Some 200 then Some Healthy
      else (case po_end p of CtxSeen \<Rightarrow> Some HealthCtxDone | _ \<Rightarrow> WaitForHealth ps))"

text \<open>\<open>WaitForHealthOrExit\<close>; without an exit channel it is \<open>WaitForHealth\<close>.\<close>

fun WaitForHealthOrExit :: "poll list \<Rightarrow> health option" where
  "WaitForHealthOrExit [] = None"
| "WaitForHealthOrExit (p # ps) =
     (if po_exited p then Some ProcessExited
      else if po_status p = Some 200 then Some Healthy
      else (case po_end p of
              Tick \<Rightarrow> WaitForHealthOrExit ps
            | ExitSeen \<Rightarrow> Some ProcessExited
            | CtxSeen \<Rightarrow> Some HealthCtxDone))"

datatype verify_error =
    NotRunning
  | ProcessExitedError exit_info
  | ExitedWhileWaiting
  | VerifyCtxDone
  | VerifyConfigError config_error
  | ModelsRequestFailed
  | ModelsStatus int
  | ModelsUndecodable
  | ModelNotListed string

text \<open>The answer to \<open>GET /v1/models\<close>: a status and what the body delivers, \<^term>\<open>None\<close> where the
  request fails.\<close>

definition VerifyModelLoaded ::
  "runtime \<Rightarrow> (int \<times> string) option \<Rightarrow> string \<Rightarrow> string \<Rightarrow> verify_error option" where
  "VerifyModelLoaded rt answer expectedID expectedPath =
     (case answer of None \<Rightarrow> Some ModelsRequestFailed
      | Some (status, body) \<Rightarrow>
          if status < 200 \<or> status \<ge> 300 then Some (ModelsStatus status)
          else (case decode_models body of None \<Rightarrow> Some ModelsUndecodable
                | Some ids \<Rightarrow> if model_loaded rt expectedID expectedPath ids then None
                              else Some (ModelNotListed expectedID)))"

record verify_env =
  ve_polls :: "poll list"
  ve_exit :: "(string \<times> wait_err option) option"
  ve_answer :: "(int \<times> string) option"

definition exited_error :: "exit_info option \<Rightarrow> verify_error \<Rightarrow> verify_error" where
  "exited_error i otherwise = (case i of None \<Rightarrow> otherwise | Some x \<Rightarrow> ProcessExitedError x)"

text \<open>What \<open>VerifyReady\<close> returns once the polling has ended; \<open>m\<close> is the manager then.\<close>

definition verify_result :: "verify_env \<Rightarrow> config \<Rightarrow> string \<Rightarrow> manager \<Rightarrow> health \<Rightarrow> verify_error option" where
  "verify_result env c expectedModel m h =
     (case h of
        ProcessExited \<Rightarrow> Some (exited_error (mg_exit_info m) ExitedWhileWaiting)
      | HealthCtxDone \<Rightarrow> Some VerifyCtxDone
      | Healthy \<Rightarrow>
          (case ResolveModel c expectedModel of
             Inl e \<Rightarrow> Some (VerifyConfigError e)
           | Inr (_, mc) \<Rightarrow>
               (case runtime_for (mc_runtime mc) of
                  Inl e \<Rightarrow> Some (VerifyConfigError e)
                | Inr rt \<Rightarrow> VerifyModelLoaded rt (ve_answer env) expectedModel (mc_path mc))))"

text \<open>
  \<^term>\<open>None\<close> while the call has not returned. \<open>ve_exit\<close> is the end of the process during the
  call, as the waiting goroutine records it.
\<close>

definition VerifyReady :: "verify_env \<Rightarrow> config \<Rightarrow> string \<Rightarrow> manager \<Rightarrow> (verify_error option \<times> manager) option" where
  "VerifyReady env c expectedModel m =
     (case mg_cmd m of
        None \<Rightarrow> Some (Some (exited_error (mg_exit_info m) NotRunning), m)
      | Some (cid, cmd) \<Rightarrow>
          if mg_pid m = 0 then Some (Some (exited_error (mg_exit_info m) NotRunning), m)
          else let m' = (case ve_exit env of None \<Rightarrow> m | Some (rt, e) \<Rightarrow> reap cid rt e m)
               in map_option (\<lambda>h. (verify_result env c expectedModel m' h, m'))
                    (WaitForHealthOrExit (ve_polls env)))"

section \<open>What each method does\<close>

lemma launch_error_frame: "launch env c n m f = (Inl e, m', f') \<Longrightarrow> m' = m"
  by (auto simp: launch_def Let_def split: sum.splits option.splits prod.splits)

lemma launch_ok:
  "launch env c n m f = (Inr pid, m', f') \<Longrightarrow>
   se_pid env = Some pid \<and> mg_pid m' = pid \<and> mg_port m' = mg_port m \<and>
   (\<exists>rt cmd. build_command env c n m = Inr (rt, cmd) \<and> mg_cmd m' = Some (se_id env, cmd))"
  by (auto simp: launch_def Let_def split: if_splits sum.splits option.splits prod.splits)

lemma Start_error_frame: "Start env c n m f = (Inl e, m', f') \<Longrightarrow> m' = m"
  by (auto simp: Start_def dest: launch_error_frame split: if_splits)

lemma Start_ok:
  "Start env c n m f = (Inr pid, m', f') \<Longrightarrow>
   mg_cmd m = None \<and> se_pid env = Some pid \<and> mg_pid m' = pid \<and> mg_port m' = mg_port m \<and>
   (\<exists>rt cmd. build_command env c n m = Inr (rt, cmd) \<and> mg_cmd m' = Some (se_id env, cmd))"
  by (cases "mg_cmd m") (auto simp: Start_def dest: launch_ok split: if_splits)

lemma Start_running: "mg_cmd m \<noteq> None \<Longrightarrow> \<exists>e. Start env c n m f = (Inl e, m, f)"
  by (simp add: Start_def)

lemma reap_pid: "map_option fst (mg_cmd m) = Some cid \<Longrightarrow> mg_pid (reap cid rt e m) = 0 \<and> mg_cmd (reap cid rt e m) = None"
  by (simp add: reap_def)

lemma reap_stale: "map_option fst (mg_cmd m) \<noteq> Some cid \<Longrightarrow> reap cid rt e m = m"
  by (simp add: reap_def)

lemma reap_port [simp]: "mg_port (reap cid rt e m) = mg_port m"
  by (simp add: reap_def)

lemma Stop_idle: "mg_cmd m = None \<Longrightarrow> Stop env m = (None, m)"
  by (simp add: Stop_def)

lemma Stop_reaped:
  "\<lbrakk>Stop env m = (None, m'); sp_reaped env; mg_cmd m = None \<longrightarrow> mg_pid m = 0\<rbrakk> \<Longrightarrow> mg_pid m' = 0"
  by (auto simp: Stop_def Let_def reap_def split: option.splits if_splits stop_outcome.splits)

lemma health_or_exit_Healthy:
  "WaitForHealthOrExit ps = Some Healthy \<Longrightarrow>
   \<exists>i < length ps. po_status (ps ! i) = Some 200 \<and> (\<forall>j \<le> i. \<not> po_exited (ps ! j))"
proof (induction ps)
  case (Cons p ps)
  show ?case
  proof (cases "po_status p = Some 200")
    case True
    with Cons.prems show ?thesis by (auto intro!: exI[of _ 0] split: if_splits)
  next
    case False
    with Cons.prems have "\<not> po_exited p" "WaitForHealthOrExit ps = Some Healthy"
      by (auto split: if_splits poll_end.splits)
    with Cons.IH obtain i where "i < length ps" "po_status (ps ! i) = Some 200" "\<forall>j \<le> i. \<not> po_exited (ps ! j)"
      by blast
    with \<open>\<not> po_exited p\<close> show ?thesis
      by (intro exI[of _ "Suc i"]) (auto simp: nth_Cons split: nat.splits)
  qed
qed simp

lemma health_or_exit_finds:
  "\<lbrakk>i < length ps; po_status (ps ! i) = Some 200; \<forall>j \<le> i. \<not> po_exited (ps ! j);
    \<forall>j < i. po_end (ps ! j) = Tick\<rbrakk> \<Longrightarrow> WaitForHealthOrExit ps = Some Healthy"
proof (induction ps arbitrary: i)
  case (Cons p ps)
  show ?case
  proof (cases i)
    case 0
    with Cons.prems show ?thesis by simp
  next
    case (Suc k)
    with Cons.prems have "\<not> po_exited p" "po_end p = Tick" by auto
    moreover have "WaitForHealthOrExit ps = Some Healthy"
      using Cons.IH[of k] Cons.prems Suc by (fastforce)
    ultimately show ?thesis by simp
  qed
qed simp

section \<open>The interface of the routers\<close>

datatype mgr_error =
  MgrStart start_error | MgrStop stop_error | MgrVerify verify_error

text \<open>The methods of \<open>InstanceManager\<close>, as a router holds them.\<close>

record 'm mgr_ops =
  op_start :: "string \<Rightarrow> 'm \<Rightarrow> (mgr_error + int) \<times> 'm"
  op_stop :: "'m \<Rightarrow> mgr_error option \<times> 'm"
  op_verify :: "string \<Rightarrow> 'm \<Rightarrow> mgr_error option \<times> 'm"
  op_pid :: "'m \<Rightarrow> int"
  op_url :: "'m \<Rightarrow> string"

text \<open>
  The laws: \<open>alive\<close> says that a backend process of this manager exists. A successful start makes
  one where there was none, a successful stop leaves none, no other call makes one, a manager
  without a process id has none, and the address never changes.
\<close>

locale instance_manager =
  fixes ops :: "'m mgr_ops"
    and alive :: "'m \<Rightarrow> bool"
    and invar :: "'m \<Rightarrow> bool"
  assumes start_ok: "\<lbrakk>invar m; op_start ops n m = (Inr p, m')\<rbrakk> \<Longrightarrow> \<not> alive m \<and> alive m' \<and> op_pid ops m' = p \<and> p \<noteq> 0"
    and start_err: "\<lbrakk>invar m; op_start ops n m = (Inl e, m')\<rbrakk> \<Longrightarrow> alive m' = alive m"
    and start_inv: "\<lbrakk>invar m; op_start ops n m = (r, m')\<rbrakk> \<Longrightarrow> invar m' \<and> op_url ops m' = op_url ops m"
    and stop_ok: "\<lbrakk>invar m; op_stop ops m = (None, m')\<rbrakk> \<Longrightarrow> \<not> alive m'"
    and stop_inv: "\<lbrakk>invar m; op_stop ops m = (rs, m')\<rbrakk> \<Longrightarrow> invar m' \<and> (alive m' \<longrightarrow> alive m) \<and> op_url ops m' = op_url ops m"
    and verify_inv: "\<lbrakk>invar m; op_verify ops n m = (rv, m')\<rbrakk> \<Longrightarrow> invar m' \<and> (alive m' \<longrightarrow> alive m) \<and> op_url ops m' = op_url ops m"
    and pid_zero: "\<lbrakk>invar m; op_pid ops m = 0\<rbrakk> \<Longrightarrow> \<not> alive m"
begin

text \<open>A start that fails, or that is verified in vain and then stopped, leaves no new process.\<close>

lemma failed_start_leaves_nothing:
  "\<lbrakk>invar m; \<not> alive m; op_start ops n m = (Inl e, m')\<rbrakk> \<Longrightarrow> \<not> alive m'"
  using start_err by blast

lemma rollback_leaves_nothing:
  "\<lbrakk>invar m; op_start ops n m = (Inr p, m1); op_verify ops n m1 = (Some e, m2); op_stop ops m2 = (None, m3)\<rbrakk>
   \<Longrightarrow> \<not> alive m3"
  using start_inv[of m n "Inr p" m1] verify_inv[of m1 n "Some e" m2] stop_ok[of m2 m3] by blast

text \<open>Replacing a process never makes two.\<close>

lemma restart_single:
  "\<lbrakk>invar m; op_stop ops m = (None, m1); op_start ops n m1 = (Inr p, m2)\<rbrakk> \<Longrightarrow> \<not> alive m1 \<and> alive m2"
  using stop_inv[of m None m1] start_ok[of m1 n p m2] by blast

end

section \<open>The process manager provides it\<close>

text \<open>
  A manager together with the environment's answers to the calls to come and with the fact whether
  its last process still exists. A list that runs out stands for calls whose context has ended.
\<close>

record proc =
  pr_mgr :: manager
  pr_fs :: fs
  pr_starts :: "start_env list"
  pr_stops :: "stop_env list"
  pr_verifies :: "verify_env list"
  pr_alive :: bool

definition proc_start :: "config \<Rightarrow> string \<Rightarrow> proc \<Rightarrow> (mgr_error + int) \<times> proc" where
  "proc_start c n p =
     (case pr_starts p of
        [] \<Rightarrow> (Inl (MgrStart StartCtxDone), p)
      | env # rest \<Rightarrow>
          (case Start env c n (pr_mgr p) (pr_fs p) of
             (Inl e, m, f) \<Rightarrow> (Inl (MgrStart e), p\<lparr>pr_mgr := m, pr_fs := f, pr_starts := rest\<rparr>)
           | (Inr pid, m, f) \<Rightarrow>
               (Inr pid, p\<lparr>pr_mgr := m, pr_fs := f, pr_starts := rest, pr_alive := True\<rparr>)))"

definition stop_ends :: "stop_env \<Rightarrow> manager \<Rightarrow> bool" where
  "stop_ends env m \<longleftrightarrow> mg_cmd m \<noteq> None \<and> mg_pid m \<noteq> 0 \<and> sp_outcome env \<noteq> NoExit"

definition proc_stop :: "proc \<Rightarrow> mgr_error option \<times> proc" where
  "proc_stop p =
     (let (env, rest) = (case pr_stops p of [] \<Rightarrow> (\<lparr>sp_outcome = NoExit, sp_reaped = False\<rparr>, []) | e # r \<Rightarrow> (e, r));
          (err, m) = Stop env (pr_mgr p)
      in (map_option MgrStop err,
          p\<lparr>pr_mgr := m, pr_stops := rest, pr_alive := (pr_alive p \<and> \<not> stop_ends env (pr_mgr p))\<rparr>))"

definition no_verify :: verify_env where
  "no_verify = \<lparr>ve_polls = [], ve_exit = None, ve_answer = None\<rparr>"

definition proc_verify :: "config \<Rightarrow> string \<Rightarrow> proc \<Rightarrow> mgr_error option \<times> proc" where
  "proc_verify c n p =
     (let (env, rest) = (case pr_verifies p of [] \<Rightarrow> (no_verify, []) | e # r \<Rightarrow> (e, r));
          (err, m) = (case VerifyReady env c n (pr_mgr p) of None \<Rightarrow> (Some VerifyCtxDone, pr_mgr p) | Some r \<Rightarrow> r)
      in (map_option MgrVerify err,
          p\<lparr>pr_mgr := m, pr_verifies := rest, pr_alive := (pr_alive p \<and> ve_exit env = None)\<rparr>))"

definition proc_ops :: "config \<Rightarrow> proc mgr_ops" where
  "proc_ops c = \<lparr>op_start = proc_start c, op_stop = proc_stop, op_verify = proc_verify c,
                 op_pid = (\<lambda>p. CurrentPID (pr_mgr p)), op_url = (\<lambda>p. BaseURL (pr_mgr p))\<rparr>"

text \<open>Process ids given by the operating system are positive; a live process is known to the manager.\<close>

definition proc_inv :: "proc \<Rightarrow> bool" where
  "proc_inv p \<longleftrightarrow>
     (\<forall>env \<in> set (pr_starts p). \<forall>pid. se_pid env = Some pid \<longrightarrow> 0 < pid) \<and>
     (pr_alive p \<longrightarrow> mg_cmd (pr_mgr p) \<noteq> None \<and> mg_pid (pr_mgr p) \<noteq> 0)"

lemma VerifyReady_mgr:
  "VerifyReady env c n m = Some (r, m') \<Longrightarrow>
   m' = m \<or> (\<exists>i rt e. ve_exit env = Some (rt, e) \<and> m' = reap i rt e m)"
  by (auto simp: VerifyReady_def Let_def split: option.splits if_splits) blast

lemma Stop_mgr:
  "Stop env m = (r, m') \<Longrightarrow> mg_port m' = mg_port m \<and>
   (\<not> stop_ends env m \<longrightarrow> mg_cmd m' = mg_cmd m \<and> mg_pid m' = mg_pid m) \<and>
   (r = None \<longrightarrow> stop_ends env m \<or> mg_cmd m = None \<or> mg_pid m = 0)"
  by (auto simp: Stop_def stop_ends_def Let_def reap_def split: option.splits if_splits stop_outcome.splits)

interpretation proc_manager: instance_manager "proc_ops c" pr_alive proc_inv for c
proof
  fix p p' :: proc and n
  assume inv: "proc_inv p"
  show "\<not> pr_alive p \<and> pr_alive p' \<and> op_pid (proc_ops c) p' = pid \<and> pid \<noteq> 0"
    if "op_start (proc_ops c) n p = (Inr pid, p')" for pid
    using that inv
    by (auto simp: proc_ops_def proc_start_def proc_inv_def CurrentPID_def split: list.splits prod.splits sum.splits
             dest!: Start_ok)
  show "pr_alive p' = pr_alive p" if "op_start (proc_ops c) n p = (Inl e, p')" for e
    using that by (auto simp: proc_ops_def proc_start_def split: list.splits prod.splits sum.splits)
  show "proc_inv p' \<and> op_url (proc_ops c) p' = op_url (proc_ops c) p"
    if "op_start (proc_ops c) n p = (r, p')" for r
    using that inv
    by (auto simp: proc_ops_def proc_start_def proc_inv_def BaseURL_def split: list.splits prod.splits sum.splits
             dest!: Start_ok Start_error_frame)
  show "\<not> pr_alive p'" if "op_stop (proc_ops c) p = (None, p')"
    using that inv
    by (auto simp: proc_ops_def proc_stop_def Let_def proc_inv_def split: list.splits prod.splits dest!: Stop_mgr)
  show "proc_inv p' \<and> (pr_alive p' \<longrightarrow> pr_alive p) \<and> op_url (proc_ops c) p' = op_url (proc_ops c) p"
    if "op_stop (proc_ops c) p = (r, p')" for r
    using that inv
    by (auto simp: proc_ops_def proc_stop_def Let_def proc_inv_def BaseURL_def split: list.splits prod.splits dest!: Stop_mgr)
  show "proc_inv p' \<and> (pr_alive p' \<longrightarrow> pr_alive p) \<and> op_url (proc_ops c) p' = op_url (proc_ops c) p"
    if "op_verify (proc_ops c) n p = (r, p')" for r
    using that inv
    by (auto simp: proc_ops_def proc_verify_def Let_def proc_inv_def BaseURL_def no_verify_def
             split: list.splits prod.splits option.splits dest!: VerifyReady_mgr)
  show "\<not> pr_alive p" if "op_pid (proc_ops c) p = 0"
    using that inv by (auto simp: proc_ops_def proc_inv_def CurrentPID_def)
qed

end
