(* ===== verification/Example_Config.thy ===== *)
theory Example_Config
  imports Process_Manager
begin

text \<open>
  One concrete configuration with a scheduler, its resolved models, and processes that start, become
  ready and stop, for the theorems that are applied at a concrete input.
\<close>

definition ex_model :: "string \<Rightarrow> string \<Rightarrow> int list \<Rightarrow> bool option \<Rightarrow> model_config" where
  "ex_model path alias gpus pinned =
     \<lparr>mc_path = path, mc_runtime = '''', mc_alias = alias, mc_gpus = gpus,
      mc_min_free_mem = (if alias = '''' then Some 8000 else None), mc_pinned = pinned,
      mc_tensor_parallel_size = None, mc_pipeline_parallel_size = None, mc_max_model_len = None,
      mc_gpu_memory_utilization = None, mc_dtype = '''', mc_quantization = '''', mc_extra_args = [],
      mc_env = [], mc_power_limit = None, mc_power_limits = None, mc_log_file = ''''\<rparr>"

lemma ex_model_sel [simp]:
  "mc_path (ex_model path al gpus pinned) = path" "mc_runtime (ex_model path al gpus pinned) = ''''"
  "mc_alias (ex_model path al gpus pinned) = al" "mc_gpus (ex_model path al gpus pinned) = gpus"
  "mc_min_free_mem (ex_model path al gpus pinned) = (if al = '''' then Some 8000 else None)"
  "mc_pinned (ex_model path al gpus pinned) = pinned" "mc_env (ex_model path al gpus pinned) = []"
  "mc_gpu_memory_utilization (ex_model path al gpus pinned) = None"
  "mc_power_limit (ex_model path al gpus pinned) = None" "mc_power_limits (ex_model path al gpus pinned) = None"
  "mc_log_file (ex_model path al gpus pinned) = ''''"
  by (simp_all add: ex_model_def)

definition ex_models :: "(string, model_config) gomap" where
  "ex_models =
     [(''a'', ex_model ''org/a'' '''' [0] None),
      (''b'', ex_model ''org/b'' '''' [0, 1] None),
      (''c'', ex_model ''org/c'' '''' [1] None),
      (''p'', ex_model ''org/p'' '''' [2] (Some True)),
      (''alias'', ex_model '''' ''a'' [] None)]"

definition ex_config :: config where
  "ex_config =
     \<lparr>Server = \<lparr>srv_host = ''127.0.0.1'', srv_port = 8080, srv_read_timeout = 30 * second,
                srv_write_timeout = 300 * second, srv_log_requests = Some True, srv_api_key = ''s3cret'',
                srv_api_key_set = True\<rparr>,
      VLLM = \<lparr>vc_port = 8000, vc_binary = ''vllm'', vc_startup_timeout = 300 * second,
              vc_shutdown_timeout = 30 * second, vc_drain_timeout = 60 * second,
              vc_swap_cooldown = 30 * second, vc_swap_wait_timeout = 60 * second,
              vc_defaults = \<lparr>vd_gpu_memory_utilization = None, vd_dtype = '''', vd_max_model_len = None\<rparr>,
              vc_default_env = [], vc_log_dir = '''', vc_log_max_size_mb = 50, vc_log_max_files = 5\<rparr>,
      Behavior = \<lparr>bc_default_model = ''a'', bc_rewrite_model_name = True\<rparr>,
      SchedulerCfg = Some \<lparr>sc_nvidia_smi_binary = ''nvidia-smi'', sc_port_range_start = 9001,
                           sc_port_range_end = 9003, sc_max_instances = Some 3,
                           sc_min_instance_uptime = Some (30 * second)\<rparr>,
      LlamaCpp = None, Models = ex_models, GPUPowerLimits = None, DefaultPowerLimit = None,
      PowerLimitRequired = False\<rparr>"

lemma ex_config_sel [simp]:
  "Models ex_config = ex_models" "LlamaCpp ex_config = None" "GPUPowerLimits ex_config = None"
  "DefaultPowerLimit ex_config = None" "vc_default_env (VLLM ex_config) = []"
  "SchedulerCfg ex_config = Some \<lparr>sc_nvidia_smi_binary = ''nvidia-smi'', sc_port_range_start = 9001,
     sc_port_range_end = 9003, sc_max_instances = Some 3, sc_min_instance_uptime = Some (30 * second)\<rparr>"
  "vc_swap_cooldown (VLLM ex_config) = 30 * second"
  by (simp_all add: ex_config_def)

lemma ex_resolve [simp]:
  "ResolveModel ex_config ''a'' = Inr (''a'', ex_model ''org/a'' '''' [0] None)"
  "ResolveModel ex_config ''b'' = Inr (''b'', ex_model ''org/b'' '''' [0, 1] None)"
  "ResolveModel ex_config ''c'' = Inr (''c'', ex_model ''org/c'' '''' [1] None)"
  "ResolveModel ex_config ''p'' = Inr (''p'', ex_model ''org/p'' '''' [2] (Some True))"
  "ResolveModel ex_config ''alias'' = Inr (''a'', ex_model ''org/a'' '''' [0] None)"
  "ResolveModel ex_config ''none'' = Inl (ModelNotFound ''none'')"
  by (simp_all add: ResolveModel_def ex_models_def)

lemma ex_models_ok: "gomap_ok (Models ex_config)"
  by (simp add: ex_models_def gomap_ok_def)

section \<open>Processes\<close>

definition ex_fs_env :: fs_env where
  "ex_fs_env = \<lparr>can_mkdir = True, can_open = True, can_remove = (\<lambda>_. True), can_rename = (\<lambda>_. True),
                written = (\<lambda>n. n)\<rparr>"

definition ex_start :: "nat \<Rightarrow> int option \<Rightarrow> start_env" where
  "ex_start i pid =
     \<lparr>se_ctx_err = False, se_environ = [''HOME=/root''], se_fs = ex_fs_env, se_pid = pid, se_id = i,
      se_now = 1000 * second, se_fmt_float = (\<lambda>_. ''0.9''), se_exists = (\<lambda>_. False)\<rparr>"

definition models_page :: "string list \<Rightarrow> json" where
  "models_page ids =
     JObj [(''object'', JStr ''list''), (''data'', JArr (map (model_entry [] [(''object'', JStr ''model'')]) ids))]"

lemma ascii_ok: "list_all (\<lambda>c. byte c < 128) s \<Longrightarrow> utf8_ok s"
  by (induction s) (simp_all add: utf8_ok.empty utf8_ascii)

lemma decode_models_page: "list_all utf8_ok ids \<Longrightarrow> decode_models (render (models_page ids)) = Some ids"
proof -
  assume ids: "list_all utf8_ok ids"
  let ?m = "map (model_entry [] [(''object'', JStr ''model'')]) ids"
  have p: "models_page ids = JObj ([(''object'', JStr ''list'')] @ (''data'', JArr ?m) # [])"
    by (simp add: models_page_def)
  have "clean (models_page ids)" using ids by (auto simp: models_page_def model_entry_def list_all_iff ascii_ok)
  moreover have "depth (models_page ids) \<le> 10000" by (auto simp: models_page_def model_entry_def)
  ultimately have "decode_models (render (models_page ids)) =
      data_field ([(''object'', JStr ''list'')] @ (''data'', JArr ?m) # []) [] 0"
    unfolding p by (rule decode_rendered)
  also have "\<dots> = Some ids"
    by (rule decode_page) (simp_all add: without_def field_is_def lower_char_def char_of_def bit_0)
  finally show ?thesis .
qed

definition ex_ready :: "string \<Rightarrow> verify_env" where
  "ex_ready path = \<lparr>ve_polls = [\<lparr>po_exited = False, po_status = Some 200, po_end = Tick\<rparr>], ve_exit = None,
                     ve_answer = Some (200, render (models_page [path]))\<rparr>"

definition ex_stopped :: stop_env where
  "ex_stopped = \<lparr>sp_outcome = TermExit (Some ExitError), sp_reaped = True\<rparr>"

definition ex_hangs :: stop_env where
  "ex_hangs = \<lparr>sp_outcome = NoExit, sp_reaped = False\<rparr>"

definition ex_proc :: "int \<Rightarrow> start_env list \<Rightarrow> stop_env list \<Rightarrow> verify_env list \<Rightarrow> proc" where
  "ex_proc port starts stops verifies =
     \<lparr>pr_mgr = NewInstanceManager port [], pr_fs = [], pr_starts = starts, pr_stops = stops,
      pr_verifies = verifies, pr_alive = False\<rparr>"

lemma ex_command_build:
  "\<exists>rt cmd. build_command (ex_start i pid) ex_config n m = Inr (rt, cmd)" if "n \<in> {''a'', ''b'', ''c'', ''p''}"
  using that by (auto simp: build_command_def ex_model_def runtime_for_def BuildServeArgsForPort_def
    Let_def split: prod.split)


lemma ex_log_path: "ResolveLogPath ex_config n = ''''" if "n \<in> {''a'', ''b'', ''c'', ''p''}"
  using that by (auto simp: ResolveLogPath_def ex_models_def ex_model_def ex_config_def)

definition ex_started :: "nat \<Rightarrow> int \<Rightarrow> string \<Rightarrow> manager \<Rightarrow> manager" where
  "ex_started i pid n m =
     m\<lparr>mg_cmd := Some (i, snd (projr (build_command (ex_start i (Some pid)) ex_config n m))), mg_pid := pid,
       mg_exit_info := None, mg_stop_requested := False, mg_current_model := n,
       mg_current_runtime := RuntimeVLLM, mg_started_at := 1000 * second,
       mg_stderr_tail := Some (newTailBuffer (16 * 1024)),
       mg_stdout_tail := Some (newTailBuffer (16 * 1024)), mg_log := None\<rparr>"

lemma ex_command_vllm:
  "build_command (ex_start i pid) ex_config n m = Inr (rt, cmd) \<Longrightarrow> n \<in> {''a'', ''b'', ''c'', ''p''} \<Longrightarrow> rt = VllmRuntime"
  by (auto simp: build_command_def ex_model_def runtime_for_def BuildServeArgsForPort_def Let_def split: prod.splits)

lemma ex_launch:
  assumes n: "n \<in> {''a'', ''b'', ''c'', ''p''}"
  shows "launch (ex_start i (Some pid)) ex_config n m f = (Inr pid, ex_started i pid n m, f)"
proof -
  obtain rt cmd where b: "build_command (ex_start i (Some pid)) ex_config n m = Inr (rt, cmd)"
    using ex_command_build[OF n] by blast
  with ex_command_vllm[OF b n] show ?thesis
    by (simp add: launch_def open_log_def ex_log_path[OF n] ex_started_def ex_start_def)
qed

lemma ex_launch_fails:
  assumes n: "n \<in> {''a'', ''b'', ''c'', ''p''}"
  shows "launch (ex_start i None) ex_config n m f = (Inl ExecFailed, m, f)"
proof -
  obtain rt cmd where b: "build_command (ex_start i None) ex_config n m = Inr (rt, cmd)"
    using ex_command_build[OF n] by blast
  then show ?thesis by (simp add: launch_def open_log_def ex_log_path[OF n]) (simp add: ex_start_def)
qed

lemma ex_started_sel [simp]:
  "mg_cmd (ex_started i pid n m) = Some (i, snd (projr (build_command (ex_start i (Some pid)) ex_config n m)))"
  "mg_pid (ex_started i pid n m) = pid" "mg_port (ex_started i pid n m) = mg_port m"
  "mg_current_model (ex_started i pid n m) = n"
  by (simp_all add: ex_started_def)


text \<open>A process of the example that runs, and one that has exited on its own.\<close>

definition ex_live :: "string \<Rightarrow> int \<Rightarrow> string \<Rightarrow> stop_env list \<Rightarrow> proc" where
  "ex_live n port cuda stops =
     \<lparr>pr_mgr = ex_started 0 41 n (NewInstanceManager port [(cuda_env, cuda)]), pr_fs = [], pr_starts = [],
      pr_stops = stops, pr_verifies = [], pr_alive = True\<rparr>"

definition ex_exited :: "int \<Rightarrow> string \<Rightarrow> proc" where
  "ex_exited port cuda =
     \<lparr>pr_mgr = NewInstanceManager port [(cuda_env, cuda)], pr_fs = [], pr_starts = [], pr_stops = [],
      pr_verifies = [], pr_alive = False\<rparr>"

lemma ex_proc_sel [simp]:
  "CurrentPID (pr_mgr (ex_live n port cuda stops)) = 41" "pr_alive (ex_live n port cuda stops)"
  "pr_stops (ex_live n port cuda stops) = stops" "CurrentPID (pr_mgr (ex_exited port cuda)) = 0"
  "\<not> pr_alive (ex_exited port cuda)" "proc_inv (ex_live n port cuda stops)" "proc_inv (ex_exited port cuda)"
  by (simp_all add: ex_live_def ex_exited_def CurrentPID_def NewInstanceManager_def proc_inv_def)

end
