(* ===== verification/Config_Properties.thy ===== *)
theory Config_Properties
  imports Example_Config
begin

text \<open>
  The properties of the configuration, of alias resolution, and of the command lines and
  environments built from it.
\<close>

section \<open>Validation and resolution\<close>

lemma ex_model_cases:
  assumes "map_of ex_models n = Some m"
  obtains p gpus pinned where "m = ex_model p '''' gpus pinned" "p \<noteq> ''''" "gpus \<in> {[0], [0, 1], [1], [2]}"
    | "m = ex_model '''' ''a'' [] None"
  using assms by (auto simp: ex_models_def split: if_splits)

lemma ex_model_ok: "map_of ex_models n = Some m \<Longrightarrow> model_ok ex_config m"
proof (erule ex_model_cases)
  show "m = ex_model '''' ''a'' [] None \<Longrightarrow> model_ok ex_config m"
    by (simp add: model_ok_def runtime_ok_def alias_ok_def model_power_ok_def map_entries_def util_out_of_range_def)
       (simp add: ex_models_def)
qed (simp add: model_ok_def runtime_ok_def alias_ok_def model_power_ok_def map_entries_def util_out_of_range_def)

lemma ex_model_scheduled:
  "map_of ex_models n = Some m \<Longrightarrow>
   map_of (mc_env m) cuda_env = None \<and> (mc_alias m = '''' \<longrightarrow> scheduled_model_ok m)"
  by (erule ex_model_cases) (auto simp: scheduled_model_ok_def)

lemma ex_config_ok: "config_ok ex_config"
proof -
  have key: "trim_space ''s3cret'' = ''s3cret''" by (rule trim_space_visible) (simp_all add: visible_def)
  have "scheduler_ok ex_config sc" if "SchedulerCfg ex_config = Some sc" for sc
    using that ex_model_scheduled by (auto simp: scheduler_ok_def port_ok_def)
  moreover have "power_ok ex_config" by (simp add: power_ok_def map_entries_def)
  moreover have "map_of ex_models ''a'' \<noteq> None" "ex_models \<noteq> []" by (simp_all add: ex_models_def)
  ultimately show ?thesis
    using key ex_model_ok unfolding config_ok_def by (simp add: port_ok_def ex_config_def)
qed

text \<open>
  C4. \<open>Validate\<close> accepts a configuration exactly when the declarative contract holds: ports in
  range, runtimes known and usable, scheduler fields complete, GPU lists without negatives or
  duplicates, power limits positive and exclusive, aliases one step long to an existing model.
\<close>

theorem Validate_decides_contract:
  "gomap_ok (Models c) \<Longrightarrow> Validate c = None \<longleftrightarrow> config_ok c"
  by (rule Validate_None_iff)

lemma Validate_decides_contract_witness: "Validate ex_config = None"
  using Validate_decides_contract[OF ex_models_ok] ex_config_ok by blast

text \<open>
  The verdict does not depend on the order in which Go happens to iterate over the model map:
  any reordering of its entries is accepted exactly when the original is.
\<close>

theorem Validate_order_independent:
  assumes "gomap_ok (Models c)" "gomap_ok ms" "set ms = set (Models c)"
  shows "Validate (c\<lparr>Models := ms\<rparr>) = None \<longleftrightarrow> Validate c = None"
proof -
  have m: "map_of ms = map_of (Models c)"
    using assms by (simp add: gomap_ok_def map_of_inject_set)
  have "ms = [] \<longleftrightarrow> Models c = []" using assms(3) by auto
  then have "config_ok (c\<lparr>Models := ms\<rparr>) \<longleftrightarrow> config_ok c"
    by (simp add: config_ok_def m scheduler_ok_def model_ok_def runtime_ok_def alias_ok_def power_ok_def)
  with assms(1,2) show ?thesis by (simp add: Validate_None_iff)
qed

lemma Validate_order_independent_witness:
  "Validate (ex_config\<lparr>Models := rev ex_models\<rparr>) = None"
  using Validate_order_independent[OF ex_models_ok, of "rev ex_models"] ex_models_ok ex_config_ok
  by (simp add: Validate_None_iff gomap_ok_def rev_map[symmetric])

lemma Load_ok:
  assumes "\<And>d c. decode d = Inr c \<Longrightarrow> gomap_ok (Models c)" "Load raw decode d = Inr c"
  shows "config_ok c" "serverAPIKeyPresent raw d = Inr k \<Longrightarrow> srv_api_key_set (Server c) = k"
proof -
  from assms(2) obtain c0 k0 where c0: "decode d = Inr c0" "serverAPIKeyPresent raw d = Inr k0"
    and c: "c = applyDefaults (c0\<lparr>Server := (Server c0)\<lparr>srv_api_key_set := k0\<rparr>\<rparr>)" and v: "Validate c = None"
    by (auto simp: Load_def Let_def split: sum.splits option.splits)
  have "gomap_ok (Models c)" using assms(1)[OF c0(1)] by (simp add: c applyDefaults_def)
  with v show "config_ok c" by (simp add: Validate_None_iff)
  show "srv_api_key_set (Server c) = k" if "serverAPIKeyPresent raw d = Inr k"
    using that c0(2) by (simp add: c applyDefaults_def default_server_def)
qed

lemma load_key:
  assumes "\<And>d c. decode d = Inr c \<Longrightarrow> gomap_ok (Models c)" "Load raw decode d = Inr c" "serverAPIKeyPresent raw d = Inr True"
  shows "trim_space (srv_api_key (Server c)) \<noteq> ''''"
  using Load_ok(1)[OF assms(1,2)] Load_ok(2)[OF assms(1-3)] by (simp add: config_ok_def)

lemma applyDefaults_idem: "applyDefaults (applyDefaults c) = applyDefaults c"
  by (cases "SchedulerCfg c")
     (simp_all add: applyDefaults_def default_server_def default_vllm_def default_scheduler_def)

text \<open>
  C15. Whatever the YAML decoder returns, a configuration that \<open>Load\<close> returns satisfies the
  contract, has every default filled in, and carries the flag of the first decoding pass, so a
  present but blank API key is refused.
\<close>

theorem Load_establishes_contract:
  assumes "\<And>d c. decode d = Inr c \<Longrightarrow> gomap_ok (Models c)" "Load raw decode d = Inr c"
  shows "config_ok c \<and> applyDefaults c = c \<and> serverAPIKeyPresent raw d = Inr (srv_api_key_set (Server c)) \<and>
         (srv_api_key_set (Server c) \<longrightarrow> trim_space (srv_api_key (Server c)) \<noteq> '''')"
proof -
  from assms(2) obtain k where k: "serverAPIKeyPresent raw d = Inr k" and d: "applyDefaults c = c"
    by (auto simp: Load_def Let_def applyDefaults_idem split: sum.splits option.splits)
  from Load_ok(1)[OF assms] Load_ok(2)[OF assms k] k d show ?thesis by (auto simp: config_ok_def)
qed

lemma ex_config_defaults: "applyDefaults ex_config = ex_config"
  by (simp add: applyDefaults_def default_server_def default_vllm_def default_scheduler_def ex_config_def dflt_def
      second_def)

lemma ex_key_present: "serverAPIKeyPresent (\<lambda>d. Inr [''api_key'']) d = Inr True"
  by (simp add: serverAPIKeyPresent_def)

lemma ex_load: "Load (\<lambda>d. Inr [''api_key'']) (\<lambda>d. Inr ex_config) d = Inr ex_config"
proof -
  have "ex_config\<lparr>Server := (Server ex_config)\<lparr>srv_api_key_set := True\<rparr>\<rparr> = ex_config" by (simp add: ex_config_def)
  moreover have "Validate ex_config = None" using ex_config_ok Validate_None_iff[OF ex_models_ok] by blast
  ultimately show ?thesis using ex_config_defaults by (simp add: Load_def ex_key_present)
qed

lemma Load_establishes_contract_witness: "config_ok ex_config \<and> applyDefaults ex_config = ex_config"
  using Load_establishes_contract[of "\<lambda>d. Inr ex_config" "\<lambda>d. Inr [''api_key'']" "()" ex_config] ex_load[of "()"] ex_models_ok by auto

text \<open>Where a chain of aliases ends, by following it from the name.\<close>

definition chain_end :: "(string, model_config) gomap \<Rightarrow> string \<Rightarrow> config_error + nat \<Rightarrow> bool" where
  "chain_end ms name r \<longleftrightarrow>
     (case r of
        Inr s \<Rightarrow> s \<le> length ms \<and> alias_of ms ((alias_of ms ^^ s) name) = ''''
      | Inl e \<Rightarrow> \<exists>i \<le> length ms. \<exists>j \<le> i. \<exists>x. (alias_of ms ^^ Suc i) name = x \<and> x \<noteq> '''' \<and>
          (e = AliasLoop name x \<and> (alias_of ms ^^ j) name = x \<or> e = AliasUnknown name x \<and> map_of ms x = None))"

lemma chain_end_error:
  assumes "i \<le> length ms" "j \<le> i" "(alias_of ms ^^ Suc i) name = x" "x \<noteq> ''''"
    "e = AliasLoop name x \<and> (alias_of ms ^^ j) name = x \<or> e = AliasUnknown name x \<and> map_of ms x = None"
  shows "chain_end ms name (Inl e)"
  using assms unfolding chain_end_def sum.case by blast

lemma alias_walk_chain:
  assumes "cur = (alias_of ms ^^ k) name" "set seen = (\<lambda>i. (alias_of ms ^^ i) name) ` {..k}"
    "inj_on (\<lambda>i. (alias_of ms ^^ i) name) {..k}" "set seen \<subseteq> fst ` set ms"
  shows "chain_end ms name (alias_walk ms name cur seen k)"
  using assms
proof (induction ms name cur seen k rule: alias_walk.induct)
  case (1 ms name cur seen k)
  let ?f = "\<lambda>i. (alias_of ms ^^ i) name" and ?n = "alias_of ms cur"
  have n: "?n = ?f (Suc k)" using "1.prems"(1) by simp
  have "card (set seen) = Suc k" using "1.prems"(2,3) by (simp add: card_image)
  moreover have "card (set seen) \<le> card (fst ` set ms)" using "1.prems"(4) by (simp add: card_mono)
  moreover have "card (fst ` set ms) \<le> length ms" by (metis card_image_le card_length finite_set le_trans)
  ultimately have k: "Suc k \<le> length ms" by linarith
  consider "?n = ''''" | "?n \<noteq> ''''" "?n \<in> set seen" | "?n \<noteq> ''''" "?n \<notin> set seen" "map_of ms ?n = None"
    | nm where "?n \<noteq> ''''" "?n \<notin> set seen" "map_of ms ?n = Some nm" "mc_alias nm = ''''"
    | nm where "?n \<noteq> ''''" "?n \<notin> set seen" "map_of ms ?n = Some nm" "mc_alias nm \<noteq> ''''"
    by (cases "map_of ms ?n") auto
  then show ?case
  proof cases
    case 1
    then have "alias_walk ms name cur seen k = Inr k" by (simp add: alias_walk.simps[of ms name cur])
    with 1 k "1.prems"(1) show ?thesis by (simp add: chain_end_def)
  next
    case 2
    then obtain j where "j \<le> k" "?f j = ?n" using "1.prems"(2) by auto
    moreover have "alias_walk ms name cur seen k = Inl (AliasLoop name ?n)"
      using 2 by (simp add: alias_walk.simps[of ms name cur])
    ultimately show ?thesis
      using 2(1) k chain_end_error[OF _ _ n[symmetric]] by simp
  next
    case 3
    then have "alias_walk ms name cur seen k = Inl (AliasUnknown name ?n)"
      by (simp add: alias_walk.simps[of ms name cur])
    with 3 k chain_end_error[OF _ le_refl n[symmetric]] show ?thesis by simp
  next
    case (4 nm)
    then have "alias_of ms (?f (Suc k)) = ''''" by (simp add: n[symmetric] alias_of_def del: funpow.simps)
    moreover have "alias_walk ms name cur seen k = Inr (Suc k)" using 4 by (simp add: alias_walk.simps[of ms name cur])
    ultimately show ?thesis using k by (simp add: chain_end_def)
  next
    case (5 nm)
    have "inj_on ?f {..Suc k}"
      using "1.prems"(2,3) 5(2) n by (simp add: atMost_Suc del: funpow.simps)
    moreover have "set (?n # seen) = ?f ` {..Suc k}" using "1.prems"(2) n by (simp add: atMost_Suc del: funpow.simps)
    moreover have "set (?n # seen) \<subseteq> fst ` set ms" using 5(3) "1.prems"(4) by (simp add: gomap_key_iff)
    ultimately have "chain_end ms name (alias_walk ms name ?n (?n # seen) (Suc k))"
      using "1.IH"[OF refl 5(1,2,3,4) n] by blast
    moreover have "alias_walk ms name cur seen k = alias_walk ms name ?n (?n # seen) (Suc k)"
      using 5 by (simp add: alias_walk.simps[of ms name cur] Let_def)
    ultimately show ?thesis by simp
  qed
qed

text \<open>
  C24. The alias loop of the validation ends on every configuration, cyclic ones included: after at most
  as many steps as there are models it stops where the chain of aliases from the name stops, and its
  verdict says how: at a model that is no alias, at a name seen before, or at a name that is unknown.
\<close>

theorem alias_walk_ends:
  assumes "map_of ms name \<noteq> None"
  shows "chain_end ms name (alias_walk ms name name [name] 0)"
  using assms by (intro alias_walk_chain) (simp_all add: gomap_key_iff)

lemma alias_walk_ends_witness:
  "chain_end ex_models ''alias'' (alias_walk ex_models ''alias'' ''alias'' [''alias''] 0)"
  by (rule alias_walk_ends) (simp add: ex_models_def)



section \<open>Command lines and environments\<close>



text \<open>The value a list of \<open>KEY=VALUE\<close> entries gives a variable: its last entry counts.\<close>

definition inherited :: "string list \<Rightarrow> string \<Rightarrow> string option" where
  "inherited base k = map_of (rev (List.map_filter (cut_at CHR ''='') base)) k"

text \<open>
  A backend's environment has one entry per variable: the instance's own settings win over the
  model's, those over the configured defaults, and those over the inherited environment. In
  particular the scheduler's \<open>CUDA_VISIBLE_DEVICES\<close> reaches the process unchanged.
\<close>

theorem backend_environment_priority:
  assumes "gomap_ok defaults" "gomap_ok model" "gomap_ok overrides"
  shows "BuildEnv base defaults (mergeEnv model overrides) =
           map (\<lambda>(k, v). k @ CHR ''='' # v) (env_map base defaults (mergeEnv model overrides)) \<and>
         distinct (keys (env_map base defaults (mergeEnv model overrides))) \<and>
         map_of (env_map base defaults (mergeEnv model overrides)) k =
           (case map_of overrides k of Some v \<Rightarrow> Some v
            | None \<Rightarrow> (case map_of model k of Some v \<Rightarrow> Some v
            | None \<Rightarrow> (case map_of defaults k of Some v \<Rightarrow> Some v
            | None \<Rightarrow> inherited base k)))"
proof (intro conjI)
  show "distinct (keys (env_map base defaults (mergeEnv model overrides)))"
    using env_map_ok by (simp add: gomap_ok_def)
  show "map_of (env_map base defaults (mergeEnv model overrides)) k =
           (case map_of overrides k of Some v \<Rightarrow> Some v
            | None \<Rightarrow> (case map_of model k of Some v \<Rightarrow> Some v
            | None \<Rightarrow> (case map_of defaults k of Some v \<Rightarrow> Some v
            | None \<Rightarrow> inherited base k)))"
    using put_all_lookup[OF mergeEnv_ok[of model overrides]] put_all_lookup[OF assms(1)]
      mergeEnv_lookup[OF assms(2,3)] put_all_rev[of "List.map_filter (cut_at CHR ''='') base" "[]" k]
    by (simp add: env_map_def inherited_def split: option.split)
qed (simp add: BuildEnv_def)

lemma backend_environment_priority_witness:
  "map_of (env_map [''A=1'', ''CUDA_VISIBLE_DEVICES=7''] [(''A'', ''2'')] (mergeEnv [] [(cuda_env, ''0,1'')])) cuda_env = Some ''0,1''"
  using backend_environment_priority[of "[(''A'', ''2'')]" "[]" "[(cuda_env, ''0,1'')]"
      "[''A=1'', ''CUDA_VISIBLE_DEVICES=7'']" cuda_env]
  by (simp add: gomap_ok_def)

end
