(* ===== verification/Ports.thy ===== *)
theory Ports
  imports Prelude
begin

text \<open>
  The port pool of \<open>internal/ports/pool.go\<close>: a range of ports and the set of those in use.
  Each method runs under the pool's mutex, so it is one function on the pool. The locale
  \<open>port_source\<close> is what the scheduler relies on; the pool is its instance.
\<close>

section \<open>The pool\<close>

record pool =
  p_start :: int
  p_end :: int
  p_used :: "(int, bool) gomap"

definition new_pool :: "int \<Rightarrow> int \<Rightarrow> pool" where
  "new_pool s e = \<lparr>p_start = s, p_end = e, p_used = []\<rparr>"

text \<open>\<open>p.used[port]\<close>: false for a missing key.\<close>

definition is_used :: "(int, bool) gomap \<Rightarrow> int \<Rightarrow> bool" where
  "is_used u port = (map_of u port = Some True)"

text \<open>The loop of \<open>Acquire\<close>, from \<open>port\<close> to the end of the range.\<close>

function acquire_from :: "(int, bool) gomap \<Rightarrow> int \<Rightarrow> int \<Rightarrow> int option" where
  "acquire_from u e port =
     (if port \<le> e then (if \<not> is_used u port then Some port else acquire_from u e (port + 1)) else None)"
  by pat_completeness auto
termination
  by (relation "measure (\<lambda>(u, e, port). nat (e + 1 - port))") auto

declare acquire_from.simps [simp del]

definition Acquire :: "pool \<Rightarrow> (int \<times> bool) \<times> pool" where
  "Acquire p =
     (case acquire_from (p_used p) (p_end p) (p_start p) of
        None \<Rightarrow> ((0, False), p)
      | Some port \<Rightarrow> ((port, True), p\<lparr>p_used := AList.update port True (p_used p)\<rparr>))"

definition Release :: "int \<Rightarrow> pool \<Rightarrow> pool" where
  "Release port p = p\<lparr>p_used := AList.delete port (p_used p)\<rparr>"

definition AvailableForTest :: "pool \<Rightarrow> int" where
  "AvailableForTest p = p_end p - p_start p + 1 - int (length (p_used p))"

text \<open>The invariant: a map without duplicate keys, all of them in the range and marked.\<close>

definition pool_inv :: "pool \<Rightarrow> bool" where
  "pool_inv p \<longleftrightarrow>
     gomap_ok (p_used p) \<and> (\<forall>port. map_of (p_used p) port \<noteq> Some False) \<and>
     (\<forall>port. is_used (p_used p) port \<longrightarrow> p_start p \<le> port \<and> port \<le> p_end p)"

definition pool_range :: "pool \<Rightarrow> int set" where
  "pool_range p = {p_start p..p_end p}"

definition pool_held :: "pool \<Rightarrow> int set" where
  "pool_held p = {port. is_used (p_used p) port}"

section \<open>What a client of the pool relies on\<close>

locale port_source =
  fixes acquire :: "'p \<Rightarrow> (int \<times> bool) \<times> 'p"
    and release :: "int \<Rightarrow> 'p \<Rightarrow> 'p"
    and held :: "'p \<Rightarrow> int set"
    and range :: "'p \<Rightarrow> int set"
    and invar :: "'p \<Rightarrow> bool"
  assumes acquire_ok: "\<lbrakk>invar p; acquire p = ((port, True), p')\<rbrakk> \<Longrightarrow>
      port \<in> range p - held p \<and> held p' = insert port (held p) \<and> range p' = range p \<and> invar p'"
    and acquire_none: "\<lbrakk>invar p; acquire p = ((port, False), p')\<rbrakk> \<Longrightarrow> range p \<subseteq> held p \<and> p' = p"
    and release_held: "invar p \<Longrightarrow> held (release q p) = held p - {q} \<and> range (release q p) = range p"
    and release_inv: "invar p \<Longrightarrow> invar (release q p)"
    and held_range: "invar p \<Longrightarrow> held p \<subseteq> range p \<and> finite (range p)"
begin

text \<open>A client's leases: the ports it holds, each once.\<close>

definition leases :: "'p \<Rightarrow> int list \<Rightarrow> bool" where
  "leases p ls \<longleftrightarrow> invar p \<and> distinct ls \<and> set ls = held p"

lemma leases_acquire: "\<lbrakk>leases p ls; acquire p = ((port, True), p')\<rbrakk> \<Longrightarrow> leases p' (port # ls)"
  using acquire_ok[of p port p'] by (auto simp: leases_def)

lemma leases_acquire_none: "\<lbrakk>leases p ls; acquire p = ((port, False), p')\<rbrakk> \<Longrightarrow> leases p' ls"
  using acquire_none[of p port p'] by (auto simp: leases_def)

lemma leases_release: "\<lbrakk>leases p ls; q \<in> set ls\<rbrakk> \<Longrightarrow> leases (release q p) (remove1 q ls)"
  using release_held[of p q] release_inv[of p q] by (auto simp: leases_def)

lemma leases_inv: "leases p ls \<Longrightarrow> invar p"
  by (simp add: leases_def)

text \<open>A client with fewer leases than ports always gets another one.\<close>

lemma leases_progress:
  assumes l: "leases p ls" and few: "length ls < card (range p)"
  shows "\<exists>port p'. acquire p = ((port, True), p') \<and> port \<notin> set ls"
proof -
  obtain port ok p' where a: "acquire p = ((port, ok), p')" by (metis surj_pair)
  from l have i: "invar p" and h: "held p = set ls" and d: "distinct ls" by (auto simp: leases_def)
  have "ok"
  proof (rule ccontr)
    assume "\<not> ok"
    with a have "range p \<subseteq> held p" using acquire_none[OF i, of port p'] by simp
    then have "card (range p) \<le> length ls"
      using card_mono[of "set ls" "range p"] distinct_card[OF d] h by simp
    with few show False by simp
  qed
  with a acquire_ok[OF i, of port p'] h show ?thesis by auto
qed

lemma leases_bound: "leases p ls \<Longrightarrow> length ls \<le> card (range p)"
  using held_range[of p] card_mono[of "range p" "set ls"] distinct_card[of ls] by (auto simp: leases_def)

end

section \<open>The pool provides it\<close>

lemma acquire_from_None: "acquire_from u e s = None \<longleftrightarrow> (\<forall>q. s \<le> q \<and> q \<le> e \<longrightarrow> is_used u q)"
proof (induction u e s rule: acquire_from.induct)
  case (1 u e s)
  have step: "(\<forall>q. s \<le> q \<and> q \<le> e \<longrightarrow> is_used u q) \<longleftrightarrow>
      (s \<le> e \<longrightarrow> is_used u s) \<and> (\<forall>q. s + 1 \<le> q \<and> q \<le> e \<longrightarrow> is_used u q)"
  proof -
    have "s \<le> q \<and> q \<le> e \<longleftrightarrow> q = s \<and> s \<le> e \<or> s + 1 \<le> q \<and> q \<le> e" for q by arith
    then show ?thesis by auto
  qed
  show ?case
    by (cases "s \<le> e"; cases "is_used u s") (use 1 step in \<open>auto simp: acquire_from.simps[of u e s]\<close>)
qed

lemma acquire_from_Some:
  "acquire_from u e s = Some q \<Longrightarrow> s \<le> q \<and> q \<le> e \<and> \<not> is_used u q \<and> (\<forall>r. s \<le> r \<and> r < q \<longrightarrow> is_used u r)"
proof (induction u e s rule: acquire_from.induct)
  case (1 u e s)
  show ?case
  proof (cases "s \<le> e \<and> is_used u s")
    case True
    with 1 have IH: "s + 1 \<le> q \<and> q \<le> e \<and> \<not> is_used u q \<and> (\<forall>r. s + 1 \<le> r \<and> r < q \<longrightarrow> is_used u r)"
      by (simp add: acquire_from.simps[of u e s])
    moreover have "s \<le> r \<and> r < q \<longleftrightarrow> r = s \<or> s + 1 \<le> r \<and> r < q" for r using IH by arith
    ultimately show ?thesis using True by auto
  next
    case False
    with 1(2) show ?thesis by (auto simp: acquire_from.simps[of u e s] split: if_splits)
  qed
qed

lemma is_used_update [simp]: "is_used (AList.update k True u) q \<longleftrightarrow> q = k \<or> is_used u q"
  by (simp add: is_used_def)

lemma is_used_delete [simp]: "is_used (AList.delete k u) q \<longleftrightarrow> q \<noteq> k \<and> is_used u q"
  by (simp add: is_used_def)

lemma new_pool_inv [simp]: "pool_inv (new_pool s e)" "pool_held (new_pool s e) = {}"
  "pool_range (new_pool s e) = {s..e}"
  by (auto simp: pool_inv_def new_pool_def pool_held_def pool_range_def is_used_def)

lemma pool_held_fst: "pool_inv p \<Longrightarrow> pool_held p = fst ` set (p_used p)"
proof -
  assume p: "pool_inv p"
  have "is_used (p_used p) q \<longleftrightarrow> map_of (p_used p) q \<noteq> None" for q
    using p by (metis (full_types) is_used_def option.distinct(1) option.exhaust pool_inv_def)
  then show ?thesis by (simp add: pool_held_def dom_def flip: dom_map_of_conv_image_fst)
qed

interpretation pool_source: port_source Acquire Release pool_held pool_range pool_inv
proof
  fix p p' :: pool and port q :: int
  assume p: "pool_inv p"
  show "port \<in> pool_range p - pool_held p \<and> pool_held p' = insert port (pool_held p) \<and>
      pool_range p' = pool_range p \<and> pool_inv p'" if "Acquire p = ((port, True), p')"
    using that p acquire_from_Some[of "p_used p" "p_end p" "p_start p" port]
    by (fastforce simp: Acquire_def pool_range_def pool_held_def pool_inv_def split: option.splits if_splits)
  show "pool_range p \<subseteq> pool_held p \<and> p' = p" if "Acquire p = ((port, False), p')"
    using that by (auto simp: Acquire_def acquire_from_None pool_range_def pool_held_def split: option.splits)
  show "pool_held (Release q p) = pool_held p - {q} \<and> pool_range (Release q p) = pool_range p"
    by (auto simp: Release_def pool_held_def pool_range_def)
  show "pool_inv (Release q p)"
    using p by (auto simp: Release_def pool_inv_def split: if_splits)
  show "pool_held p \<subseteq> pool_range p \<and> finite (pool_range p)"
    using p by (auto simp: pool_held_def pool_range_def pool_inv_def)
qed

lemma AvailableForTest_card: "pool_inv p \<Longrightarrow> p_start p \<le> p_end p + 1 \<Longrightarrow>
  AvailableForTest p = int (card (pool_range p - pool_held p))"
proof -
  assume p: "pool_inv p" and r: "p_start p \<le> p_end p + 1"
  have "distinct (map fst (p_used p))" using p by (simp add: pool_inv_def gomap_ok_def)
  then have "length (p_used p) = card (pool_held p)"
    using pool_held_fst[OF p] distinct_card by fastforce
  moreover have "card (pool_range p - pool_held p) = card (pool_range p) - card (pool_held p)"
    "card (pool_held p) \<le> card (pool_range p)"
    using pool_source.held_range[OF p] by (auto intro: card_Diff_subset finite_subset card_mono)
  ultimately show ?thesis
    using r by (simp add: AvailableForTest_def pool_range_def)
qed

end
