(* ===== verification/Inflight.thy ===== *)
theory Inflight
  imports Prelude
begin

text \<open>
  The in-flight tracker of \<open>internal/inflight/tracker.go\<close>: a counter, the channels of the
  goroutines that wait for it to reach zero, and the \<open>done\<close> closures handed out by
  \<open>Track\<close>. The first section has one function per critical section of the mutex; the second
  one interleaves them as a step relation in which the \<open>OnChange\<close> callbacks run after the lock
  is released, as in the code.
\<close>

section \<open>The critical sections\<close>

text \<open>A channel is a number; \<open>nil\<close> waiters and no waiters are the same list.\<close>

record tracker =
  tk_count :: int
  tk_waiters :: "nat list"

definition new_tracker :: tracker where
  "new_tracker = \<lparr>tk_count = 0, tk_waiters = []\<rparr>"

text \<open>\<open>Track\<close>: the new tracker and the count passed to \<open>notify\<close>.\<close>

definition Track :: "tracker \<Rightarrow> tracker \<times> int" where
  "Track t = (let c = tk_count t + 1 in (t\<lparr>tk_count := c\<rparr>, c))"

text \<open>The body of \<open>once.Do\<close>: also the channels it closes.\<close>

definition done_body :: "tracker \<Rightarrow> tracker \<times> int \<times> nat list" where
  "done_body t =
     (if tk_count t \<le> 0 then (t\<lparr>tk_count := 0\<rparr>, 0, [])
      else let c = tk_count t - 1
           in if c = 0 then (t\<lparr>tk_count := c, tk_waiters := []\<rparr>, c, tk_waiters t)
              else (t\<lparr>tk_count := c\<rparr>, c, []))"

text \<open>
  The closure with its \<open>sync.Once\<close>: \<open>fired\<close> says whether it ran before. The result is the
  tracker, the notified count if any, the closed channels and the flag afterwards.
\<close>

definition done_fn :: "bool \<Rightarrow> tracker \<Rightarrow> tracker \<times> int option \<times> nat list \<times> bool" where
  "done_fn fired t =
     (if fired then (t, None, [], True)
      else (case done_body t of (t', c, chs) \<Rightarrow> (t', Some c, chs, True)))"

text \<open>
  The locked part of \<open>WaitForDrain\<close>, for a fresh channel \<open>ch\<close>: \<^term>\<open>None\<close> when it
  returns nil at once.
\<close>

definition wait_register :: "nat \<Rightarrow> tracker \<Rightarrow> tracker option" where
  "wait_register ch t =
     (if tk_count t = 0 then None else Some (t\<lparr>tk_waiters := tk_waiters t @ [ch]\<rparr>))"

definition Count :: "tracker \<Rightarrow> int" where
  "Count t = tk_count t"

section \<open>What the routers rely on\<close>

text \<open>
  A counter of outstanding leases: the contract between a tracker and a router that drains it.
\<close>

locale drain_counter =
  fixes acquire :: "'t \<Rightarrow> 't"
    and release :: "'t \<Rightarrow> 't"
    and count :: "'t \<Rightarrow> int"
  assumes count_acquire: "count (acquire t) = count t + 1"
    and count_release: "0 < count t \<Longrightarrow> count (release t) = count t - 1"
    and count_release_zero: "count t \<le> 0 \<Longrightarrow> count (release t) = 0"
begin

text \<open>\<open>True\<close> is an acquisition, \<open>False\<close> a release.\<close>

fun run :: "bool list \<Rightarrow> 't \<Rightarrow> 't" where
  "run [] t = t"
| "run (b # bs) t = run bs (if b then acquire t else release t)"

fun balanced :: "nat \<Rightarrow> bool list \<Rightarrow> bool" where
  "balanced n [] = True"
| "balanced n (True # bs) = balanced (Suc n) bs"
| "balanced 0 (False # bs) = False"
| "balanced (Suc n) (False # bs) = balanced n bs"

lemma run_nonneg: "0 \<le> count t \<Longrightarrow> 0 \<le> count (run bs t)"
proof (induction bs arbitrary: t)
  case (Cons b bs)
  then have "0 \<le> count (if b then acquire t else release t)"
    by (cases "0 < count t") (auto simp: count_acquire count_release count_release_zero)
  then show ?case by (simp add: Cons.IH)
qed simp

lemma run_balanced:
  "\<lbrakk>balanced n bs; count t = int n\<rbrakk> \<Longrightarrow>
   count (run bs t) = int n + int (length (filter id bs)) - int (length (filter Not bs))"
proof (induction n bs arbitrary: t rule: balanced.induct)
  case (2 n bs)
  from 2(2) 2(3) 2(1)[of "acquire t"] show ?case by (simp add: count_acquire)
next
  case (4 n bs)
  from 4(2) 4(3) 4(1)[of "release t"] show ?case by (simp add: count_release)
qed auto

end

lemma Track_simps [simp]:
  "tk_count (fst (Track t)) = tk_count t + 1" "tk_waiters (fst (Track t)) = tk_waiters t"
  "snd (Track t) = tk_count t + 1"
  by (simp_all add: Track_def Let_def)

interpretation tracker_counter:
  drain_counter "\<lambda>t. fst (Track t)" "\<lambda>t. fst (done_body t)" Count
  by unfold_locales (auto simp: Count_def done_body_def Let_def)

section \<open>Interleavings\<close>

datatype wait_state = Waiting | Drained | Expired

text \<open>
  Closures and waiting goroutines are numbered in the order of their creation; the \<open>n\<close>-th
  waiter owns channel \<open>n\<close>. \<open>pending\<close> are callbacks between unlock and \<open>OnChange\<close>;
  \<open>gauge\<close> is what the callback last stored.
\<close>

record isys =
  is_tr :: tracker
  is_fired :: "bool list"
  is_closed :: "nat list"
  is_waits :: "wait_state list"
  is_pending :: "int list"
  is_gauge :: int

definition init_isys :: isys where
  "init_isys = \<lparr>is_tr = new_tracker, is_fired = [], is_closed = [], is_waits = [],
                is_pending = [], is_gauge = 0\<rparr>"

inductive istep :: "isys \<Rightarrow> isys \<Rightarrow> bool" where
  track: "Track (is_tr s) = (t, c) \<Longrightarrow>
    istep s (s\<lparr>is_tr := t, is_fired := is_fired s @ [False], is_pending := c # is_pending s\<rparr>)"
| release: "\<lbrakk>i < length (is_fired s); done_fn (is_fired s ! i) (is_tr s) = (t, Some c, chs, f)\<rbrakk> \<Longrightarrow>
    istep s (s\<lparr>is_tr := t, is_fired := (is_fired s)[i := f], is_closed := chs @ is_closed s,
               is_pending := c # is_pending s\<rparr>)"
| release_again: "\<lbrakk>i < length (is_fired s); done_fn (is_fired s ! i) (is_tr s) = (t, None, chs, f)\<rbrakk> \<Longrightarrow>
    istep s (s\<lparr>is_tr := t, is_fired := (is_fired s)[i := f], is_closed := chs @ is_closed s\<rparr>)"
| wait_now: "wait_register (length (is_waits s)) (is_tr s) = None \<Longrightarrow>
    istep s (s\<lparr>is_waits := is_waits s @ [Drained]\<rparr>)"
| wait_reg: "wait_register (length (is_waits s)) (is_tr s) = Some t \<Longrightarrow>
    istep s (s\<lparr>is_tr := t, is_waits := is_waits s @ [Waiting]\<rparr>)"
| wake: "\<lbrakk>i < length (is_waits s); is_waits s ! i = Waiting; i \<in> set (is_closed s)\<rbrakk> \<Longrightarrow>
    istep s (s\<lparr>is_waits := (is_waits s)[i := Drained]\<rparr>)"
| expire: "\<lbrakk>i < length (is_waits s); is_waits s ! i = Waiting\<rbrakk> \<Longrightarrow>
    istep s (s\<lparr>is_waits := (is_waits s)[i := Expired]\<rparr>)"
| notify: "is_pending s = xs @ c # ys \<Longrightarrow>
    istep s (s\<lparr>is_pending := xs @ ys, is_gauge := c\<rparr>)"

inductive ireach :: "isys \<Rightarrow> bool" where
  init: "ireach init_isys"
| step: "ireach s \<Longrightarrow> istep s t \<Longrightarrow> ireach t"

text \<open>The number of closures that have not run.\<close>

definition open_tokens :: "isys \<Rightarrow> nat" where
  "open_tokens s = length (filter Not (is_fired s))"

definition isys_inv :: "isys \<Rightarrow> bool" where
  "isys_inv s \<longleftrightarrow>
     tk_count (is_tr s) = int (open_tokens s) \<and>
     (tk_count (is_tr s) = 0 \<longrightarrow> tk_waiters (is_tr s) = []) \<and>
     distinct (tk_waiters (is_tr s) @ is_closed s) \<and>
     set (tk_waiters (is_tr s) @ is_closed s) \<subseteq> {..<length (is_waits s)} \<and>
     (\<forall>i < length (is_waits s). is_waits s ! i = Waiting \<longrightarrow> i \<in> set (tk_waiters (is_tr s) @ is_closed s))"

lemma filter_Not_update:
  "\<lbrakk>i < length xs; \<not> xs ! i\<rbrakk> \<Longrightarrow> Suc (length (filter Not (xs[i := True]))) = length (filter Not xs)"
proof (induction xs arbitrary: i)
  case (Cons x xs)
  then show ?case by (cases i) (auto simp: nth_Cons')
qed simp

lemma init_isys_inv: "isys_inv init_isys"
  by (simp add: isys_inv_def init_isys_def open_tokens_def new_tracker_def)

lemma open_tokens_pos: "\<lbrakk>i < length (is_fired s); \<not> is_fired s ! i\<rbrakk> \<Longrightarrow> 0 < open_tokens s"
  using filter_Not_update[of i "is_fired s"] by (simp add: open_tokens_def del: length_greater_0_conv)

lemma istep_inv: "istep s t \<Longrightarrow> isys_inv s \<Longrightarrow> isys_inv t"
proof (induction rule: istep.induct)
  case (track s t c)
  then show ?case by (auto simp: isys_inv_def Track_def Let_def open_tokens_def)
next
  case (release i s t c chs f)
  then have nf: "\<not> is_fired s ! i" and b: "done_body (is_tr s) = (t, c, chs)" and f: "f"
    by (auto simp: done_fn_def split: if_splits prod.splits)
  from release(1) nf have "Suc (length (filter Not ((is_fired s)[i := True]))) = open_tokens s"
    by (simp add: open_tokens_def filter_Not_update)
  with release(3) b f show ?case
    by (auto simp: isys_inv_def done_body_def Let_def open_tokens_def split: if_splits)
next
  case (release_again i s t chs f)
  then have "is_fired s ! i" "t = is_tr s" "chs = []" "f"
    by (auto simp: done_fn_def split: if_splits prod.splits)
  with release_again(1) have "(is_fired s)[i := f] = is_fired s" by (simp add: list_update_same_conv)
  with release_again \<open>t = is_tr s\<close> \<open>chs = []\<close> show ?case
    by (simp add: isys_inv_def open_tokens_def)
next
  case (wait_reg s t)
  then show ?case
    by (auto simp: isys_inv_def wait_register_def open_tokens_def nth_append less_Suc_eq split: if_splits)
qed (auto simp: isys_inv_def open_tokens_def nth_append less_Suc_eq nth_list_update)

lemma ireach_inv: "ireach s \<Longrightarrow> isys_inv s"
  by (induction rule: ireach.induct) (auto intro: init_isys_inv istep_inv)

lemma closed_at_zero:
  "\<lbrakk>istep s t; ch \<in> set (is_closed t); ch \<notin> set (is_closed s)\<rbrakk> \<Longrightarrow> tk_count (is_tr t) = 0"
  by (induction rule: istep.induct) (auto simp: done_fn_def done_body_def Let_def split: if_splits prod.splits)

end
