(* ===== verification/Gpu_Power.thy ===== *)
theory Gpu_Power
  imports Prelude
begin

text \<open>
  The GPU power manager of \<open>internal/gpu/power.go\<close>. Running \<open>nvidia-smi\<close> is the
  environment: \<open>ok n\<close> says whether the \<open>n\<close>-th invocation succeeds, and the world keeps
  the log of invocations. The locale \<open>power_controller\<close> is the \<open>PowerController\<close>
  interface of the routers, with the laws they rely on.
\<close>

section \<open>State and commands\<close>

record power_manager =
  pw_binary :: string
  pw_defaults :: "(int, int) gomap"
  pw_required :: bool
  pw_current :: "(int, int) gomap"

text \<open>An invocation \<open>nvidia-smi -i gpu -pl watts\<close> and whether it succeeded.\<close>

record smi_call =
  call_gpu :: int
  call_watts :: int
  call_ok :: bool

type_synonym power_world = "power_manager \<times> smi_call list"

datatype power_error = SetLimitFailed int int

definition NewPowerManager :: "string \<Rightarrow> (int, int) gomap \<Rightarrow> bool \<Rightarrow> power_manager" where
  "NewPowerManager binary defaults required =
     \<lparr>pw_binary = (if binary = '''' then ''nvidia-smi'' else binary),
      pw_defaults = defaults, pw_required = required, pw_current = []\<rparr>"

definition SetLimit ::
  "(nat \<Rightarrow> bool) \<Rightarrow> int \<Rightarrow> int \<Rightarrow> power_world \<Rightarrow> power_error option \<times> power_world" where
  "SetLimit ok gpu watts w =
     (let (p, log) = w; b = ok (length log);
          log' = log @ [\<lparr>call_gpu = gpu, call_watts = watts, call_ok = b\<rparr>]
      in if \<not> b then (Some (SetLimitFailed gpu watts), (p, log'))
         else (None, (p\<lparr>pw_current := AList.update gpu watts (pw_current p)\<rparr>, log')))"

definition RevertToDefault ::
  "(nat \<Rightarrow> bool) \<Rightarrow> int \<Rightarrow> power_world \<Rightarrow> power_error option \<times> power_world" where
  "RevertToDefault ok gpu w =
     (case map_of (pw_defaults (fst w)) gpu of
        None \<Rightarrow> (None, w)
      | Some defaultWatts \<Rightarrow>
          (case map_of (pw_current (fst w)) gpu of
             None \<Rightarrow> (None, w)
           | Some currentWatts \<Rightarrow>
               if currentWatts = defaultWatts then (None, w)
               else SetLimit ok gpu defaultWatts w))"

text \<open>
  One iteration of the loops that set limits: \<open>firstErr\<close> keeps the first failure, and only
  when failures are fatal.
\<close>

definition set_and_record ::
  "(nat \<Rightarrow> bool) \<Rightarrow> int \<Rightarrow> int \<Rightarrow> power_error option \<times> power_world \<Rightarrow> power_error option \<times> power_world" where
  "set_and_record ok gpu watts ew =
     (let (firstErr, w) = ew; (err, w') = SetLimit ok gpu watts w
      in (case err of
            Some e \<Rightarrow> (if pw_required (fst w) \<and> firstErr = None then Some e else firstErr, w')
          | None \<Rightarrow> (firstErr, w')))"

definition ApplyStartupLimits ::
  "(nat \<Rightarrow> bool) \<Rightarrow> power_world \<Rightarrow> power_error option \<times> power_world" where
  "ApplyStartupLimits ok w =
     (let defaults = pw_defaults (fst w)
      in if length defaults = 0 then (None, w)
         else fold (\<lambda>gpu. set_and_record ok gpu (the (map_of defaults gpu))) (sort (keys defaults)) (None, w))"

text \<open>The watts the loop of \<open>ApplyModelLimits\<close> chooses; \<^term>\<open>None\<close> is \<open>continue\<close>.\<close>

definition model_watts :: "int option \<Rightarrow> (int, int) gomap option \<Rightarrow> int \<Rightarrow> int option" where
  "model_watts powerLimit powerLimits gpu =
     (case powerLimits of Some m \<Rightarrow> map_of m gpu | None \<Rightarrow> powerLimit)"

definition ApplyModelLimits ::
  "(nat \<Rightarrow> bool) \<Rightarrow> int list \<Rightarrow> int option \<Rightarrow> (int, int) gomap option \<Rightarrow> power_world
     \<Rightarrow> power_error option \<times> power_world" where
  "ApplyModelLimits ok gpus powerLimit powerLimits w =
     (if powerLimit = None \<and> powerLimits = None then (None, w)
      else fold (\<lambda>gpu ew. case model_watts powerLimit powerLimits gpu of
                             None \<Rightarrow> ew | Some watts \<Rightarrow> set_and_record ok gpu watts ew)
             gpus (None, w))"

text \<open>The errors of the single reverts are logged and dropped.\<close>

definition RevertModelLimits ::
  "(nat \<Rightarrow> bool) \<Rightarrow> int list \<Rightarrow> power_world \<Rightarrow> power_error option \<times> power_world" where
  "RevertModelLimits ok gpus w = (None, fold (\<lambda>gpu w. snd (RevertToDefault ok gpu w)) gpus w)"

text \<open>The limit in force on a GPU, as the invocations left it.\<close>

fun limit_after :: "smi_call list \<Rightarrow> int \<Rightarrow> int option" where
  "limit_after [] gpu = None"
| "limit_after (c # cs) gpu =
     (case limit_after cs gpu of
        Some w \<Rightarrow> Some w
      | None \<Rightarrow> if call_ok c \<and> call_gpu c = gpu then Some (call_watts c) else None)"

definition applied_limit :: "power_world \<Rightarrow> int \<Rightarrow> int option" where
  "applied_limit w gpu = map_of (pw_current (fst w)) gpu"

section \<open>Single commands\<close>

lemma limit_after_snoc:
  "limit_after (cs @ [c]) gpu =
     (if call_ok c \<and> call_gpu c = gpu then Some (call_watts c) else limit_after cs gpu)"
  by (induction cs) (auto split: option.splits)

text \<open>What every operation leaves alone.\<close>

definition same_settings :: "power_world \<Rightarrow> power_world \<Rightarrow> bool" where
  "same_settings v w \<longleftrightarrow> pw_defaults (fst w) = pw_defaults (fst v) \<and> pw_required (fst w) = pw_required (fst v)"

lemma same_settings_refl [simp]: "same_settings w w"
  by (simp add: same_settings_def)

lemma same_settings_trans: "\<lbrakk>same_settings u v; same_settings v w\<rbrakk> \<Longrightarrow> same_settings u w"
  by (simp add: same_settings_def)

lemma SetLimit_settings [simp]: "same_settings w (snd (SetLimit ok gpu watts w))"
  by (cases w) (simp add: SetLimit_def same_settings_def Let_def)

lemma SetLimit_applied:
  "applied_limit (snd (SetLimit ok gpu watts w)) g =
     (if g = gpu \<and> ok (length (snd w)) then Some watts else applied_limit w g)"
  by (cases w) (simp add: SetLimit_def applied_limit_def Let_def)

lemma SetLimit_error: "fst (SetLimit ok gpu watts w) = None \<longleftrightarrow> ok (length (snd w))"
  by (cases w) (simp add: SetLimit_def Let_def)

lemma RevertToDefault_settings [simp]: "same_settings w (snd (RevertToDefault ok gpu w))"
  by (simp add: RevertToDefault_def split: option.splits)

lemma RevertToDefault_frame:
  "g \<noteq> gpu \<Longrightarrow> applied_limit (snd (RevertToDefault ok gpu w)) g = applied_limit w g"
  by (simp add: RevertToDefault_def SetLimit_applied split: option.splits)

lemma snd_set_and_record [simp]: "snd (set_and_record ok gpu watts ew) = snd (SetLimit ok gpu watts (snd ew))"
  by (simp add: set_and_record_def Let_def split: prod.splits option.splits)

lemma set_and_record_frame:
  "g \<noteq> gpu \<Longrightarrow> applied_limit (snd (set_and_record ok gpu watts ew)) g = applied_limit (snd ew) g"
  by (simp add: SetLimit_applied)

section \<open>The interface of the routers\<close>

text \<open>
  What a router may assume of a power controller: an operation on some GPUs leaves the limits of
  the others alone, reverting never fails, and without limits in the model nothing is applied.
\<close>

locale power_controller =
  fixes apply_limits :: "int list \<Rightarrow> int option \<Rightarrow> (int, int) gomap option \<Rightarrow> 'w \<Rightarrow> 'e option \<times> 'w"
    and revert_limits :: "int list \<Rightarrow> 'w \<Rightarrow> 'e option \<times> 'w"
    and limit_of :: "'w \<Rightarrow> int \<Rightarrow> int option"
  assumes apply_frame: "g \<notin> set gpus \<Longrightarrow> limit_of (snd (apply_limits gpus l ls w)) g = limit_of w g"
    and revert_frame: "g \<notin> set gpus \<Longrightarrow> limit_of (snd (revert_limits gpus w)) g = limit_of w g"
    and revert_ok: "fst (revert_limits gpus w) = None"
    and apply_nothing: "apply_limits gpus None None w = (None, w)"
begin

text \<open>A start and a later stop of one model never show on the GPUs of another.\<close>

lemma start_stop_frame:
  "set gpus \<inter> set others = {} \<Longrightarrow> g \<in> set others \<Longrightarrow>
   limit_of (snd (revert_limits gpus (snd (apply_limits gpus l ls w)))) g = limit_of w g"
  using apply_frame revert_frame by (metis disjoint_iff)

text \<open>Reverting any number of models touches their GPUs only.\<close>

lemma revert_many_frame:
  "\<forall>gpus \<in> set gss. g \<notin> set gpus \<Longrightarrow> limit_of (fold (\<lambda>gpus w. snd (revert_limits gpus w)) gss w) g = limit_of w g"
  by (induction gss arbitrary: w) (auto simp: revert_frame)

end

section \<open>The power manager provides it\<close>

lemma fold_frame:
  "(\<And>x s. x \<in> set xs \<Longrightarrow> view (f x s) = view s) \<Longrightarrow> view (fold f xs s) = view s"
  by (induction xs arbitrary: s) auto

lemma ApplyModelLimits_frame:
  "g \<notin> set gpus \<Longrightarrow> applied_limit (snd (ApplyModelLimits ok gpus l ls w)) g = applied_limit w g"
proof -
  assume g: "g \<notin> set gpus"
  let ?f = "\<lambda>gpu ew. case model_watts l ls gpu of None \<Rightarrow> ew | Some watts \<Rightarrow> set_and_record ok gpu watts ew"
  have "applied_limit (snd (fold ?f gpus (None, w))) g = applied_limit (snd (None :: power_error option, w)) g"
    by (rule fold_frame[where view = "\<lambda>ew. applied_limit (snd ew) g"])
       (use g in \<open>auto simp: SetLimit_applied split: option.splits\<close>)
  then show ?thesis by (simp add: ApplyModelLimits_def)
qed

lemma RevertModelLimits_frame:
  "g \<notin> set gpus \<Longrightarrow> applied_limit (snd (RevertModelLimits ok gpus w)) g = applied_limit w g"
  unfolding RevertModelLimits_def snd_conv
  by (rule fold_frame[where view = "\<lambda>w. applied_limit w g"]) (metis RevertToDefault_frame)

interpretation power_mgr: power_controller
  "ApplyModelLimits ok" "RevertModelLimits ok" applied_limit for ok
proof
  show "fst (RevertModelLimits ok gpus w) = None" for gpus w by (simp add: RevertModelLimits_def)
  show "ApplyModelLimits ok gpus None None w = (None, w)" for gpus w by (simp add: ApplyModelLimits_def)
qed (fact ApplyModelLimits_frame RevertModelLimits_frame)+

section \<open>Whole operations\<close>

text \<open>The manager's bookkeeping agrees with what the invocations did.\<close>

definition tracks_hardware :: "power_world \<Rightarrow> bool" where
  "tracks_hardware w \<longleftrightarrow> (\<forall>gpu. map_of (pw_current (fst w)) gpu = limit_after (snd w) gpu)"

lemma SetLimit_tracks: "tracks_hardware w \<Longrightarrow> tracks_hardware (snd (SetLimit ok gpu watts w))"
  by (cases w) (auto simp: tracks_hardware_def SetLimit_def limit_after_snoc Let_def)

lemma set_and_record_tracks:
  "tracks_hardware (snd ew) \<Longrightarrow> tracks_hardware (snd (set_and_record ok gpu watts ew))"
  by (simp add: SetLimit_tracks)

lemma fold_preserves:
  "(\<And>x s. x \<in> set xs \<Longrightarrow> P s \<Longrightarrow> P (f x s)) \<Longrightarrow> P s \<Longrightarrow> P (fold f xs s)"
  by (induction xs arbitrary: s) auto

lemma ApplyModelLimits_tracks:
  "tracks_hardware w \<Longrightarrow> tracks_hardware (snd (ApplyModelLimits ok gpus l ls w))"
  unfolding ApplyModelLimits_def
  by (auto intro!: fold_preserves[where P = "\<lambda>ew. tracks_hardware (snd ew)"] SetLimit_tracks
           split: option.splits)

lemma RevertToDefault_tracks: "tracks_hardware w \<Longrightarrow> tracks_hardware (snd (RevertToDefault ok gpu w))"
  by (simp add: RevertToDefault_def SetLimit_tracks split: option.splits)

lemma RevertModelLimits_tracks:
  "tracks_hardware w \<Longrightarrow> tracks_hardware (snd (RevertModelLimits ok gpus w))"
  unfolding RevertModelLimits_def snd_conv
  by (rule fold_preserves[where P = tracks_hardware]) (auto intro: RevertToDefault_tracks)

lemma ApplyStartupLimits_tracks:
  "tracks_hardware w \<Longrightarrow> tracks_hardware (snd (ApplyStartupLimits ok w))"
  unfolding ApplyStartupLimits_def Let_def
  by (auto intro!: fold_preserves[where P = "\<lambda>ew. tracks_hardware (snd ew)"] SetLimit_tracks)

lemma set_and_record_required:
  "\<not> pw_required (fst (snd ew)) \<Longrightarrow> fst ew = None \<Longrightarrow> fst (set_and_record ok gpu watts ew) = None"
  by (auto simp: set_and_record_def Let_def split: prod.splits option.splits)

lemma ApplyModelLimits_optional:
  assumes "\<not> pw_required (fst w)"
  shows "fst (ApplyModelLimits ok gpus l ls w) = None"
proof -
  let ?P = "\<lambda>ew :: power_error option \<times> power_world. fst ew = None \<and> \<not> pw_required (fst (snd ew))"
  let ?f = "\<lambda>gpu ew. case model_watts l ls gpu of None \<Rightarrow> ew | Some watts \<Rightarrow> set_and_record ok gpu watts ew"
  have "?P (fold ?f gpus (None, w))"
  proof (rule fold_preserves[where P = ?P])
    fix gpu ew
    assume "?P ew"
    then show "?P (?f gpu ew)"
      using SetLimit_settings[of "snd ew" ok gpu] set_and_record_required[of ew ok gpu]
      by (auto simp: same_settings_def split: option.splits)
  qed (use assms in simp)
  then show ?thesis by (simp add: ApplyModelLimits_def)
qed

text \<open>Reverting restores the default of every GPU that was overridden, when the commands succeed.\<close>

lemma RevertToDefault_restores:
  assumes "\<And>n. ok n" "map_of (pw_defaults (fst w)) gpu = Some d" "applied_limit w gpu \<noteq> None"
  shows "applied_limit (snd (RevertToDefault ok gpu w)) gpu = Some d"
  using assms SetLimit_applied[of ok gpu d w gpu]
  by (auto simp: RevertToDefault_def applied_limit_def split: option.splits)

lemma RevertModelLimits_restores:
  "\<lbrakk>\<And>n. ok n; gpu \<in> set gpus; map_of (pw_defaults (fst w)) gpu = Some d; applied_limit w gpu \<noteq> None\<rbrakk>
   \<Longrightarrow> applied_limit (snd (RevertModelLimits ok gpus w)) gpu = Some d"
proof (induction gpus arbitrary: w)
  case (Cons g gpus)
  let ?w = "snd (RevertToDefault ok g w)"
  have d: "map_of (pw_defaults (fst ?w)) gpu = Some d"
    using Cons.prems(3) RevertToDefault_settings[of w ok g] by (simp add: same_settings_def)
  have l: "applied_limit ?w gpu \<noteq> None"
    using Cons.prems RevertToDefault_restores[of ok w gpu d] RevertToDefault_frame[of gpu g ok w]
    by (cases "g = gpu") auto
  show ?case
  proof (cases "gpu \<in> set gpus")
    case True
    from Cons.IH[OF Cons.prems(1) True d l] show ?thesis by (simp add: RevertModelLimits_def)
  next
    case False
    with Cons.prems(2) have "g = gpu" by simp
    with RevertToDefault_restores[OF Cons.prems(1,3,4)] RevertModelLimits_frame[OF False, of ok ?w]
    show ?thesis by (simp add: RevertModelLimits_def)
  qed
qed simp

end
