(* ===== verification/Resource_Properties.thy ===== *)
theory Resource_Properties
  imports Ports Inflight Gpu_Power Log_Writer
begin

text \<open>
  The properties of the resources the routers manage: the port pool, the in-flight tracker, the
  GPU power manager and the log files.
\<close>

section \<open>Ports\<close>

text \<open>The calls a client makes of the pool: acquire, or release a port it holds.\<close>

datatype pool_call = Take | Give int

fun pool_run :: "pool_call list \<Rightarrow> pool \<times> int list \<Rightarrow> pool \<times> int list" where
  "pool_run [] pl = pl"
| "pool_run (Take # cs) (p, ls) =
     (case Acquire p of ((port, ok), p') \<Rightarrow> pool_run cs (p', if ok then port # ls else ls))"
| "pool_run (Give q # cs) (p, ls) =
     (if q \<in> set ls then pool_run cs (Release q p, remove1 q ls) else pool_run cs (p, ls))"

lemma pool_run_leases:
  "pool_source.leases p ls \<Longrightarrow> pool_run cs (p, ls) = (p', ls') \<Longrightarrow>
   pool_source.leases p' ls' \<and> pool_range p' = pool_range p"
proof (induction cs "(p, ls)" arbitrary: p ls rule: pool_run.induct)
  case (2 cs p ls)
  obtain port ok q where a: "Acquire p = ((port, ok), q)" by (metis surj_pair)
  have i: "pool_inv p" using "2.prems"(1) by (rule pool_source.leases_inv)
  show ?case
  proof (cases ok)
    case True
    with 2 a pool_source.leases_acquire[OF "2.prems"(1)] pool_source.acquire_ok[OF i] show ?thesis by simp
  next
    case False
    then have "q = p" using a pool_source.acquire_none[OF i] by simp
    with "2.prems"(2) a False have "pool_run cs (p, ls) = (p', ls')" by simp
    with "2.hyps"[OF a[symmetric] refl] "2.prems"(1) False \<open>q = p\<close> show ?thesis by simp
  qed
next
  case (3 q cs p ls)
  show ?case
  proof (cases "q \<in> set ls")
    case True
    have "pool_run cs (Release q p, remove1 q ls) = (p', ls')" using "3.prems"(2) True by simp
    from "3.hyps"(1)[OF True pool_source.leases_release[OF "3.prems"(1) True] this]
    show ?thesis using pool_source.release_held[OF pool_source.leases_inv[OF "3.prems"(1)]] by blast
  next
    case False
    with "3.hyps"(2)[OF False "3.prems"(1)] "3.prems"(2) show ?thesis by simp
  qed
qed simp

text \<open>
  C14. Over any sequence of acquisitions and releases of held ports, the ports handed out and not
  returned are pairwise different and inside the configured range, and an acquisition fails only
  when the whole range is held.
\<close>

theorem ports_are_exclusive:
  "pool_run cs (new_pool s e, []) = (p, ls) \<Longrightarrow>
   distinct ls \<and> set ls \<subseteq> {s..e} \<and> (snd (fst (Acquire p)) \<longleftrightarrow> length ls < nat (e + 1 - s))"
proof -
  assume r: "pool_run cs (new_pool s e, []) = (p, ls)"
  have "pool_source.leases (new_pool s e) []" by (simp add: pool_source.leases_def)
  with r have l: "pool_source.leases p ls" and rng: "pool_range p = {s..e}"
    using pool_run_leases by fastforce+
  have i: "pool_inv p" and h: "set ls = pool_held p" and d: "distinct ls"
    using l by (auto simp: pool_source.leases_def)
  obtain port ok q where a: "Acquire p = ((port, ok), q)" by (metis surj_pair)
  have "\<not> ok \<longrightarrow> \<not> length ls < card {s..e}"
    using pool_source.leases_progress[OF l] a rng by fastforce
  moreover have "ok \<longrightarrow> length ls < card {s..e}"
    using pool_source.leases_acquire[OF l, of port q] pool_source.leases_bound[of q "port # ls"]
      pool_source.acquire_ok[OF i, of port q] a rng by fastforce
  ultimately show ?thesis
    using d h pool_source.held_range[OF i] a rng by auto
qed

lemma ports_are_exclusive_witness:
  "pool_run [Take, Take, Give 9001, Take, Take] (new_pool 9001 9002, []) =
     (\<lparr>p_start = 9001, p_end = 9002, p_used = [(9002, True), (9001, True)]\<rparr>, [9001, 9002]) \<and>
   \<not> snd (fst (Acquire \<lparr>p_start = 9001, p_end = 9002, p_used = [(9002, True), (9001, True)]\<rparr>))"
proof -
  have r: "pool_run [Take, Take, Give 9001, Take, Take] (new_pool 9001 9002, []) =
     (\<lparr>p_start = 9001, p_end = 9002, p_used = [(9002, True), (9001, True)]\<rparr>, [9001, 9002])"
    by (simp add: new_pool_def Acquire_def acquire_from.simps is_used_def Release_def)
  with ports_are_exclusive[OF r] show ?thesis by simp
qed

text \<open>\<open>Acquire\<close> hands out the lowest free port.\<close>

theorem Acquire_lowest_free:
  "Acquire p = ((q, True), p') \<Longrightarrow>
   q \<in> pool_range p - pool_held p \<and> (\<forall>r \<in> pool_range p. r < q \<longrightarrow> r \<in> pool_held p)"
  by (auto simp: Acquire_def pool_range_def pool_held_def split: option.splits dest!: acquire_from_Some)

lemma Acquire_lowest_free_witness:
  "(\<forall>r \<in> pool_range \<lparr>p_start = 9001, p_end = 9003, p_used = [(9001, True)]\<rparr>. r < 9002 \<longrightarrow>
      r \<in> pool_held \<lparr>p_start = 9001, p_end = 9003, p_used = [(9001, True)]\<rparr>)"
  using Acquire_lowest_free[of "\<lparr>p_start = 9001, p_end = 9003, p_used = [(9001, True)]\<rparr>" 9002]
  by (simp add: Acquire_def acquire_from.simps is_used_def)

section \<open>In-flight requests\<close>

text \<open>
  C28. In every interleaving of \<open>Track\<close>, \<open>Done\<close> (each closure called any number of times)
  and \<open>WaitForDrain\<close>, the counter is the number of requests whose \<open>Done\<close> has not run; it
  never goes below zero.
\<close>

theorem count_is_open_requests:
  "ireach s \<Longrightarrow> Count (is_tr s) = int (open_tokens s)"
  using ireach_inv[of s] by (simp add: isys_inv_def Count_def)

lemma ireach_track: "ireach s \<Longrightarrow> ireach (s\<lparr>is_tr := fst (Track (is_tr s)), is_fired := is_fired s @ [False],
    is_pending := snd (Track (is_tr s)) # is_pending s\<rparr>)"
  by (rule ireach.step[OF _ istep.track]) (simp_all add: Track_def Let_def)

lemma count_is_open_requests_witness:
  "Count (is_tr (init_isys\<lparr>is_tr := fst (Track new_tracker), is_fired := [False], is_pending := [1]\<rparr>)) = 1"
  using count_is_open_requests[OF ireach_track[OF ireach.init]]
  by (simp add: init_isys_def new_tracker_def open_tokens_def)

text \<open>
  C13. No wake-up is lost: when the counter is zero, the channel of every goroutine that is still
  blocked in \<open>WaitForDrain\<close> has been closed, so it can only return nil; and a channel is closed
  only at a moment when the counter is zero.
\<close>

theorem no_lost_wakeup:
  "ireach s \<Longrightarrow>
   (Count (is_tr s) = 0 \<longrightarrow> (\<forall>i < length (is_waits s). is_waits s ! i = Waiting \<longrightarrow> i \<in> set (is_closed s))) \<and>
   (istep s t \<longrightarrow> ch \<in> set (is_closed t) \<longrightarrow> ch \<notin> set (is_closed s) \<longrightarrow> Count (is_tr t) = 0)"
  using ireach_inv[of s] closed_at_zero[of s t ch] by (auto simp: isys_inv_def Count_def)

text \<open>One request, one waiter, and the end of the request.\<close>

definition ex_waited :: isys where
  "ex_waited = \<lparr>is_tr = new_tracker, is_fired = [True], is_closed = [0], is_waits = [Waiting],
                is_pending = [0, 1], is_gauge = 0\<rparr>"

lemma ex_waited_reach: "ireach ex_waited"
proof -
  let ?s1 = "init_isys\<lparr>is_tr := fst (Track new_tracker), is_fired := [False], is_pending := [1]\<rparr>"
  let ?s2 = "?s1\<lparr>is_tr := \<lparr>tk_count = 1, tk_waiters = [0]\<rparr>, is_waits := [Waiting]\<rparr>"
  have "ireach ?s1"
    using ireach_track[OF ireach.init] by (simp add: init_isys_def new_tracker_def Track_def Let_def)
  moreover have "istep ?s1 ?s2"
    using istep.wait_reg[of ?s1 "\<lparr>tk_count = 1, tk_waiters = [0]\<rparr>"]
    by (simp add: init_isys_def wait_register_def Track_def new_tracker_def Let_def)
  moreover have "istep ?s2 ex_waited"
    using istep.release[of 0 ?s2 new_tracker 0 "[0]" True]
    by (simp add: init_isys_def ex_waited_def done_fn_def done_body_def new_tracker_def Let_def)
  ultimately show ?thesis by (meson ireach.step)
qed

lemma no_lost_wakeup_witness: "Count (is_tr ex_waited) = 0 \<and> is_waits ex_waited = [Waiting] \<and> 0 \<in> set (is_closed ex_waited)"
  using no_lost_wakeup[OF ex_waited_reach, of ex_waited 0] by (simp add: ex_waited_def Count_def new_tracker_def)

text \<open>
  The gauge can end stale: the callbacks run after the lock is released, so two requests that
  start and end can leave every callback delivered, no request open and the gauge at one.
\<close>

theorem gauge_can_end_stale:
  "\<exists>s. ireach s \<and> is_pending s = [] \<and> Count (is_tr s) = 0 \<and> is_gauge s = 1"
proof -
  let ?s1 = "init_isys\<lparr>is_tr := fst (Track new_tracker), is_fired := [False], is_pending := [1]\<rparr>"
  let ?s2 = "?s1\<lparr>is_tr := new_tracker, is_fired := [True], is_pending := [0, 1]\<rparr>"
  let ?s3 = "?s2\<lparr>is_pending := [1], is_gauge := 0\<rparr>"
  let ?s4 = "?s3\<lparr>is_pending := [], is_gauge := 1\<rparr>"
  have "ireach ?s1"
    using ireach_track[OF ireach.init] by (simp add: init_isys_def new_tracker_def Track_def Let_def)
  moreover have "istep ?s1 ?s2"
    using istep.release[of 0 ?s1 new_tracker 0 "[]" True]
    by (simp add: init_isys_def done_fn_def done_body_def Track_def new_tracker_def Let_def)
  moreover have "istep ?s2 ?s3" using istep.notify[of ?s2 "[]" 0 "[1]"] by simp
  moreover have "istep ?s3 ?s4" using istep.notify[of ?s3 "[]" 1 "[]"] by simp
  ultimately have "ireach ?s4" by (meson ireach.step)
  then show ?thesis by (intro exI[of _ ?s4]) (simp add: Count_def new_tracker_def)
qed

section \<open>GPU power limits\<close>

text \<open>The operations a router performs on the power manager, in order.\<close>

datatype power_call = Startup | Apply "int list" "int option" "(int, int) gomap option" | Revert "int list"

fun power_run :: "(nat \<Rightarrow> bool) \<Rightarrow> power_call list \<Rightarrow> power_world \<Rightarrow> power_world" where
  "power_run ok [] w = w"
| "power_run ok (Startup # cs) w = power_run ok cs (snd (ApplyStartupLimits ok w))"
| "power_run ok (Apply gs l ls # cs) w = power_run ok cs (snd (ApplyModelLimits ok gs l ls w))"
| "power_run ok (Revert gs # cs) w = power_run ok cs (snd (RevertModelLimits ok gs w))"

lemma power_run_tracks: "tracks_hardware w \<Longrightarrow> tracks_hardware (power_run ok cs w)"
  by (induction ok cs w rule: power_run.induct)
     (auto intro: ApplyStartupLimits_tracks ApplyModelLimits_tracks RevertModelLimits_tracks)

text \<open>
  C29. Whatever invocations of \<open>nvidia-smi\<close> fail, the manager's record of the limit of a GPU is
  the one set by the last successful invocation for it, after any sequence of operations.
\<close>

theorem recorded_limit_is_in_force:
  "applied_limit (power_run ok cs (NewPowerManager binary defaults required, [])) g =
   limit_after (snd (power_run ok cs (NewPowerManager binary defaults required, []))) g"
proof -
  have "tracks_hardware (NewPowerManager binary defaults required, [])"
    by (simp add: tracks_hardware_def NewPowerManager_def)
  from power_run_tracks[OF this] show ?thesis by (simp add: tracks_hardware_def applied_limit_def)
qed

text \<open>
  When \<open>nvidia-smi\<close> works, applying a model's limits and reverting them later gives every
  GPU of the model that has a default its default again, and leaves all other GPUs as they were.
\<close>

theorem revert_restores_defaults:
  assumes "\<And>n. ok n" "g \<in> set gpus" "map_of (pw_defaults (fst w)) g = Some d" "applied_limit w g \<noteq> None"
  shows "applied_limit (snd (RevertModelLimits ok gpus (snd (ApplyModelLimits ok gpus l ls w)))) g = Some d \<and>
    (h \<notin> set gpus \<longrightarrow>
       applied_limit (snd (RevertModelLimits ok gpus (snd (ApplyModelLimits ok gpus l ls w)))) h = applied_limit w h)"
proof -
  let ?P = "\<lambda>ew :: power_error option \<times> power_world. same_settings w (snd ew) \<and> applied_limit (snd ew) g \<noteq> None"
  let ?f = "\<lambda>gpu ew. case model_watts l ls gpu of None \<Rightarrow> ew | Some watts \<Rightarrow> set_and_record ok gpu watts ew"
  have "?P (fold ?f gpus (None, w))"
  proof (rule fold_preserves[where P = ?P])
    fix gpu ew
    assume "?P ew"
    then show "?P (?f gpu ew)"
      using SetLimit_settings[of "snd ew" ok gpu] assms(1)
      by (auto simp: SetLimit_applied same_settings_def split: option.splits)
  qed (use assms(4) in simp)
  then have p: "?P (ApplyModelLimits ok gpus l ls w)"
    using assms(4) by (simp add: ApplyModelLimits_def)
  then have "map_of (pw_defaults (fst (snd (ApplyModelLimits ok gpus l ls w)))) g = Some d"
    using assms(3) by (simp add: same_settings_def)
  with RevertModelLimits_restores[of ok g gpus "snd (ApplyModelLimits ok gpus l ls w)" d] assms(1,2) p have
    "applied_limit (snd (RevertModelLimits ok gpus (snd (ApplyModelLimits ok gpus l ls w)))) g = Some d" by blast
  then show ?thesis using ApplyModelLimits_frame RevertModelLimits_frame by simp
qed

definition ex_power :: power_world where
  "ex_power = (\<lparr>pw_binary = ''nvidia-smi'', pw_defaults = [(0, 300)], pw_required = False, pw_current = [(0, 300)]\<rparr>,
     [\<lparr>call_gpu = 0, call_watts = 300, call_ok = True\<rparr>])"

lemma revert_restores_defaults_witness:
  "applied_limit (snd (RevertModelLimits (\<lambda>_. True) [0] (snd (ApplyModelLimits (\<lambda>_. True) [0] (Some 150) None
     ex_power)))) 0 = Some 300"
  using revert_restores_defaults[of "\<lambda>_. True" 0 "[0]" ex_power 300 "Some 150" None 0]
  by (simp add: ex_power_def applied_limit_def)

text \<open>
  A model whose \<open>power_limits\<close> is present but empty gets no limit at all, although it also
  has a \<open>power_limit\<close> and validation accepts the pair: the code asks whether the map is nil,
  validation asks how long it is.
\<close>

theorem empty_power_limits_hide_power_limit:
  "ApplyModelLimits ok gpus (Some watts) (Some []) w = (None, w)"
proof -
  have "fold (\<lambda>gpu ew. ew) gpus ew = ew" for ew :: "power_error option \<times> power_world"
    by (induction gpus) auto
  then show ?thesis by (simp add: ApplyModelLimits_def model_watts_def)
qed

section \<open>Logs\<close>

text \<open>
  The tail buffer holds exactly the last bytes of everything written to it, up to its size,
  however the output was cut into writes.
\<close>

theorem tail_buffer_keeps_the_end:
  "tail_string (fold (\<lambda>p t. snd (tail_write p t)) ps (newTailBuffer n)) = last_bytes n (concat ps)"
  by (simp add: tail_writes_eq newTailBuffer_def last_bytes_def)

text \<open>
  When the file system works, a rotation empties the log, moves its content to \<open>.1\<close> and
  every kept file up by one; nothing but the oldest file is lost.
\<close>

theorem rotation_shifts_files:
  "\<lbrakk>1 \<le> lw_max_files w; lw_max_files w < max_int64; rotate_log all_ok w f = (e, w', f')\<rbrakk> \<Longrightarrow>
   e = None \<and> lw_open w' \<and> map_of f' (lw_path w) = Some '''' \<and>
   map_of f' (rot_path (lw_path w) 1) = map_of f (lw_path w) \<and>
   (\<forall>i. 1 \<le> i \<and> i < lw_max_files w \<longrightarrow>
      map_of f' (rot_path (lw_path w) (i + 1)) = map_of f (rot_path (lw_path w) i))"
  using rotate_log_ok[of w f e w' f'] by (auto split: option.splits)

definition ex_writer :: log_writer where
  "ex_writer = \<lparr>lw_path = ''m.log'', lw_max_bytes = 4, lw_max_files = 2, lw_current_size = 3, lw_open = True\<rparr>"

lemma rotation_shifts_files_witness:
  "\<exists>e w' f'. rotate_log all_ok ex_writer [(''m.log'', ''abc''), (rot_path ''m.log'' 1, ''old'')] = (e, w', f') \<and>
     map_of f' (rot_path ''m.log'' 1) = Some ''abc'' \<and> map_of f' (rot_path ''m.log'' 2) = Some ''old''"
proof -
  let ?f = "[(''m.log'', ''abc''), (rot_path ''m.log'' 1, ''old'')]"
  obtain e w' f' where r: "rotate_log all_ok ex_writer ?f = (e, w', f')" by (metis surj_pair)
  have t: "map_of f' (rot_path ''m.log'' 1) = map_of ?f ''m.log'' \<and>
      (\<forall>i. 1 \<le> i \<and> i < 2 \<longrightarrow> map_of f' (rot_path ''m.log'' (i + 1)) = map_of ?f (rot_path ''m.log'' i))"
    using rotation_shifts_files[OF _ _ r] unfolding ex_writer_def max_int64_def by simp
  then have "map_of f' (rot_path ''m.log'' (1 + 1)) = map_of ?f (rot_path ''m.log'' 1)" by (elim conjE allE[of _ 1]) simp
  then have "map_of f' (rot_path ''m.log'' 2) = Some ''old''" by simp
  moreover have "map_of f' (rot_path ''m.log'' 1) = Some ''abc''" using t by simp
  ultimately show ?thesis using r by blast
qed

text \<open>
  If the log cannot be reopened after a rotation, the writer keeps no file: that write returns
  an error, and so does every later one, whatever the file system does by then.
\<close>

theorem failed_reopen_ends_logging:
  assumes "lw_open w" "0 < lw_max_bytes w" "lw_max_bytes w < lw_current_size w + int (length p)" "\<not> can_open env"
    and "log_write env p w f = (n, e, w', f')"
  shows "n = 0 \<and> e = Some InvalidFile \<and> (\<forall>env2 q g. log_write env2 q w' g = (0, Some LogClosed, w', g))"
proof -
  have r: "\<exists>e g. rotate_log env w f = (e, w\<lparr>lw_open := False\<rparr>, g) \<or>
      rotate_log env w f = (e, w\<lparr>lw_open := False, lw_current_size := 0\<rparr>, g)"
    using assms(4) by (auto simp: rotate_log_def Let_def openFile_def split: prod.splits)
  then obtain e' v g where v: "rotate_log env w f = (e', v, g)" "\<not> lw_open v" by auto
  with assms(1-3,5) have "n = 0" "e = Some InvalidFile" "\<not> lw_open w'"
    by (auto simp: log_write_def file_write_def Let_def)
  then show ?thesis by (simp add: log_write_def)
qed

lemma failed_reopen_ends_logging_witness:
  "\<exists>n e w' f'. log_write (all_ok\<lparr>can_open := False\<rparr>) ''de'' ex_writer [(''m.log'', ''abc'')] = (n, e, w', f') \<and>
     log_write all_ok ''x'' w' f' = (0, Some LogClosed, w', f')"
proof -
  obtain n e w' f' where l: "log_write (all_ok\<lparr>can_open := False\<rparr>) ''de'' ex_writer [(''m.log'', ''abc'')] = (n, e, w', f')"
    by (metis surj_pair)
  from failed_reopen_ends_logging[OF _ _ _ _ l] l show ?thesis by (auto simp: ex_writer_def)
qed

end
