(* ===== verification/Process_Races.thy ===== *)
theory Process_Races
  imports Process_Manager
begin

text \<open>
  The process manager with its goroutines: callers of \<open>Start\<close> and \<open>Stop\<close>, and for every
  process the goroutine that waits for it, sends the result on the wait channel, clears the manager
  under the mutex and ends. \<open>Start\<close> checks and records in two critical sections. \<open>Stop\<close>
  returns when it has received from the wait channel, so it can return between the send and the
  clearing.
\<close>

section \<open>The system\<close>

text \<open>
  A process is its number and the runtime name its goroutine captured. \<open>alive\<close> processes run;
  \<open>exited\<close> ones have ended and their goroutine is about to send; in \<open>clearing\<close> it has sent;
  \<open>buffered\<close> are the results not yet received, \<open>stops\<close> the processes some \<open>Stop\<close> waits for,
  \<open>starting\<close> the number of calls of \<open>Start\<close> past their check.
\<close>

record psys =
  ps_mgr :: manager
  ps_fs :: fs
  ps_starting :: nat
  ps_alive :: "(nat \<times> string) list"
  ps_exited :: "(nat \<times> string \<times> wait_err option) list"
  ps_buffered :: "(nat \<times> wait_err option) list"
  ps_clearing :: "(nat \<times> string \<times> wait_err option) list"
  ps_stops :: "nat list"
  ps_next :: nat

text \<open>A call of \<open>Stop\<close> that returns names the process it waited for, if it found one.\<close>

datatype pevent = StartRet "start_error + int" | StopRet "nat option" "stop_error option" | Internal

definition init_psys :: "manager \<Rightarrow> psys" where
  "init_psys m = \<lparr>ps_mgr = m, ps_fs = [], ps_starting = 0, ps_alive = [], ps_exited = [],
                  ps_buffered = [], ps_clearing = [], ps_stops = [], ps_next = 0\<rparr>"

text \<open>With \<open>serial\<close>, callers do not call \<open>Start\<close> while another call of it is running.\<close>

inductive pstep :: "bool \<Rightarrow> config \<Rightarrow> psys \<Rightarrow> pevent \<Rightarrow> psys \<Rightarrow> bool" for serial c where
  start_refused: "mg_cmd (ps_mgr s) \<noteq> None \<Longrightarrow>
    pstep serial c s (StartRet (Inl (AlreadyRunning (mg_pid (ps_mgr s))))) s"
| start_check: "\<lbrakk>mg_cmd (ps_mgr s) = None; serial \<longrightarrow> ps_starting s = 0\<rbrakk> \<Longrightarrow>
    pstep serial c s Internal (s\<lparr>ps_starting := Suc (ps_starting s)\<rparr>)"
| start_ok: "\<lbrakk>ps_starting s = Suc j; se_id env = ps_next s; launch env c n (ps_mgr s) (ps_fs s) = (Inr pid, m, f)\<rbrakk> \<Longrightarrow>
    pstep serial c s (StartRet (Inr pid))
      (s\<lparr>ps_mgr := m, ps_fs := f, ps_starting := j,
         ps_alive := ps_alive s @ [(se_id env, mg_current_runtime m)], ps_next := Suc (ps_next s)\<rparr>)"
| start_fail: "\<lbrakk>ps_starting s = Suc j; launch env c n (ps_mgr s) (ps_fs s) = (Inl e, m, f)\<rbrakk> \<Longrightarrow>
    pstep serial c s (StartRet (Inl e)) (s\<lparr>ps_mgr := m, ps_fs := f, ps_starting := j\<rparr>)"
| exit: "ps_alive s = xs @ (k, rt) # ys \<Longrightarrow>
    pstep serial c s Internal (s\<lparr>ps_alive := xs @ ys, ps_exited := (k, rt, e) # ps_exited s\<rparr>)"
| send: "ps_exited s = xs @ (k, rt, e) # ys \<Longrightarrow>
    pstep serial c s Internal (s\<lparr>ps_exited := xs @ ys, ps_buffered := (k, e) # ps_buffered s,
                         ps_clearing := (k, rt, e) # ps_clearing s\<rparr>)"
| clear: "ps_clearing s = xs @ (k, rt, e) # ys \<Longrightarrow>
    pstep serial c s Internal (s\<lparr>ps_clearing := xs @ ys, ps_mgr := reap k rt e (ps_mgr s)\<rparr>)"
| stop_idle: "mg_cmd (ps_mgr s) = None \<or> mg_pid (ps_mgr s) = 0 \<Longrightarrow> pstep serial c s (StopRet None None) s"
| stop_begin: "\<lbrakk>mg_cmd (ps_mgr s) = Some (k, cmd); mg_pid (ps_mgr s) \<noteq> 0\<rbrakk> \<Longrightarrow>
    pstep serial c s Internal (s\<lparr>ps_mgr := (ps_mgr s)\<lparr>mg_stop_requested := True\<rparr>, ps_stops := k # ps_stops s\<rparr>)"
| stop_recv: "\<lbrakk>k \<in> set (ps_stops s); ps_buffered s = xs @ (k, e) # ys;
               r = map_option StopWaitError (normalizeStopWaitErr e) \<or> r = None\<rbrakk> \<Longrightarrow>
    pstep serial c s (StopRet (Some k) r)
      (s\<lparr>ps_buffered := xs @ ys, ps_stops := remove1 k (ps_stops s)\<rparr>)"
| stop_timeout: "k \<in> set (ps_stops s) \<Longrightarrow>
    pstep serial c s (StopRet (Some k) (Some StopCtxError)) (s\<lparr>ps_stops := remove1 k (ps_stops s)\<rparr>)"

text \<open>Runs with the calls that returned, in order.\<close>

inductive pruns :: "bool \<Rightarrow> config \<Rightarrow> psys \<Rightarrow> pevent list \<Rightarrow> psys \<Rightarrow> bool" for serial c where
  none: "pruns serial c s [] s"
| more: "pruns serial c s es t \<Longrightarrow> pstep serial c t e u \<Longrightarrow>
         pruns serial c s (if e = Internal then es else es @ [e]) u"

section \<open>The invariant\<close>

text \<open>The processes that are not yet cleared, in any stage of their end.\<close>

definition stages :: "psys \<Rightarrow> nat list" where
  "stages s = map fst (ps_alive s) @ map fst (ps_exited s) @ map fst (ps_clearing s)"

definition psys_inv :: "psys \<Rightarrow> bool" where
  "psys_inv s \<longleftrightarrow>
     stages s = (case mg_cmd (ps_mgr s) of None \<Rightarrow> [] | Some (k, _) \<Rightarrow> [k]) \<and>
     (\<forall>k \<in> set (stages s). k < ps_next s) \<and>
     (\<forall>k \<in> fst ` set (ps_buffered s). k < ps_next s \<and> k \<notin> fst ` set (ps_alive s)) \<and>
     (0 < ps_starting s \<longrightarrow> mg_cmd (ps_mgr s) = None \<and> ps_starting s = 1)"

lemma init_psys_inv: "mg_cmd m = None \<Longrightarrow> psys_inv (init_psys m)"
  by (simp add: psys_inv_def init_psys_def stages_def)

lemma psys_inv_frame:
  "\<lbrakk>psys_inv s; stages t = stages s; mg_cmd (ps_mgr t) = mg_cmd (ps_mgr s); ps_next t = ps_next s;
    set (ps_buffered t) \<subseteq> set (ps_buffered s); ps_alive t = ps_alive s;
    ps_starting t \<le> ps_starting s\<rbrakk> \<Longrightarrow> psys_inv t"
  unfolding psys_inv_def by (auto simp: image_iff) (force+)?

lemma psys_inv_only:
  assumes "psys_inv s" "stages s = us @ k # vs"
  shows "us = [] \<and> vs = [] \<and> (\<exists>z. mg_cmd (ps_mgr s) = Some (k, z)) \<and> k < ps_next s \<and> ps_starting s = 0"
  using assms by (auto simp: psys_inv_def append_eq_Cons_conv split: option.splits)

lemma psys_inv_idle: "psys_inv s \<Longrightarrow> mg_cmd (ps_mgr s) = None \<Longrightarrow> stages s = []"
  by (simp add: psys_inv_def)

lemma pstep_inv: "pstep serial c s e t \<Longrightarrow> serial \<Longrightarrow> psys_inv s \<Longrightarrow> psys_inv t"
proof (induction rule: pstep.induct)
  case (start_check s)
  then show ?case by (auto simp: psys_inv_def stages_def)
next
  case (start_ok s j env n pid m f)
  then have cmd: "mg_cmd (ps_mgr s) = None" and j: "j = 0" by (auto simp: psys_inv_def)
  with psys_inv_idle[OF start_ok(5)] have "stages s = []" by blast
  with start_ok j launch_ok[OF start_ok(3)] show ?case
    by (fastforce simp: psys_inv_def stages_def)
next
  case (start_fail s j env n e m f)
  have "m = ps_mgr s" using start_fail(2) by (rule launch_error_frame)
  with start_fail(1,4) show ?case by (auto elim!: psys_inv_frame simp: stages_def)
next
  case (exit s xs k rt ys e)
  then have "stages s = map fst xs @ k # map fst ys @ map fst (ps_exited s) @ map fst (ps_clearing s)"
    by (simp add: stages_def)
  from psys_inv_only[OF exit(3) this] have "xs = []" "ys = []" "ps_exited s = []" "ps_clearing s = []"
    by simp_all
  with exit show ?case by (auto simp: psys_inv_def stages_def split: option.splits)
next
  case (send s xs k rt e ys)
  then have "stages s = (map fst (ps_alive s) @ map fst xs) @ k # map fst ys @ map fst (ps_clearing s)"
    by (simp add: stages_def)
  from psys_inv_only[OF send(3) this] have "ps_alive s = []" "xs = []" "ys = []" "ps_clearing s = []"
    by simp_all
  with send show ?case by (auto simp: psys_inv_def stages_def split: option.splits)
next
  case (clear s xs k rt e ys)
  then have "stages s = (map fst (ps_alive s) @ map fst (ps_exited s) @ map fst xs) @ k # map fst ys"
    by (simp add: stages_def)
  from psys_inv_only[OF clear(3) this] have "ps_alive s = []" "ps_exited s = []" "xs = []" "ys = []"
    "\<exists>z. mg_cmd (ps_mgr s) = Some (k, z)"
    by simp_all
  with clear show ?case by (auto simp: psys_inv_def stages_def reap_def split: option.splits)
qed (auto elim!: psys_inv_frame simp: stages_def)

lemma pruns_inv: "pruns True c s es t \<Longrightarrow> psys_inv s \<Longrightarrow> psys_inv t"
  by (induction rule: pruns.induct) (auto intro: pstep_inv)

lemma psys_inv_single: "psys_inv s \<Longrightarrow> length (ps_alive s) \<le> 1"
proof -
  assume "psys_inv s"
  then have "length (stages s) \<le> 1" by (auto simp: psys_inv_def split: option.splits)
  then show ?thesis by (simp add: stages_def)
qed

inductive_cases stop_ret_cases: "pstep serial c s (StopRet (Some k) r) t"

lemma stop_ret_received:
  "pstep serial c s (StopRet (Some k) r) t \<Longrightarrow> r \<noteq> Some StopCtxError \<Longrightarrow>
   k \<in> fst ` set (ps_buffered s) \<and> ps_alive t = ps_alive s"
  by (erule stop_ret_cases) force+

end
