(* ===== verification/Process_Properties.thy ===== *)
theory Process_Properties
  imports Process_Races Example_Config
begin

text \<open>
  The properties of the process manager: what its methods promise a caller, and what the
  interleaving with the waiting goroutine makes of them.
\<close>

section \<open>Results of the wait channel\<close>

text \<open>The calls of \<open>Stop\<close> that were answered by the wait channel of process \<open>k\<close>.\<close>

definition answered :: "nat \<Rightarrow> pevent \<Rightarrow> bool" where
  "answered k e = (case e of StopRet (Some j) r \<Rightarrow> j = k \<and> r \<noteq> Some StopCtxError | _ \<Rightarrow> False)"

definition answers :: "nat \<Rightarrow> pevent list \<Rightarrow> nat" where
  "answers k es = length (filter (answered k) es)"

definition unsent :: "psys \<Rightarrow> nat list" where
  "unsent s = map fst (ps_alive s) @ map fst (ps_exited s)"

definition tokens :: "nat \<Rightarrow> psys \<Rightarrow> nat" where
  "tokens k s = count_list (unsent s) k + count_list (map fst (ps_buffered s)) k"

definition fresh_above :: "psys \<Rightarrow> bool" where
  "fresh_above s \<longleftrightarrow> (\<forall>k. ps_next s \<le> k \<longrightarrow> tokens k s = 0)"

lemma answered_Internal [simp]: "\<not> answered k Internal" "\<not> answered k (StartRet r)" "\<not> answered k (StopRet None q)"
  by (simp_all add: answered_def)

text \<open>One result per process: it is in the process, in the channel, or received.\<close>

lemma pstep_tokens:
  "pstep serial c s e t \<Longrightarrow> ps_next s \<le> ps_next t \<and>
   tokens k t + (if answered k e then 1 else 0) \<le> tokens k s + (if ps_next s \<le> k \<and> k < ps_next t then 1 else 0)"
proof (induction rule: pstep.induct)
  case (stop_recv k' s xs e ys r)
  then show ?case by (simp add: tokens_def unsent_def answered_def)
next
  case (stop_timeout k' s)
  then show ?case by (simp add: tokens_def unsent_def answered_def)
qed (simp_all add: tokens_def unsent_def)

lemma pruns_tokens:
  "pruns serial c s es t \<Longrightarrow> s = init_psys m \<Longrightarrow>
   answers k es + tokens k t \<le> (if k < ps_next t then 1 else 0)"
proof (induction rule: pruns.induct)
  case (none s)
  then show ?case by (simp add: answers_def tokens_def unsent_def init_psys_def)
next
  case (more s es t e u)
  then have IH: "answers k es + tokens k t \<le> (if k < ps_next t then 1 else 0)" by blast
  have "answers k (if e = Internal then es else es @ [e]) = answers k es + (if answered k e then 1 else 0)"
    by (simp add: answers_def)
  with IH pstep_tokens[OF more(2), of k] show ?case by (simp split: if_splits)
qed

lemma pruns_single: "pstep serial c s e t \<Longrightarrow> e \<noteq> Internal \<Longrightarrow> pruns serial c r es s \<Longrightarrow> pruns serial c r (es @ [e]) t"
  using pruns.more[of serial c r es s e t] by simp

lemma pruns_internal: "pstep serial c s Internal t \<Longrightarrow> pruns serial c r es s \<Longrightarrow> pruns serial c r es t"
  using pruns.more[of serial c r es s Internal t] by simp

section \<open>Properties\<close>

text \<open>
  C9. When callers do not overlap their calls of \<open>Start\<close>, at most one process of a manager is
  alive at any moment, however calls of \<open>Stop\<close>, process exits and the waiting goroutines
  interleave.
\<close>

theorem one_process_per_manager:
  "\<lbrakk>mg_cmd m = None; pruns True c (init_psys m) es s\<rbrakk> \<Longrightarrow> length (ps_alive s) \<le> 1"
  by (rule psys_inv_single[OF pruns_inv[OF _ init_psys_inv]])

text \<open>Two interleavings of calls on a fresh manager of the example.\<close>

definition ex_mgr :: manager where
  "ex_mgr = NewManager ex_config"

lemma ex_mgr_sel [simp]: "mg_cmd ex_mgr = None" "mg_pid ex_mgr = 0"
  by (simp_all add: ex_mgr_def NewManager_def NewInstanceManager_def)

text \<open>After \<open>n\<close> checks and one launch.\<close>

definition ex_checked :: "nat \<Rightarrow> psys" where
  "ex_checked n = (init_psys ex_mgr)\<lparr>ps_starting := n\<rparr>"

definition ex_running :: "nat \<Rightarrow> psys" where
  "ex_running n = (init_psys ex_mgr)\<lparr>ps_mgr := ex_started 0 41 ''a'' ex_mgr, ps_starting := n,
     ps_alive := [(0, mg_current_runtime (ex_started 0 41 ''a'' ex_mgr))], ps_next := 1\<rparr>"

lemma ex_check: "serial \<longrightarrow> n = 0 \<Longrightarrow> pstep serial ex_config (ex_checked n) Internal (ex_checked (Suc n))"
  using pstep.start_check[of "ex_checked n" serial ex_config]
  by (simp add: ex_checked_def init_psys_def)

lemma ex_run_start: "pruns serial ex_config (init_psys ex_mgr) [StartRet (Inr 41)] (ex_running 0)"
proof -
  have "pruns serial ex_config (init_psys ex_mgr) [] (ex_checked 1)"
    using pruns_internal[OF ex_check[of serial 0] pruns.none] by (simp add: ex_checked_def init_psys_def)
  moreover have "pstep serial ex_config (ex_checked 1) (StartRet (Inr 41)) (ex_running 0)"
    using pstep.start_ok[of "ex_checked 1" 0 "ex_start 0 (Some 41)" ex_config "''a''" 41 "ex_started 0 41 ''a'' ex_mgr" "[]" serial]
    by (simp add: ex_checked_def ex_running_def init_psys_def ex_launch) (simp add: ex_start_def)
  ultimately show ?thesis using pruns_single[of serial ex_config "ex_checked 1"] by fastforce
qed

lemma one_process_per_manager_witness:
  "length (ps_alive (ex_running 0)) = 1 \<and> length (ps_alive (ex_running 0)) \<le> 1"
  using one_process_per_manager[OF ex_mgr_sel(1) ex_run_start] by (simp add: ex_running_def)

text \<open>
  Overlapping calls of \<open>Start\<close> defeat the check: both pass it before either records its
  process, and the manager ends with two live processes of which it knows one.
\<close>

theorem overlapping_starts_make_two:
  "\<exists>s. pruns False ex_config (init_psys ex_mgr) [StartRet (Inr 41), StartRet (Inr 42)] s \<and>
       length (ps_alive s) = 2 \<and> mg_pid (ps_mgr s) = 42"
proof -
  have "pruns False ex_config (init_psys ex_mgr) [] (ex_checked 1)"
    using pruns_internal[OF ex_check[of False 0] pruns.none] by (simp add: ex_checked_def init_psys_def)
  then have two: "pruns False ex_config (init_psys ex_mgr) [] (ex_checked 2)"
    using pruns_internal[OF ex_check[of False 1]] by (simp add: numeral_2_eq_2)
  have "pstep False ex_config (ex_checked 2) (StartRet (Inr 41)) (ex_running 1)"
    using pstep.start_ok[of "ex_checked 2" 1 "ex_start 0 (Some 41)" ex_config "''a''" 41 "ex_started 0 41 ''a'' ex_mgr" "[]" False]
    by (simp add: ex_checked_def ex_running_def init_psys_def ex_launch) (simp add: ex_start_def)
  from pruns_single[OF this _ two] have one: "pruns False ex_config (init_psys ex_mgr) [StartRet (Inr 41)] (ex_running 1)" by simp
  let ?m = "ex_started 1 42 ''a'' (ps_mgr (ex_running 1))"
  let ?t = "(ex_running 1)\<lparr>ps_mgr := ?m, ps_starting := 0,
      ps_alive := ps_alive (ex_running 1) @ [(1, mg_current_runtime ?m)], ps_next := 2\<rparr>"
  have "pstep False ex_config (ex_running 1) (StartRet (Inr 42)) ?t"
    using pstep.start_ok[of "ex_running 1" 0 "ex_start 1 (Some 42)" ex_config "''a''" 42 ?m "[]" False]
    by (simp add: ex_running_def init_psys_def ex_launch) (simp add: ex_start_def numeral_2_eq_2)
  from pruns_single[OF this _ one] have "pruns False ex_config (init_psys ex_mgr) [StartRet (Inr 41), StartRet (Inr 42)] ?t" by simp
  moreover have "length (ps_alive ?t) = 2" "mg_pid (ps_mgr ?t) = 42" by (simp_all add: ex_running_def)
  ultimately show ?thesis by blast
qed


text \<open>The example run continued: a stop begins, the process exits, its result is sent and received.\<close>

definition ex_stopping :: psys where
  "ex_stopping = (ex_running 0)\<lparr>ps_mgr := (ps_mgr (ex_running 0))\<lparr>mg_stop_requested := True\<rparr>, ps_stops := [0]\<rparr>"

definition ex_sent :: psys where
  "ex_sent = ex_stopping\<lparr>ps_alive := [], ps_buffered := [(0, None)], ps_clearing := [(0, RuntimeVLLM, None)]\<rparr>"

definition ex_received :: psys where
  "ex_received = ex_sent\<lparr>ps_buffered := [], ps_stops := []\<rparr>"

lemma ex_run_sent: "pruns serial ex_config (init_psys ex_mgr) [StartRet (Inr 41)] ex_sent"
proof -
  have "pstep serial ex_config (ex_running 0) Internal ex_stopping"
    using pstep.stop_begin[of "ex_running 0" 0 _ serial ex_config]
    by (simp add: ex_stopping_def ex_running_def init_psys_def)
  from pruns_internal[OF this ex_run_start]
  have r1: "pruns serial ex_config (init_psys ex_mgr) [StartRet (Inr 41)] ex_stopping" .
  let ?e = "ex_stopping\<lparr>ps_alive := [], ps_exited := [(0, RuntimeVLLM, None)]\<rparr>"
  have "pstep serial ex_config ex_stopping Internal ?e"
    using pstep.exit[of ex_stopping "[]" 0 RuntimeVLLM "[]" serial ex_config None]
    by (simp add: ex_stopping_def ex_running_def init_psys_def ex_started_def)
  from pruns_internal[OF this r1] have r2: "pruns serial ex_config (init_psys ex_mgr) [StartRet (Inr 41)] ?e" .
  have "pstep serial ex_config ?e Internal ex_sent"
    using pstep.send[of ?e "[]" 0 RuntimeVLLM None "[]" serial ex_config]
    by (simp add: ex_sent_def ex_stopping_def ex_running_def init_psys_def)
  from pruns_internal[OF this r2] show ?thesis .
qed

lemma ex_recv: "pstep serial ex_config ex_sent (StopRet (Some 0) None) ex_received"
  using pstep.stop_recv[of 0 ex_sent "[]" None "[]" None serial ex_config]
  by (simp add: ex_received_def ex_sent_def ex_stopping_def ex_running_def init_psys_def)


text \<open>
  \<open>Stop\<close> may return nil while the manager still names the stopped process, because the
  waiting goroutine sends its result before it clears the manager: a \<open>Start\<close> made after
  \<open>Stop\<close> has returned is then refused as already running.
\<close>

theorem start_after_stop_refused:
  "\<exists>s. pruns True ex_config (init_psys ex_mgr)
         [StartRet (Inr 41), StopRet (Some 0) None, StartRet (Inl (AlreadyRunning 41))] s"
proof -
  from pruns_single[OF ex_recv _ ex_run_sent]
  have "pruns True ex_config (init_psys ex_mgr) [StartRet (Inr 41), StopRet (Some 0) None] ex_received" by simp
  moreover have "pstep True ex_config ex_received (StartRet (Inl (AlreadyRunning 41))) ex_received"
    using pstep.start_refused[of ex_received True ex_config]
    by (simp add: ex_received_def ex_sent_def ex_stopping_def ex_running_def)
  ultimately show ?thesis using pruns_single by fastforce
qed

text \<open>
  One process answers one \<open>Stop\<close>: of all the calls that wait for it, at most one returns
  with its result, and every other one only returns when its context ends.
\<close>

theorem one_stop_is_answered:
  "pruns serial c (init_psys m) es s \<Longrightarrow> answers k es \<le> 1"
  using pruns_tokens[of serial c "init_psys m" es s m k] by (simp split: if_splits)

lemma one_stop_is_answered_witness:
  "answers 0 [StartRet (Inr 41), StopRet (Some 0) None] = 1 \<and> answers 0 [StartRet (Inr 41), StopRet (Some 0) None] \<le> 1"
  using one_stop_is_answered[of True ex_config ex_mgr "[StartRet (Inr 41), StopRet (Some 0) None]" ex_received 0]
    pruns_single[OF ex_recv _ ex_run_sent, of True] by (simp add: answers_def answered_def)

section \<open>The model check\<close>

text \<open>
  C36. The model check reads what a backend lists: for an answer with status 200 to 299 whose body has
  a list of models under \<open>data\<close>, among whatever other members, the check succeeds exactly when the
  name or the path of the model is listed, or for llama.cpp the last element of the path; otherwise
  it names the model it did not find.
\<close>

theorem model_check_reads_the_list:
  assumes "kvs = pre @ (''data'', JArr (map (model_entry before after) ids)) # post"
    and "without ''data'' pre" "without ''data'' post" "without ''id'' before" "without ''id'' after"
    and "clean (JObj kvs)" "depth (JObj kvs) \<le> 10000" "200 \<le> status" "status < 300"
  shows "VerifyModelLoaded rt (Some (status, render (JObj kvs))) name path =
    (if name \<in> set ids \<or>
        path \<noteq> '''' \<and> (path \<in> set ids \<or> rt = LlamaCppRuntime \<and> path_base path \<noteq> '''' \<and> path_base path \<in> set ids)
     then None else Some (ModelNotListed name))"
proof -
  have "decode_models (render (JObj kvs)) = Some ids"
    using decode_rendered[OF assms(6,7)] decode_page[OF assms(2-5)] assms(1) by simp
  then show ?thesis
    using assms(8,9) by (cases rt) (auto simp: VerifyModelLoaded_def list_ex_iff Let_def simp del: render.simps)
qed

lemma model_check_reads_the_list_witness:
  "VerifyModelLoaded VllmRuntime (Some (200, render (models_page [''org/a'', ''org/b'']))) ''a'' ''org/a'' = None"
proof -
  have "clean (models_page [''org/a'', ''org/b''])" "depth (models_page [''org/a'', ''org/b'']) \<le> 10000"
    by (simp_all add: models_page_def model_entry_def ascii_ok)
  with model_check_reads_the_list[of _ "[(''object'', JStr ''list'')]" "[]" "[(''object'', JStr ''model'')]"
      "[''org/a'', ''org/b'']" "[]" 200 VllmRuntime "''a''" "''org/a''", OF refl]
  show ?thesis
    by (simp add: models_page_def without_def field_is_def lower_char_def char_of_def bit_0 del: render.simps)
qed

end
