(* ===== verification/Gpu_Inventory.thy ===== *)
theory Gpu_Inventory
  imports Go_Strings
begin

text \<open>
  The GPU inventory of \<open>internal/gpu/inventory.go\<close>: parsing the CSV that
  \<open>nvidia-smi --query-gpu\<close> prints, and the query itself. What the command prints is a
  parameter of \<open>List\<close>. \<open>render_inventory\<close> is the printer the parser is proved to
  invert.
\<close>

record gpu =
  g_index :: int
  g_total_mb :: int
  g_free_mb :: int

datatype inventory_error =
    InvalidRow string
  | InvalidIndex string
  | InvalidTotal string
  | InvalidFree string
  | CommandFailed

text \<open>One iteration of the row loop after the blank lines are skipped.\<close>

definition parse_row :: "string \<Rightarrow> inventory_error + gpu" where
  "parse_row line =
     (case split_on CHR '','' line of
        p0 # p1 # p2 # _ \<Rightarrow>
          (case atoi (trim_space p0) of None \<Rightarrow> Inl (InvalidIndex line)
           | Some idx \<Rightarrow>
               (case atoi (trim_space p1) of None \<Rightarrow> Inl (InvalidTotal line)
                | Some tot \<Rightarrow>
                    (case atoi (trim_space p2) of None \<Rightarrow> Inl (InvalidFree line)
                     | Some free \<Rightarrow> Inr \<lparr>g_index = idx, g_total_mb = tot, g_free_mb = free\<rparr>)))
      | _ \<Rightarrow> Inl (InvalidRow line))"

fun parse_rows :: "gpu list \<Rightarrow> string list \<Rightarrow> inventory_error + gpu list" where
  "parse_rows gpus [] = Inr gpus"
| "parse_rows gpus (l # ls) =
     (let line = trim_space l
      in if line = '''' then parse_rows gpus ls
         else (case parse_row line of
                 Inl e \<Rightarrow> Inl e
               | Inr g \<Rightarrow> parse_rows (gpus @ [g]) ls))"

definition ParseInventoryCSV :: "string \<Rightarrow> inventory_error + gpu list" where
  "ParseInventoryCSV out0 =
     (let out = trim_space out0
      in if out = '''' then Inr []
         else map_sum (\<lambda>e. e) (sort_key g_index) (parse_rows [] (split_on (CHR 0x0A) out)))"

text \<open>\<open>output\<close> is what the command prints, \<^term>\<open>None\<close> if it fails.\<close>

definition inventory_command :: "string \<Rightarrow> string list" where
  "inventory_command binary =
     (let bin = trim_space binary
      in [if bin = '''' then ''nvidia-smi'' else bin,
          ''--query-gpu=index,memory.total,memory.free'', ''--format=csv,noheader,nounits''])"

definition List_gpus :: "(string list \<Rightarrow> string option) \<Rightarrow> string \<Rightarrow> inventory_error + gpu list" where
  "List_gpus output binary =
     (case output (inventory_command binary) of
        None \<Rightarrow> Inl CommandFailed
      | Some b \<Rightarrow> ParseInventoryCSV b)"

section \<open>The parser inverts the printer\<close>

text \<open>A row as \<open>nvidia-smi\<close> prints it, and the rows separated by line feeds.\<close>

definition render_gpu :: "gpu \<Rightarrow> string" where
  "render_gpu g = itoa (g_index g) @ '', '' @ itoa (g_total_mb g) @ '', '' @ itoa (g_free_mb g)"

definition render_inventory :: "gpu list \<Rightarrow> string" where
  "render_inventory gpus = join_with (CHR 0x0A) (map render_gpu gpus)"

definition in_int64 :: "int \<Rightarrow> bool" where
  "in_int64 i \<longleftrightarrow> min_int64 \<le> i \<and> i \<le> max_int64"

definition gpu_in_range :: "gpu \<Rightarrow> bool" where
  "gpu_in_range g \<longleftrightarrow> in_int64 (g_index g) \<and> in_int64 (g_total_mb g) \<and> in_int64 (g_free_mb g)"

lemma itoa_no_comma: "CHR '','' \<notin> set (itoa i)"
  using itoa_chars by blast

lemma itoa_no_newline: "CHR 0x0A \<notin> set (itoa i)"
proof
  assume "CHR 0x0A \<in> set (itoa i)"
  then have "visible (CHR 0x0A)" using itoa_chars by blast
  then show False by (simp add: visible_def)
qed

lemma trim_left_with_space: "trim_left_with encs (CHR '' '' # s) = trim_left_with encs s"
  by (subst trim_left_with.simps) (simp add: ascii_space_def)

lemma trim_space_blank_itoa: "trim_space (CHR '' '' # itoa i) = itoa i"
  using trim_space_itoa[of i] by (simp add: trim_space_def trim_left_with_space)

lemma parse_row_render: "gpu_in_range g \<Longrightarrow> parse_row (render_gpu g) = Inr g"
proof -
  assume r: "gpu_in_range g"
  have "split_on CHR '','' (render_gpu g) =
      [itoa (g_index g), CHR '' '' # itoa (g_total_mb g), CHR '' '' # itoa (g_free_mb g)]"
    using itoa_no_comma by (simp add: render_gpu_def split_on_append split_on_no_sep)
  then show ?thesis
    using r by (simp add: parse_row_def trim_space_blank_itoa atoi_itoa gpu_in_range_def in_int64_def)
qed

lemma render_gpu_chars:
  "render_gpu g \<noteq> []" "visible (hd (render_gpu g))" "visible (last (render_gpu g))"
  "CHR 0x0A \<notin> set (render_gpu g)"
  using itoa_chars[OF hd_in_set[OF itoa_neq_Nil]] itoa_chars[OF last_in_set[OF itoa_neq_Nil]] itoa_no_newline
  by (simp_all add: render_gpu_def)

lemma trim_space_render [simp]: "trim_space (render_gpu g) = render_gpu g"
  using render_gpu_chars by (intro trim_space_visible)

lemma parse_rows_render:
  "\<forall>g \<in> set gpus. gpu_in_range g \<Longrightarrow> parse_rows acc (map render_gpu gpus) = Inr (acc @ gpus)"
  by (induction gpus arbitrary: acc) (simp_all add: Let_def render_gpu_chars parse_row_render)

lemma join_with_ends:
  "ss \<noteq> [] \<Longrightarrow> \<forall>s \<in> set ss. s \<noteq> [] \<Longrightarrow>
   join_with c ss \<noteq> [] \<and> hd (join_with c ss) = hd (hd ss) \<and> last (join_with c ss) = last (last ss)"
  by (induction c ss rule: join_with.induct) auto

lemma parse_rows_Inr_set:
  "parse_rows acc ls = Inr gs \<Longrightarrow> set acc \<subseteq> set gs"
  by (induction acc ls rule: parse_rows.induct) (auto simp: Let_def split: if_splits sum.splits)

lemma parse_render_inventory:
  "\<forall>g \<in> set gpus. gpu_in_range g \<Longrightarrow>
   ParseInventoryCSV (render_inventory gpus) = Inr (sort_key g_index gpus)"
proof (cases "gpus = []")
  case False
  assume r: "\<forall>g \<in> set gpus. gpu_in_range g"
  let ?rows = "map render_gpu gpus"
  have ends: "join_with (CHR 0x0A) ?rows \<noteq> [] \<and>
      hd (join_with (CHR 0x0A) ?rows) = hd (render_gpu (hd gpus)) \<and>
      last (join_with (CHR 0x0A) ?rows) = last (render_gpu (last gpus))"
    using False join_with_ends[of ?rows "CHR 0x0A"] render_gpu_chars(1) by (simp add: hd_map last_map)
  then have "trim_space (render_inventory gpus) = render_inventory gpus"
    using render_gpu_chars(2,3) by (intro trim_space_visible) (simp_all add: render_inventory_def)
  moreover have "split_on (CHR 0x0A) (render_inventory gpus) = ?rows"
    unfolding render_inventory_def using False render_gpu_chars(4) by (intro split_on_join) auto
  ultimately show ?thesis
    using ends parse_rows_render[OF r, of "[]"] by (simp add: ParseInventoryCSV_def render_inventory_def Let_def)
qed (simp add: render_inventory_def ParseInventoryCSV_def trim_space_def)

section \<open>Properties\<close>

text \<open>
  C31. Whatever GPUs are printed, one row each with machine-sized numbers, parsing the output
  gives these GPUs back, in the order of their indexes.
\<close>

theorem inventory_roundtrip:
  "\<forall>g \<in> set gpus. gpu_in_range g \<Longrightarrow>
   ParseInventoryCSV (render_inventory gpus) = Inr (sort_key g_index gpus)"
  by (rule parse_render_inventory)

lemma inventory_roundtrip_witness:
  "ParseInventoryCSV (render_inventory [\<lparr>g_index = 1, g_total_mb = 24576, g_free_mb = 20000\<rparr>,
     \<lparr>g_index = 0, g_total_mb = 24576, g_free_mb = 1024\<rparr>]) =
   Inr [\<lparr>g_index = 0, g_total_mb = 24576, g_free_mb = 1024\<rparr>,
        \<lparr>g_index = 1, g_total_mb = 24576, g_free_mb = 20000\<rparr>]"
  by (subst inventory_roundtrip) (simp_all add: gpu_in_range_def in_int64_def min_int64_def max_int64_def)

end
