(* ===== verification/Router_Types.thy ===== *)
theory Router_Types
  imports Gpu_Inventory Process_Manager Inflight Ports Gpu_Power "HOL-Library.Product_Lexorder"
begin

text \<open>
  The types both routers share (\<open>internal/jukebox/coordinator.go\<close> and \<open>router.go\<close>):
  states, rejections, status reports and routes, and the errors a router can return.
\<close>

section \<open>States\<close>

datatype State = StateIdle | StateStarting | StateReady | StateStopping | StateError

fun state_string :: "State \<Rightarrow> string" where
  "state_string StateIdle = ''idle''"
| "state_string StateStarting = ''starting''"
| "state_string StateReady = ''ready''"
| "state_string StateStopping = ''stopping''"
| "state_string StateError = ''error''"

lemma UNIV_State: "UNIV = {StateIdle, StateStarting, StateReady, StateStopping, StateError}"
  using State.exhaust by auto

lemma all_State: "(\<forall>s. P s) \<longleftrightarrow> P StateIdle \<and> P StateStarting \<and> P StateReady \<and> P StateStopping \<and> P StateError"
  using State.exhaust by metis

lemma ex_State: "(\<exists>s. P s) \<longleftrightarrow> P StateIdle \<or> P StateStarting \<or> P StateReady \<or> P StateStopping \<or> P StateError"
  using State.exhaust by metis

instantiation State :: enum
begin

definition enum_State :: "State list" where
  "enum_State = [StateIdle, StateStarting, StateReady, StateStopping, StateError]"

definition enum_all_State :: "(State \<Rightarrow> bool) \<Rightarrow> bool" where
  "enum_all_State P \<longleftrightarrow> P StateIdle \<and> P StateStarting \<and> P StateReady \<and> P StateStopping \<and> P StateError"

definition enum_ex_State :: "(State \<Rightarrow> bool) \<Rightarrow> bool" where
  "enum_ex_State P \<longleftrightarrow> P StateIdle \<or> P StateStarting \<or> P StateReady \<or> P StateStopping \<or> P StateError"

instance
  by standard (simp_all only: enum_State_def enum_all_State_def enum_ex_State_def UNIV_State all_State
    ex_State list.set distinct.simps, simp_all)

end

lemma state_string_inj: "state_string s = state_string t \<longleftrightarrow> s = t"
  by (cases s; cases t) simp_all

section \<open>Rejections\<close>

datatype RejectReason =
    RejectSwapInProgress
  | RejectCooldown
  | RejectBackoff
  | RejectWaitTimeout
  | RejectPinnedConflict
  | RejectNoCapacity
  | RejectInsufficient
  | RejectMinUptime

fun reason_string :: "RejectReason \<Rightarrow> string" where
  "reason_string RejectSwapInProgress = ''in_progress''"
| "reason_string RejectCooldown = ''cooldown''"
| "reason_string RejectBackoff = ''backoff''"
| "reason_string RejectWaitTimeout = ''wait_timeout''"
| "reason_string RejectPinnedConflict = ''pinned_conflict''"
| "reason_string RejectNoCapacity = ''no_capacity''"
| "reason_string RejectInsufficient = ''insufficient_resources''"
| "reason_string RejectMinUptime = ''min_uptime''"

lemma reason_string_inj: "reason_string r = reason_string q \<longleftrightarrow> r = q"
  by (cases r; cases q) simp_all

record reject_error =
  rj_reason :: RejectReason
  rj_retry_after :: duration
  rj_message :: string

text \<open>
  \<open>time.Duration.String\<close> of the standard library: units below a second for short durations,
  hours, minutes and seconds above, a fraction without trailing zeros.
\<close>

definition pad_zeros :: "nat \<Rightarrow> string \<Rightarrow> string" where
  "pad_zeros n s = replicate (n - length s) (CHR ''0'') @ s"

definition fraction_string :: "nat \<Rightarrow> nat \<Rightarrow> string" where
  "fraction_string prec v =
     (let ds = trim_right (CHR ''0'') (pad_zeros prec (nat_str (v mod 10 ^ prec)))
      in if ds = '''' then '''' else CHR ''.'' # ds)"

definition decimal_string :: "nat \<Rightarrow> nat \<Rightarrow> string" where
  "decimal_string prec v = nat_str (v div 10 ^ prec) @ fraction_string prec v"

definition abs_duration_string :: "nat \<Rightarrow> string" where
  "abs_duration_string u =
     (if u = 0 then ''0s''
      else if u < 1000 then nat_str u @ ''ns''
      else if u < 1000000 then decimal_string 3 u @ map char_of [194, 181 :: nat] @ ''s''
      else if u < 1000000000 then decimal_string 6 u @ ''ms''
      else let secs = u div 1000000000; mins = secs div 60; hours = mins div 60;
               s = nat_str (secs mod 60) @ fraction_string 9 u @ ''s''
           in if mins = 0 then s
              else if hours = 0 then nat_str (mins mod 60) @ ''m'' @ s
              else nat_str hours @ ''h'' @ nat_str (mins mod 60) @ ''m'' @ s)"

definition duration_string :: "duration \<Rightarrow> string" where
  "duration_string d =
     (if d < 0 then CHR ''-'' # abs_duration_string (nat (- d)) else abs_duration_string (nat d))"

text \<open>\<open>(*RejectError).Error\<close>.\<close>

definition reject_text :: "reject_error \<Rightarrow> string" where
  "reject_text e =
     (if rj_message e \<noteq> '''' then rj_message e
      else if rj_retry_after e > 0
        then ''request rejected ('' @ reason_string (rj_reason e) @ ''), retry after '' @
             duration_string (rj_retry_after e)
      else ''request rejected ('' @ reason_string (rj_reason e) @ '')'')"

section \<open>Errors of a router\<close>

datatype route_error =
    Rejected reject_error
  | RouteConfig config_error
  | RouteManager mgr_error
  | RoutePower power_error
  | RouteInventory inventory_error
  | InventoryNotConfigured
  | GPUNotFound int
  | MissingSchedulerFields string
  | SchedulerConfigRequired
  | RouterNotConfigured
  | RouteCtxDone

section \<open>Status and routes\<close>

record instance_status =
  st_model :: string
  st_port :: int
  st_gpus :: "int list"
  st_pid :: int
  st_state :: State
  st_pinned :: bool
  st_draining :: bool
  st_in_flight :: int
  st_started_at :: gotime
  st_last_used_at :: gotime

record last_swap =
  ls_from :: string
  ls_to :: string
  ls_at :: gotime
  ls_duration :: duration
  ls_triggered_by :: string

record status =
  ss_state :: State
  ss_current_model :: string
  ss_in_flight :: int
  ss_pid :: int
  ss_failure_count :: int
  ss_uptime_seconds :: int
  ss_last_ready_at :: gotime
  ss_last_swap :: "last_swap option"
  ss_last_swap_at :: gotime
  ss_scheduler_busy :: bool
  ss_waiters :: "string list"
  ss_instances :: "instance_status list"

text \<open>
  A route: the URL and model of the upstream and the trackers its \<open>Done\<close> function releases.
  The number names the instance; \<^term>\<open>None\<close> is a route of the single-process router.
\<close>

record route =
  rt_base_url :: string
  rt_upstream_model :: string
  rt_instance :: "nat option"

text \<open>\<open>int64(now.Sub(t).Seconds())\<close>, not below zero.\<close>

definition uptime_seconds :: "gotime \<Rightarrow> gotime \<Rightarrow> int" where
  "uptime_seconds now t = (let u = seconds (time_sub now t) in if u < 0 then 0 else u)"

lemma uptime_seconds_nonneg: "0 \<le> uptime_seconds now t"
  by (simp add: uptime_seconds_def Let_def)

text \<open>A configured timeout, or the default of the call site.\<close>

definition timeout_or :: "duration \<Rightarrow> duration \<Rightarrow> duration" where
  "timeout_or d t = (if t \<le> 0 then d else t)"

end
