(* ===== verification/Scheduler.thy ===== *)
theory Scheduler
  imports Router_Types
begin

text \<open>
  The multi-instance router of \<open>internal/jukebox/scheduler.go\<close>. Instances are pointers in
  the code, so they live in a store and the \<open>instances\<close> map holds addresses; an instance the
  map has forgotten keeps its manager in the store. Operations are functions on the scheduler.
  What other goroutines do while an operation waits is an argument (\<open>ev_wait\<close>,
  \<open>ev_drain\<close>); what they can do is made precise in the theory about concurrency. Updates of
  the Prometheus metrics are recorded in \<open>sd_metrics\<close>, the latest first.
\<close>

section \<open>State\<close>

datatype metric =
    ScheduleRejected RejectReason
  | SwapRejected RejectReason
  | Evicted string
  | RunningSet string int bool
  | InstanceInFlight string int int
  | InFlight int

text \<open>\<open>si_stop_err\<close> is not a field of the code: it keeps the last error of \<open>mgr.Stop\<close>, which
  the code drops.\<close>

record 'm sched_inst =
  si_model :: string
  si_port :: int
  si_gpus :: "int list"
  si_pinned :: bool
  si_draining :: bool
  si_started_at :: gotime
  si_last_used_at :: gotime
  si_state :: State
  si_mgr :: "'m option"
  si_inflight :: tracker
  si_stop_err :: "mgr_error option"

record 'm scheduler =
  sd_cfg :: config
  sd_has_inventory :: bool
  sd_ports :: pool
  sd_power :: "power_world option"
  sd_busy :: bool
  sd_store :: "'m sched_inst list"
  sd_instances :: "(string, nat) gomap"
  sd_waiters :: "(string, bool) gomap"
  sd_total :: tracker
  sd_metrics :: "metric list"

text \<open>The managers' methods, the \<open>InstanceFactory\<close> and the answers of \<open>nvidia-smi\<close>.\<close>

record 'm params =
  pm_ops :: "'m mgr_ops"
  pm_new :: "int \<Rightarrow> string \<Rightarrow> 'm"
  pm_smi_ok :: "nat \<Rightarrow> bool"

definition NewScheduler :: "config \<Rightarrow> bool \<Rightarrow> pool \<Rightarrow> power_world option \<Rightarrow> 'm scheduler" where
  "NewScheduler c hasInv portPool powerMgr =
     \<lparr>sd_cfg = c, sd_has_inventory = hasInv, sd_ports = portPool, sd_power = powerMgr, sd_busy = False,
      sd_store = [], sd_instances = [], sd_waiters = [], sd_total = new_tracker, sd_metrics = []\<rparr>"

text \<open>\<open>NewSchedulerWithFactory\<close>'s default factory, on processes.\<close>

definition vllm_factory ::
  "start_env list \<Rightarrow> stop_env list \<Rightarrow> verify_env list \<Rightarrow> int \<Rightarrow> string \<Rightarrow> proc" where
  "vllm_factory starts stops verifies port cudaVisibleDevices =
     \<lparr>pr_mgr = NewInstanceManager port [(cuda_env, cudaVisibleDevices)], pr_fs = [], pr_starts = starts,
      pr_stops = stops, pr_verifies = verifies, pr_alive = False\<rparr>"

definition emit :: "metric \<Rightarrow> 'm scheduler \<Rightarrow> 'm scheduler" where
  "emit e s = s\<lparr>sd_metrics := e # sd_metrics s\<rparr>"

definition inst_at :: "'m scheduler \<Rightarrow> nat \<Rightarrow> 'm sched_inst" where
  "inst_at s a = sd_store s ! a"

definition upd_inst :: "nat \<Rightarrow> ('m sched_inst \<Rightarrow> 'm sched_inst) \<Rightarrow> 'm scheduler \<Rightarrow> 'm scheduler" where
  "upd_inst a f s = s\<lparr>sd_store := (sd_store s)[a := f (sd_store s ! a)]\<rparr>"

definition mgr_pid :: "'m params \<Rightarrow> 'm option \<Rightarrow> int" where
  "mgr_pid P m = (case m of None \<Rightarrow> 0 | Some x \<Rightarrow> op_pid (pm_ops P) x)"

text \<open>The addresses in the map, in map order.\<close>

definition live :: "'m scheduler \<Rightarrow> nat list" where
  "live s = map snd (sd_instances s)"

section \<open>Helpers\<close>

definition overlaps :: "int list \<Rightarrow> int list \<Rightarrow> bool" where
  "overlaps a b = (if a = [] \<or> b = [] then False else list_ex (\<lambda>y. y \<in> set a) b)"

definition joinInts :: "int list \<Rightarrow> string" where
  "joinInts nums = join_with CHR '','' (map itoa nums)"

definition inflightIsDrained :: "'m sched_inst \<Rightarrow> bool" where
  "inflightIsDrained inst \<longleftrightarrow> Count (si_inflight inst) = 0"

definition rejected :: "RejectReason \<Rightarrow> duration \<Rightarrow> string \<Rightarrow> route_error" where
  "rejected r after msg = Rejected \<lparr>rj_reason = r, rj_retry_after = after, rj_message = msg\<rparr>"

text \<open>\<open>%q\<close>, for text whose non-ASCII runes are printable.\<close>

definition quote_char :: "char \<Rightarrow> string" where
  "quote_char c =
     (let n = of_char c :: nat; hex = (\<lambda>d. if d < 10 then digit_char d else char_of (87 + d))
      in if n = 34 \<or> n = 92 then [CHR 0x5C, c]
         else if 7 \<le> n \<and> n \<le> 13 then [CHR 0x5C, ''abtnvfr'' ! (n - 7)]
         else if n < 32 \<or> n = 127 then [CHR 0x5C, CHR ''x'', hex (n div 16), hex (n mod 16)]
         else [c])"

definition quoted :: "string \<Rightarrow> string" where
  "quoted s = CHR 0x22 # concat (map quote_char s) @ [CHR 0x22]"

section \<open>Routing to a ready instance\<close>

text \<open>\<open>Track\<close> on the instance and on the scheduler, each with its \<open>OnChange\<close>.\<close>

definition routeForInstance ::
  "'m params \<Rightarrow> nat \<Rightarrow> string \<Rightarrow> 'm scheduler \<Rightarrow> route \<times> 'm scheduler" where
  "routeForInstance P a upstreamModel s =
     (let inst = inst_at s a;
          (t, c) = Track (si_inflight inst);
          s1 = emit (InstanceInFlight (si_model inst) (si_port inst) c) (upd_inst a (\<lambda>i. i\<lparr>si_inflight := t\<rparr>) s);
          (tot, n) = Track (sd_total s1)
      in (\<lparr>rt_base_url = op_url (pm_ops P) (the (si_mgr inst)), rt_upstream_model = upstreamModel,
           rt_instance = Some a\<rparr>,
          emit (InFlight n) (s1\<lparr>sd_total := tot\<rparr>)))"

text \<open>The first call of a route's \<open>Done\<close>; later calls do nothing (\<open>sync.Once\<close> in each tracker).\<close>

definition route_done :: "nat \<Rightarrow> 'm scheduler \<Rightarrow> 'm scheduler" where
  "route_done a s =
     (let inst = inst_at s a;
          (t, c, _) = done_body (si_inflight inst);
          s1 = emit (InstanceInFlight (si_model inst) (si_port inst) c) (upd_inst a (\<lambda>i. i\<lparr>si_inflight := t\<rparr>) s);
          (tot, n, _) = done_body (sd_total s1)
      in emit (InFlight n) (s1\<lparr>sd_total := tot\<rparr>))"

definition routable :: "'m params \<Rightarrow> 'm sched_inst \<Rightarrow> bool" where
  "routable P inst \<longleftrightarrow>
     si_state inst = StateReady \<and> \<not> si_draining inst \<and> si_mgr inst \<noteq> None \<and> mgr_pid P (si_mgr inst) \<noteq> 0"

definition tryRouteReady ::
  "'m params \<Rightarrow> gotime \<Rightarrow> string \<Rightarrow> string \<Rightarrow> 'm scheduler \<Rightarrow> route option \<times> 'm scheduler" where
  "tryRouteReady P now resolved upstreamModel s =
     (case map_of (sd_instances s) resolved of
        None \<Rightarrow> (None, s)
      | Some a \<Rightarrow>
          if \<not> routable P (inst_at s a) then (None, s)
          else let (r, s') = routeForInstance P a upstreamModel (upd_inst a (\<lambda>i. i\<lparr>si_last_used_at := now\<rparr>) s)
               in (Some r, s'))"

section \<open>The scheduling permit\<close>

datatype wait_outcome = GotPermit | TimerFired | WaitCtxDone

definition busy_message :: string where
  "busy_message = ''scheduler busy, please retry''"

text \<open>Up to the wait: an answer, or \<^term>\<open>None\<close> when the caller is now the waiter of its model.\<close>

definition permit_try :: "string \<Rightarrow> 'm scheduler \<Rightarrow> route_error option option \<times> 'm scheduler" where
  "permit_try model s =
     (if \<not> sd_busy s then (Some None, s\<lparr>sd_busy := True\<rparr>)
      else if map_of (sd_waiters s) model = Some True
        then (Some (Some (rejected RejectSwapInProgress (5 * second) busy_message)),
              emit (ScheduleRejected RejectSwapInProgress) (emit (SwapRejected RejectSwapInProgress) s))
      else (None, s\<lparr>sd_waiters := AList.update model True (sd_waiters s)\<rparr>))"

text \<open>From the end of the wait, with the deferred removal from \<open>waiters\<close>.\<close>

definition permit_settle :: "string \<Rightarrow> wait_outcome \<Rightarrow> 'm scheduler \<Rightarrow> route_error option \<times> 'm scheduler" where
  "permit_settle model w s =
     (let s' = s\<lparr>sd_waiters := AList.delete model (sd_waiters s)\<rparr>
      in case w of
           GotPermit \<Rightarrow> (None, s'\<lparr>sd_busy := True\<rparr>)
         | TimerFired \<Rightarrow> (Some (rejected RejectWaitTimeout 0 busy_message),
                         emit (ScheduleRejected RejectWaitTimeout) (emit (SwapRejected RejectWaitTimeout) s'))
         | WaitCtxDone \<Rightarrow> (Some RouteCtxDone, s'))"

definition acquireSchedulingPermitOrReject ::
  "('m scheduler \<Rightarrow> wait_outcome \<times> 'm scheduler) \<Rightarrow> string \<Rightarrow> 'm scheduler \<Rightarrow> route_error option \<times> 'm scheduler" where
  "acquireSchedulingPermitOrReject wait model s =
     (case permit_try model s of
        (Some r, s') \<Rightarrow> (r, s')
      | (None, s') \<Rightarrow> (case wait s' of (w, s'') \<Rightarrow> permit_settle model w s''))"

section \<open>GPU checks\<close>

definition ensureGPUsExist ::
  "bool \<Rightarrow> inventory_error + gpu list \<Rightarrow> int list \<Rightarrow> route_error option" where
  "ensureGPUsExist has_inv answer gpuIDs =
     (if \<not> has_inv then Some InventoryNotConfigured
      else (case answer of Inl e \<Rightarrow> Some (RouteInventory e)
            | Inr gs \<Rightarrow> first_err (\<lambda>i. fail_if (i \<notin> g_index ` set gs) (GPUNotFound i)) gpuIDs))"

definition insufficient_message :: "int \<Rightarrow> int \<Rightarrow> int \<Rightarrow> string" where
  "insufficient_message i need have_mb =
     ''insufficient free GPU memory on gpu '' @ itoa i @ '': need '' @ itoa need @ ''MB, have '' @
     itoa have_mb @ ''MB''"

text \<open>\<open>byID\<close> holds the last row of an index.\<close>

definition check_vram :: "gpu list \<Rightarrow> int \<Rightarrow> int \<Rightarrow> route_error option" where
  "check_vram gs minFreeMB i =
     (case map_of (rev (map (\<lambda>g. (g_index g, g)) gs)) i of
        None \<Rightarrow> Some (GPUNotFound i)
      | Some g \<Rightarrow> fail_if (g_free_mb g < minFreeMB)
                   (rejected RejectInsufficient 0 (insufficient_message i minFreeMB (g_free_mb g))))"

definition is_reject :: "RejectReason \<Rightarrow> route_error option \<Rightarrow> bool" where
  "is_reject r e = (case e of Some (Rejected x) \<Rightarrow> rj_reason x = r | _ \<Rightarrow> False)"

definition ensureFreeVRAM ::
  "inventory_error + gpu list \<Rightarrow> int list \<Rightarrow> int \<Rightarrow> 'm scheduler \<Rightarrow> route_error option \<times> 'm scheduler" where
  "ensureFreeVRAM answer gpuIDs minFreeMB s =
     (if \<not> sd_has_inventory s then (Some InventoryNotConfigured, s)
      else (case answer of Inl e \<Rightarrow> (Some (RouteInventory e), s)
            | Inr gs \<Rightarrow>
                let err = first_err (check_vram gs minFreeMB) gpuIDs
                in (err, if is_reject RejectInsufficient err then emit (ScheduleRejected RejectInsufficient) s else s)))"

section \<open>Draining and eviction\<close>

text \<open>
  What the calls of one scheduling operation meet: the clock at its readings, the inventory's
  answers, and what other goroutines do to the scheduler while this one waits for the permit or
  for an instance to drain.
\<close>

record 'm sched_env =
  ev_now_try :: gotime
  ev_wait :: "'m scheduler \<Rightarrow> wait_outcome \<times> 'm scheduler"
  ev_now_retry :: gotime
  ev_list_exist :: "inventory_error + gpu list"
  ev_now_evict :: gotime
  ev_drain :: "nat \<Rightarrow> 'm scheduler \<Rightarrow> 'm scheduler"
  ev_list_free :: "inventory_error + gpu list"
  ev_now_ready :: gotime

definition mark_draining :: "nat \<Rightarrow> 'm scheduler \<Rightarrow> 'm scheduler" where
  "mark_draining a = upd_inst a (\<lambda>i. i\<lparr>si_draining := True, si_state := StateStopping\<rparr>)"

text \<open>\<open>WaitForDrain\<close> under the drain timeout: its result is dropped.\<close>

definition wait_drain :: "(nat \<Rightarrow> 'm scheduler \<Rightarrow> 'm scheduler) \<Rightarrow> nat \<Rightarrow> 'm scheduler \<Rightarrow> 'm scheduler" where
  "wait_drain drain a s = (if inflightIsDrained (inst_at s a) then s else drain a s)"

definition stop_mgr :: "'m params \<Rightarrow> nat \<Rightarrow> 'm scheduler \<Rightarrow> 'm scheduler" where
  "stop_mgr P a s =
     (case si_mgr (inst_at s a) of
        None \<Rightarrow> s
      | Some m \<Rightarrow> (case op_stop (pm_ops P) m of
                     (err, m') \<Rightarrow> upd_inst a (\<lambda>i. i\<lparr>si_mgr := Some m', si_stop_err := err\<rparr>) s))"

definition revert_power :: "'m params \<Rightarrow> int list \<Rightarrow> 'm scheduler \<Rightarrow> 'm scheduler" where
  "revert_power P gpus s =
     s\<lparr>sd_power := map_option (\<lambda>w. snd (RevertModelLimits (pm_smi_ok P) gpus w)) (sd_power s)\<rparr>"

definition stop_instance ::
  "'m params \<Rightarrow> (nat \<Rightarrow> 'm scheduler \<Rightarrow> 'm scheduler) \<Rightarrow> nat \<Rightarrow> 'm scheduler \<Rightarrow> 'm scheduler" where
  "stop_instance P drain a s =
     (if si_mgr (inst_at s a) = None then s
      else let s1 = stop_mgr P a (wait_drain drain a s)
           in revert_power P (si_gpus (inst_at s1 a)) s1)"

definition release_port :: "int \<Rightarrow> 'm scheduler \<Rightarrow> 'm scheduler" where
  "release_port port s = s\<lparr>sd_ports := Release port (sd_ports s)\<rparr>"

text \<open>The gauges, the deletion from the map under the instance's model name, and the port.\<close>

definition zero_gauges :: "'m sched_inst \<Rightarrow> 'm scheduler \<Rightarrow> 'm scheduler" where
  "zero_gauges inst s =
     emit (InstanceInFlight (si_model inst) (si_port inst) 0)
       (emit (RunningSet (si_model inst) (si_port inst) False) s)"

definition forget_instance :: "bool \<Rightarrow> nat \<Rightarrow> 'm scheduler \<Rightarrow> 'm scheduler" where
  "forget_instance evicted a s =
     (let inst = inst_at s a;
          s1 = zero_gauges inst s;
          s2 = (if evicted then emit (Evicted (si_model inst)) s1 else s1);
          s3 = s2\<lparr>sd_instances := AList.delete (si_model inst) (sd_instances s2)\<rparr>
      in if si_port inst \<noteq> 0 then release_port (si_port inst) s3 else s3)"

definition drainAndStopInstance ::
  "'m params \<Rightarrow> (nat \<Rightarrow> 'm scheduler \<Rightarrow> 'm scheduler) \<Rightarrow> bool \<Rightarrow> nat \<Rightarrow> 'm scheduler \<Rightarrow> 'm scheduler" where
  "drainAndStopInstance P drain evicted a s =
     forget_instance evicted a (stop_instance P drain a (mark_draining a s))"

definition still_conflicts :: "int list \<Rightarrow> 'm scheduler \<Rightarrow> bool" where
  "still_conflicts target s \<longleftrightarrow> list_ex (\<lambda>a. overlaps (si_gpus (inst_at s a)) target) (live s)"

definition insufficient :: route_error where
  "insufficient = rejected RejectInsufficient 0 ''unable to free required GPUs for requested model''"

definition min_uptime_reject :: "duration \<Rightarrow> duration \<Rightarrow> route_error" where
  "min_uptime_reject minUptime uptime =
     (let remaining = wrap_int64 (minUptime - uptime)
      in rejected RejectMinUptime (if remaining < 0 then 0 else remaining)
           ''resources are busy (min uptime), please retry'')"

text \<open>The loop over the conflicts, and the final check after it.\<close>

fun evict_loop ::
  "'m params \<Rightarrow> (nat \<Rightarrow> 'm scheduler \<Rightarrow> 'm scheduler) \<Rightarrow> gotime \<Rightarrow> duration \<Rightarrow> int list \<Rightarrow> nat list
     \<Rightarrow> 'm scheduler \<Rightarrow> route_error option \<times> 'm scheduler" where
  "evict_loop P drain now minUptime target [] s =
     (if still_conflicts target s then (Some insufficient, emit (ScheduleRejected RejectInsufficient) s)
      else (None, s))"
| "evict_loop P drain now minUptime target (a # as) s =
     (let inst = inst_at s a; uptime = time_sub now (si_started_at inst)
      in if \<not> overlaps (si_gpus inst) target then evict_loop P drain now minUptime target as s
         else if \<not> is_zero_time (si_started_at inst) \<and> uptime < minUptime
           then (Some (min_uptime_reject minUptime uptime), emit (ScheduleRejected RejectMinUptime) s)
         else let s' = drainAndStopInstance P drain True a s
              in if \<not> still_conflicts target s' then (None, s')
                 else evict_loop P drain now minUptime target as s')"

definition min_instance_uptime :: "config \<Rightarrow> duration" where
  "min_instance_uptime c =
     (case SchedulerCfg c of None \<Rightarrow> 30 * second
      | Some sc \<Rightarrow> (case sc_min_instance_uptime sc of None \<Rightarrow> 30 * second | Some d \<Rightarrow> d))"

definition pinned_message :: "string \<Rightarrow> string" where
  "pinned_message model = ''requested model conflicts with pinned model '' @ quoted model"

definition conflicts_of :: "int list \<Rightarrow> 'm scheduler \<Rightarrow> nat list" where
  "conflicts_of target s = filter (\<lambda>a. overlaps (si_gpus (inst_at s a)) target) (live s)"

definition evictConflicts ::
  "'m params \<Rightarrow> (nat \<Rightarrow> 'm scheduler \<Rightarrow> 'm scheduler) \<Rightarrow> gotime \<Rightarrow> int list \<Rightarrow> 'm scheduler
     \<Rightarrow> route_error option \<times> 'm scheduler" where
  "evictConflicts P drain now target s =
     (let conflicts = conflicts_of target s
      in case find (\<lambda>a. si_pinned (inst_at s a)) conflicts of
           Some a \<Rightarrow> (Some (rejected RejectPinnedConflict 0 (pinned_message (si_model (inst_at s a)))),
                      emit (ScheduleRejected RejectPinnedConflict) s)
         | None \<Rightarrow> evict_loop P drain now (min_instance_uptime (sd_cfg s)) target
                     (sort_key (\<lambda>a. si_last_used_at (inst_at s a)) conflicts) s)"

section \<open>Starting an instance\<close>

definition at_capacity :: "string \<Rightarrow> scheduler_config \<Rightarrow> 'm scheduler \<Rightarrow> bool" where
  "at_capacity resolved sc s =
     (case sc_max_instances sc of None \<Rightarrow> False
      | Some n \<Rightarrow>
          let current = int (length (sd_instances s))
          in (if map_of (sd_instances s) resolved \<noteq> None then current - 1 else current) \<ge> n)"

definition new_instance :: "'m params \<Rightarrow> string \<Rightarrow> model_config \<Rightarrow> int \<Rightarrow> 'm sched_inst" where
  "new_instance P resolved mc port =
     \<lparr>si_model = resolved, si_port = port, si_gpus = mc_gpus mc, si_pinned = (mc_pinned mc = Some True),
      si_draining = False, si_started_at = 0, si_last_used_at = 0, si_state = StateStarting,
      si_mgr = Some (pm_new P port (joinInts (mc_gpus mc))), si_inflight = new_tracker,
      si_stop_err = None\<rparr>"

definition apply_power :: "'m params \<Rightarrow> model_config \<Rightarrow> 'm scheduler \<Rightarrow> route_error option \<times> 'm scheduler" where
  "apply_power P mc s =
     (case sd_power s of None \<Rightarrow> (None, s)
      | Some w \<Rightarrow>
          (case ApplyModelLimits (pm_smi_ok P) (mc_gpus mc) (mc_power_limit mc) (mc_power_limits mc) w of
             (err, w') \<Rightarrow> (map_option RoutePower err, s\<lparr>sd_power := Some w'\<rparr>)))"

definition start_mgr :: "'m params \<Rightarrow> string \<Rightarrow> nat \<Rightarrow> 'm scheduler \<Rightarrow> mgr_error option \<times> 'm scheduler" where
  "start_mgr P resolved a s =
     (case op_start (pm_ops P) resolved (the (si_mgr (inst_at s a))) of
        (r, m') \<Rightarrow> ((case r of Inl e \<Rightarrow> Some e | Inr pid \<Rightarrow> None), upd_inst a (\<lambda>i. i\<lparr>si_mgr := Some m'\<rparr>) s))"

definition verify_mgr :: "'m params \<Rightarrow> string \<Rightarrow> nat \<Rightarrow> 'm scheduler \<Rightarrow> mgr_error option \<times> 'm scheduler" where
  "verify_mgr P resolved a s =
     (case op_verify (pm_ops P) resolved (the (si_mgr (inst_at s a))) of
        (r, m') \<Rightarrow> (r, upd_inst a (\<lambda>i. i\<lparr>si_mgr := Some m'\<rparr>) s))"

text \<open>From \<open>inst.state = StateReady\<close> to the end of the critical section that puts the instance in
  the map; the result is the instance it replaces.\<close>

definition publish :: "gotime \<Rightarrow> string \<Rightarrow> nat \<Rightarrow> 'm scheduler \<Rightarrow> nat option \<times> 'm scheduler" where
  "publish now resolved a s =
     (let s1 = upd_inst a (\<lambda>i. i\<lparr>si_state := StateReady, si_started_at := now, si_last_used_at := now\<rparr>) s;
          s2 = emit (RunningSet (si_model (inst_at s1 a)) (si_port (inst_at s1 a)) True) s1;
          old = map_of (sd_instances s2) resolved;
          s3 = (case old of None \<Rightarrow> s2 | Some b \<Rightarrow> mark_draining b s2)
      in (old, s3\<lparr>sd_instances := AList.update resolved a (sd_instances s3)\<rparr>))"

definition retire_old ::
  "'m params \<Rightarrow> (nat \<Rightarrow> 'm scheduler \<Rightarrow> 'm scheduler) \<Rightarrow> nat option \<Rightarrow> 'm scheduler \<Rightarrow> 'm scheduler" where
  "retire_old P drain old s =
     (case old of
        None \<Rightarrow> s
      | Some b \<Rightarrow>
          let s1 = (if si_mgr (inst_at s b) = None then s else stop_mgr P b (wait_drain drain b s));
              inst = inst_at s1 b;
              s2 = zero_gauges inst (revert_power P (si_gpus inst) s1)
          in if si_port inst \<noteq> 0 then release_port (si_port inst) s2 else s2)"

definition launch_instance ::
  "'m params \<Rightarrow> 'm sched_env \<Rightarrow> string \<Rightarrow> model_config \<Rightarrow> int \<Rightarrow> 'm scheduler \<Rightarrow> (route_error + route) \<times> 'm scheduler" where
  "launch_instance P env resolved mc port s =
     (let a = length (sd_store s);
          s0 = s\<lparr>sd_store := sd_store s @ [new_instance P resolved mc port]\<rparr>
      in case apply_power P mc s0 of
           (Some e, s1) \<Rightarrow> (Inl e, release_port port s1)
         | (None, s1) \<Rightarrow>
             (case start_mgr P resolved a s1 of
                (Some e, s2) \<Rightarrow> (Inl (RouteManager e), revert_power P (mc_gpus mc) (release_port port s2))
              | (None, s2) \<Rightarrow>
                  (case verify_mgr P resolved a s2 of
                     (Some e, s3) \<Rightarrow>
                       (Inl (RouteManager e),
                        revert_power P (mc_gpus mc) (release_port port (stop_mgr P a s3)))
                   | (None, s3) \<Rightarrow>
                       let (old, s4) = publish (ev_now_ready env) resolved a s3;
                           (r, s5) = routeForInstance P a (mc_path mc) (retire_old P (ev_drain env) old s4)
                       in (Inr r, s5))))"

definition no_ports_message :: string where
  "no_ports_message = ''no free ports available for new instance''"

text \<open>\<open>AcquireRoute\<close> with the permit held, after the second look at the instances.\<close>

definition schedule_instance ::
  "'m params \<Rightarrow> 'm sched_env \<Rightarrow> string \<Rightarrow> model_config \<Rightarrow> 'm scheduler \<Rightarrow> (route_error + route) \<times> 'm scheduler" where
  "schedule_instance P env resolved mc s =
     (case SchedulerCfg (sd_cfg s) of
        None \<Rightarrow> (Inl SchedulerConfigRequired, s)
      | Some sc \<Rightarrow>
          (case mc_min_free_mem mc of
             None \<Rightarrow> (Inl (MissingSchedulerFields resolved), s)
           | Some minFree \<Rightarrow>
               if mc_gpus mc = [] then (Inl (MissingSchedulerFields resolved), s)
               else if at_capacity resolved sc s
                 then (Inl (rejected RejectNoCapacity (5 * second) ''scheduler at capacity''),
                       emit (ScheduleRejected RejectNoCapacity) s)
               else (case ensureGPUsExist (sd_has_inventory s) (ev_list_exist env) (mc_gpus mc) of
                       Some e \<Rightarrow> (Inl e, s)
                     | None \<Rightarrow>
               (case evictConflicts P (ev_drain env) (ev_now_evict env) (mc_gpus mc) s of
                  (Some e, s1) \<Rightarrow> (Inl e, s1)
                | (None, s1) \<Rightarrow>
               (case ensureFreeVRAM (ev_list_free env) (mc_gpus mc) minFree s1 of
                  (Some e, s2) \<Rightarrow> (Inl e, s2)
                | (None, s2) \<Rightarrow>
               (case Acquire (sd_ports s2) of
                  ((port, ok), pool) \<Rightarrow>
                    if \<not> ok
                    then (Inl (rejected RejectNoCapacity (5 * second) no_ports_message),
                          emit (ScheduleRejected RejectNoCapacity) (s2\<lparr>sd_ports := pool\<rparr>))
                    else launch_instance P env resolved mc port (s2\<lparr>sd_ports := pool\<rparr>)))))))"

definition AcquireRoute ::
  "'m params \<Rightarrow> 'm sched_env \<Rightarrow> string \<Rightarrow> 'm scheduler \<Rightarrow> (route_error + route) \<times> 'm scheduler" where
  "AcquireRoute P env requestedModel s =
     (case ResolveModel (sd_cfg s) requestedModel of
        Inl e \<Rightarrow> (Inl (RouteConfig e), s)
      | Inr (resolved, mc) \<Rightarrow>
          (case tryRouteReady P (ev_now_try env) resolved (mc_path mc) s of
             (Some r, s1) \<Rightarrow> (Inr r, s1)
           | (None, s1) \<Rightarrow>
               (case acquireSchedulingPermitOrReject (ev_wait env) resolved s1 of
                  (Some e, s2) \<Rightarrow> (Inl e, s2)
                | (None, s2) \<Rightarrow>
                    (case (case tryRouteReady P (ev_now_retry env) resolved (mc_path mc) s2 of
                             (Some r, s3) \<Rightarrow> (Inr r, s3)
                           | (None, s3) \<Rightarrow> schedule_instance P env resolved mc s3) of
                       (r, s4) \<Rightarrow> (r, s4\<lparr>sd_busy := False\<rparr>)))))"

section \<open>Stopping everything\<close>

text \<open>The permit is taken only if it is free; the result is always nil.\<close>

definition StopAll :: "'m params \<Rightarrow> (nat \<Rightarrow> 'm scheduler \<Rightarrow> 'm scheduler) \<Rightarrow> 'm scheduler \<Rightarrow> 'm scheduler" where
  "StopAll P drain s =
     (let got = (\<not> sd_busy s);
          s1 = fold (drainAndStopInstance P drain False) (live s) (s\<lparr>sd_busy := True\<rparr>)
      in if got then s1\<lparr>sd_busy := False\<rparr> else s1)"

section \<open>Status\<close>

definition instance_status_of :: "'m params \<Rightarrow> 'm sched_inst \<Rightarrow> instance_status" where
  "instance_status_of P i =
     \<lparr>st_model = si_model i, st_port = si_port i, st_gpus = si_gpus i, st_pid = mgr_pid P (si_mgr i),
      st_state = si_state i, st_pinned = si_pinned i, st_draining = si_draining i,
      st_in_flight = Count (si_inflight i), st_started_at = si_started_at i,
      st_last_used_at = si_last_used_at i\<rparr>"

definition newest_ready :: "'m sched_inst list \<Rightarrow> gotime" where
  "newest_ready insts =
     fold (\<lambda>i t. if si_state i = StateReady \<and> \<not> is_zero_time (si_started_at i) \<and> si_started_at i > t
                 then si_started_at i else t) insts 0"

definition sched_Status :: "'m params \<Rightarrow> gotime \<Rightarrow> 'm scheduler \<Rightarrow> status" where
  "sched_Status P now s =
     (let insts = map (inst_at s) (live s);
          accepting = list_ex (routable P) insts;
          st = (if accepting then StateReady else if sd_busy s then StateStarting else StateIdle);
          lastReadyAt = newest_ready insts
      in \<lparr>ss_state = st, ss_current_model = '''', ss_in_flight = Count (sd_total s), ss_pid = 0,
          ss_failure_count = 0,
          ss_uptime_seconds = (if st = StateReady \<and> \<not> is_zero_time lastReadyAt
                               then uptime_seconds now lastReadyAt else 0),
          ss_last_ready_at = lastReadyAt, ss_last_swap = None, ss_last_swap_at = 0,
          ss_scheduler_busy = sd_busy s, ss_waiters = sort (keys (sd_waiters s)),
          ss_instances = sort_key st_model (map (instance_status_of P) insts)\<rparr>)"

end
