(* ===== verification/Scheduler_Invariant.thy ===== *)
theory Scheduler_Invariant
  imports Scheduler
begin

text \<open>
  The invariant of the scheduler and its preservation by whole operations: every instance in the
  map is configured, holds a leased port of its own and shares no GPU with another one, and there
  are never more of them than the configured maximum.
\<close>

section \<open>What most steps leave alone\<close>

text \<open>The fields of an instance that never change after its creation.\<close>

definition skel :: "'m sched_inst \<Rightarrow> string \<times> int \<times> int list \<times> bool" where
  "skel i = (si_model i, si_port i, si_gpus i, si_pinned i)"

definition frame :: "'m scheduler \<Rightarrow> 'm scheduler \<Rightarrow> bool" where
  "frame s t \<longleftrightarrow>
     sd_cfg t = sd_cfg s \<and> sd_ports t = sd_ports s \<and> sd_instances t = sd_instances s \<and>
     take (length (sd_store s)) (map skel (sd_store t)) = map skel (sd_store s)"

lemma frame_refl [simp, intro]: "frame s s"
  by (simp add: frame_def)

lemma frame_length: "frame s t \<Longrightarrow> length (sd_store s) \<le> length (sd_store t)"
proof -
  assume "frame s t"
  then have "length (take (length (sd_store s)) (map skel (sd_store t))) = length (sd_store s)"
    by (simp only: frame_def length_map)
  then show ?thesis by (simp add: min_def split: if_splits)
qed

lemma frame_trans [trans]: "frame s t \<Longrightarrow> frame t u \<Longrightarrow> frame s u"
proof -
  assume a: "frame s t" "frame t u"
  then have "take (length (sd_store s)) (map skel (sd_store u)) =
      take (length (sd_store s)) (take (length (sd_store t)) (map skel (sd_store u)))"
    using frame_length[of s t] by (simp add: min_def)
  with a show ?thesis by (simp add: frame_def)
qed

lemma frame_skel:
  assumes "frame s t" "a < length (sd_store s)"
  shows "skel (inst_at t a) = skel (inst_at s a)"
proof -
  have "take (length (sd_store s)) (map skel (sd_store t)) ! a = map skel (sd_store s) ! a"
    using assms(1) by (simp add: frame_def)
  with assms(2) frame_length[OF assms(1)] show ?thesis by (simp add: inst_at_def)
qed

lemma frame_fields:
  "\<lbrakk>frame s t; a < length (sd_store s)\<rbrakk> \<Longrightarrow>
   si_model (inst_at t a) = si_model (inst_at s a) \<and> si_port (inst_at t a) = si_port (inst_at s a) \<and>
   si_gpus (inst_at t a) = si_gpus (inst_at s a) \<and> si_pinned (inst_at t a) = si_pinned (inst_at s a)"
  using frame_skel[of s t a] by (simp add: skel_def)

lemma frame_live: "frame s t \<Longrightarrow> live t = live s"
  by (simp add: frame_def live_def)

lemma map_skel_update: "(\<And>i. skel (f i) = skel i) \<Longrightarrow> map skel (xs[a := f (xs ! a)]) = map skel xs"
  by (cases "a < length xs") (simp_all add: map_update list_update_same_conv list_update_beyond)

text \<open>A frame is extended step by step.\<close>

named_theorems frame_steps \<open>single updates that stay in the frame\<close>

lemma frame_upd [frame_steps]: "\<lbrakk>\<And>i. skel (f i) = skel i; frame s t\<rbrakk> \<Longrightarrow> frame s (upd_inst a f t)"
  by (simp add: frame_def upd_inst_def map_skel_update)

lemma frame_field [frame_steps]:
  "frame s t \<Longrightarrow> frame s (emit e t)"
  "frame s t \<Longrightarrow> frame s (t\<lparr>sd_total := x\<rparr>)"
  "frame s t \<Longrightarrow> frame s (t\<lparr>sd_power := w\<rparr>)"
  "frame s t \<Longrightarrow> frame s (t\<lparr>sd_busy := b\<rparr>)"
  "frame s t \<Longrightarrow> frame s (t\<lparr>sd_waiters := v\<rparr>)"
  by (simp_all add: frame_def emit_def)

lemma frame_alloc: "frame s (s\<lparr>sd_store := sd_store s @ new\<rparr>)"
  by (simp add: frame_def)

lemma skel_updates [simp]:
  "skel (i\<lparr>si_inflight := t\<rparr>) = skel i" "skel (i\<lparr>si_last_used_at := n\<rparr>) = skel i"
  "skel (i\<lparr>si_draining := d, si_state := st\<rparr>) = skel i" "skel (i\<lparr>si_mgr := m\<rparr>) = skel i"
  "skel (i\<lparr>si_mgr := m, si_stop_err := e\<rparr>) = skel i"
  "skel (i\<lparr>si_state := st, si_started_at := n, si_last_used_at := n\<rparr>) = skel i"
  by (simp_all add: skel_def)

lemma frame_ops [frame_steps]:
  "frame s t \<Longrightarrow> frame s (mark_draining a t)"
  "frame s t \<Longrightarrow> frame s (revert_power P gs t)"
  "frame s t \<Longrightarrow> frame s (zero_gauges i t)"
  by (auto simp: mark_draining_def revert_power_def zero_gauges_def intro!: frame_steps)

lemma frame_route [frame_steps]: "frame s t \<Longrightarrow> frame s (snd (routeForInstance P a u t))"
  unfolding routeForInstance_def Let_def split_beta snd_conv by (intro frame_steps) simp_all

lemma frame_route_done: "frame s (route_done a s)"
  unfolding route_done_def Let_def split_beta by (intro frame_steps) simp_all

lemma frame_try_route: "frame s (snd (tryRouteReady P now n u s))"
  unfolding tryRouteReady_def Let_def split_beta
  by (auto split: option.splits intro!: frame_steps)

lemma frame_stop_mgr [frame_steps]: "frame s t \<Longrightarrow> frame s (stop_mgr P a t)"
  by (auto simp: stop_mgr_def split: option.splits prod.splits intro!: frame_steps)

lemma frame_permit:
  "frame s (snd (permit_try m s))" "frame s (snd (permit_settle m w s))"
  unfolding permit_try_def permit_settle_def Let_def
  by (auto split: wait_outcome.splits intro!: frame_steps)

lemma frame_calls:
  "frame s (snd (start_mgr P n a s))" "frame s (snd (verify_mgr P n a s))" "frame s (snd (apply_power P mc s))"
  by (auto simp: start_mgr_def verify_mgr_def apply_power_def split: prod.splits option.splits
           intro!: frame_steps)

text \<open>What other goroutines may do while this one holds the permit and waits.\<close>

definition quiet :: "(nat \<Rightarrow> 'm scheduler \<Rightarrow> 'm scheduler) \<Rightarrow> bool" where
  "quiet drain \<longleftrightarrow> (\<forall>a s. frame s (drain a s))"

lemma frame_wait_drain: "quiet drain \<Longrightarrow> frame s t \<Longrightarrow> frame s (wait_drain drain a t)"
  unfolding wait_drain_def quiet_def by (auto intro: frame_trans)

lemma frame_stop_instance: "quiet drain \<Longrightarrow> frame s t \<Longrightarrow> frame s (stop_instance P drain a t)"
  unfolding stop_instance_def Let_def by (auto intro!: frame_steps frame_wait_drain)

section \<open>The invariant\<close>

definition inst_ok :: "'m scheduler \<Rightarrow> string \<Rightarrow> nat \<Rightarrow> bool" where
  "inst_ok s n a \<longleftrightarrow>
     a < length (sd_store s) \<and> si_model (inst_at s a) = n \<and>
     (\<exists>mc. map_of (Models (sd_cfg s)) n = Some mc \<and> mc_gpus mc \<noteq> [] \<and>
           si_gpus (inst_at s a) = mc_gpus mc \<and> si_pinned (inst_at s a) = (mc_pinned mc = Some True))"

definition port_list :: "'m scheduler \<Rightarrow> int list" where
  "port_list s = map (\<lambda>a. si_port (inst_at s a)) (live s)"

definition below_max :: "'m scheduler \<Rightarrow> bool" where
  "below_max s \<longleftrightarrow> (\<forall>sc n. SchedulerCfg (sd_cfg s) = Some sc \<longrightarrow> sc_max_instances sc = Some n \<longrightarrow>
     int (length (sd_instances s)) \<le> n)"

definition gpus_apart :: "'m scheduler \<Rightarrow> bool" where
  "gpus_apart s \<longleftrightarrow> (\<forall>a \<in> set (live s). \<forall>b \<in> set (live s). a \<noteq> b \<longrightarrow>
     set (si_gpus (inst_at s a)) \<inter> set (si_gpus (inst_at s b)) = {})"

text \<open>\<open>ls\<close> are ports that are leased for instances not yet in the map.\<close>

definition sinv :: "int list \<Rightarrow> 'm scheduler \<Rightarrow> bool" where
  "sinv ls s \<longleftrightarrow>
     gomap_ok (sd_instances s) \<and> (\<forall>(n, a) \<in> set (sd_instances s). inst_ok s n a) \<and>
     pool_source.leases (sd_ports s) (port_list s @ ls) \<and> pool_range (sd_ports s) \<subseteq> {1..} \<and>
     gpus_apart s \<and> below_max s"

abbreviation sched_inv :: "'m scheduler \<Rightarrow> bool" where
  "sched_inv \<equiv> sinv []"

lemma entry_ok: "sinv ls s \<Longrightarrow> (n, a) \<in> set (sd_instances s) \<Longrightarrow> inst_ok s n a"
  unfolding sinv_def by blast

lemma entry_model: "sinv ls s \<Longrightarrow> (n, a) \<in> set (sd_instances s) \<Longrightarrow> si_model (inst_at s a) = n"
  using entry_ok[of ls s n a] by (simp add: inst_ok_def)

lemma live_lt: "sinv ls s \<Longrightarrow> a \<in> set (live s) \<Longrightarrow> a < length (sd_store s)"
  using entry_ok by (force simp: live_def inst_ok_def)

lemma live_iff: "sinv ls s \<Longrightarrow> a \<in> set (live s) \<longleftrightarrow> (si_model (inst_at s a), a) \<in> set (sd_instances s)"
  using entry_model by (force simp: live_def)

lemma live_distinct: "sinv ls s \<Longrightarrow> distinct (live s)"
proof -
  assume i: "sinv ls s"
  have "inj_on snd (set (sd_instances s))"
    using entry_model[OF i] by (intro inj_onI) (metis prod.collapse)
  moreover have "distinct (sd_instances s)"
    using i by (auto simp: sinv_def gomap_ok_def distinct_map)
  ultimately show ?thesis by (simp add: live_def distinct_map)
qed

lemma sinv_frame:
  assumes i: "sinv ls s" and f: "frame s t"
  shows "sinv ls t"
proof -
  have eq: "sd_cfg t = sd_cfg s" "sd_ports t = sd_ports s" "sd_instances t = sd_instances s" "live t = live s"
    using f by (auto simp: frame_def live_def)
  note fld = frame_fields[OF f live_lt[OF i]]
  have "port_list t = port_list s" using fld by (simp add: port_list_def eq)
  moreover have "gpus_apart t" using i fld by (simp add: sinv_def gpus_apart_def eq)
  moreover have "inst_ok t n a" if "(n, a) \<in> set (sd_instances s)" for n a
  proof -
    from that have "a \<in> set (live s)" by (force simp: live_def)
    with fld[OF this] frame_length[OF f] that i show ?thesis
      by (fastforce simp: sinv_def inst_ok_def eq)
  qed
  ultimately show ?thesis using i by (auto simp: sinv_def below_max_def eq)
qed


section \<open>Forgetting an instance\<close>

lemma forget_fields:
  "sd_cfg (forget_instance e a s) = sd_cfg s" "sd_store (forget_instance e a s) = sd_store s"
  "sd_busy (forget_instance e a s) = sd_busy s" "sd_power (forget_instance e a s) = sd_power s"
  "sd_has_inventory (forget_instance e a s) = sd_has_inventory s"
  "sd_instances (forget_instance e a s) = AList.delete (si_model (inst_at s a)) (sd_instances s)"
  by (simp_all add: forget_instance_def zero_gauges_def emit_def release_port_def Let_def)

lemma delete_live:
  assumes i: "sinv ls s" and a: "a \<in> set (live s)"
  shows "AList.delete (si_model (inst_at s a)) (sd_instances s) = filter (\<lambda>x. a \<noteq> snd x) (sd_instances s)"
proof -
  have m: "(si_model (inst_at s a), a) \<in> set (sd_instances s)" using i a live_iff by blast
  have d: "distinct (map fst (sd_instances s))" using i by (simp add: sinv_def gomap_ok_def)
  have "(si_model (inst_at s a) \<noteq> n) = (a \<noteq> b)" if "(n, b) \<in> set (sd_instances s)" for n b
    using that m entry_model[OF i] eq_key_imp_eq_value[OF d] by metis
  then have "(case x of (n, b) \<Rightarrow> si_model (inst_at s a) \<noteq> n) = (a \<noteq> snd x)" if "x \<in> set (sd_instances s)" for x
    using that by (cases x) (simp only: prod.case snd_conv)
  then show ?thesis unfolding AList.delete_eq by (intro filter_cong refl)
qed

lemma forget_live:
  "\<lbrakk>sinv ls s; a \<in> set (live s)\<rbrakk> \<Longrightarrow> live (forget_instance e a s) = remove1 a (live s)"
  by (simp add: live_distinct distinct_remove1_removeAll removeAll_filter_not_eq)
     (simp add: live_def forget_fields delete_live[unfolded live_def] filter_map comp_def)

lemma live_port:
  assumes i: "sinv ls s" and a: "a \<in> set (live s)"
  shows "si_port (inst_at s a) \<noteq> 0" "si_port (inst_at s a) \<in> set (port_list s)"
proof -
  show p: "si_port (inst_at s a) \<in> set (port_list s)" using a by (simp add: port_list_def)
  have "set (port_list s) \<subseteq> pool_held (sd_ports s)" "pool_inv (sd_ports s)"
    using i by (auto simp: sinv_def pool_source.leases_def)
  then show "si_port (inst_at s a) \<noteq> 0"
    using p i pool_source.held_range[of "sd_ports s"] unfolding sinv_def by fastforce
qed

lemma map_remove1_distinct: "distinct (map f xs) \<Longrightarrow> x \<in> set xs \<Longrightarrow> map f (remove1 x xs) = remove1 (f x) (map f xs)"
  by (induction xs) (auto simp: image_iff)

lemma forget_sinv:
  assumes i: "sinv ls s" and a: "a \<in> set (live s)"
  shows "sinv ls (forget_instance e a s)"
proof -
  let ?t = "forget_instance e a s"
  have at: "inst_at ?t = inst_at s" by (simp add: fun_eq_iff inst_at_def forget_fields)
  have ports: "sd_ports ?t = Release (si_port (inst_at s a)) (sd_ports s)"
    using live_port[OF i a] by (simp add: forget_instance_def zero_gauges_def emit_def release_port_def Let_def)
  have l: "pool_source.leases (sd_ports s) (port_list s @ ls)" using i by (simp add: sinv_def)
  then have "distinct (port_list s)" by (simp add: pool_source.leases_def)
  then have "port_list ?t = remove1 (si_port (inst_at s a)) (port_list s)"
    using map_remove1_distinct[OF _ a, of "\<lambda>b. si_port (inst_at s b)"]
    by (simp add: port_list_def at forget_live[OF i a])
  then have leases: "pool_source.leases (sd_ports ?t) (port_list ?t @ ls)"
    using pool_source.leases_release[OF l, of "si_port (inst_at s a)"] live_port(2)[OF i a]
    by (simp add: ports remove1_append)
  have range: "pool_range (sd_ports ?t) \<subseteq> {1..}"
    using i pool_source.release_held[of "sd_ports s"] l
    by (auto simp: ports sinv_def pool_source.leases_def)
  have "set (live ?t) \<subseteq> set (live s)" by (simp add: forget_live[OF i a] set_remove1_subset)
  then have apart: "gpus_apart ?t" using i unfolding sinv_def gpus_apart_def at by blast
  have sub: "set (sd_instances ?t) \<subseteq> set (sd_instances s)" "length (sd_instances ?t) \<le> length (sd_instances s)"
    by (auto simp: forget_fields AList.delete_eq)
  then have "inst_ok ?t n b" if "(n, b) \<in> set (sd_instances ?t)" for n b
    using entry_ok[OF i, of n b] that by (auto simp: inst_ok_def at forget_fields)
  moreover have "below_max ?t"
    using i sub(2) by (fastforce simp: sinv_def below_max_def forget_fields)
  ultimately show ?thesis
    using leases range apart i by (auto simp: sinv_def forget_fields)
qed

lemma drain_stop:
  assumes q: "quiet drain" and i: "sinv ls s" and a: "a \<in> set (live s)"
  shows "sinv ls (drainAndStopInstance P drain e a s)"
    and "live (drainAndStopInstance P drain e a s) = remove1 a (live s)"
    and "b < length (sd_store s) \<Longrightarrow>
         skel (inst_at (drainAndStopInstance P drain e a s) b) = skel (inst_at s b)"
proof -
  let ?u = "stop_instance P drain a (mark_draining a s)"
  have f: "frame s ?u" using q by (intro frame_stop_instance frame_steps frame_refl)
  then have iu: "sinv ls ?u" and au: "a \<in> set (live ?u)"
    using i a by (auto intro: sinv_frame simp: frame_live)
  show "sinv ls (drainAndStopInstance P drain e a s)"
    unfolding drainAndStopInstance_def by (rule forget_sinv[OF iu au])
  show "live (drainAndStopInstance P drain e a s) = remove1 a (live s)"
    unfolding drainAndStopInstance_def by (simp add: forget_live[OF iu au] frame_live[OF f])
  show "skel (inst_at (drainAndStopInstance P drain e a s) b) = skel (inst_at s b)" if "b < length (sd_store s)"
    unfolding drainAndStopInstance_def using frame_skel[OF f that] by (simp add: inst_at_def forget_fields)
qed

lemma drain_stop_rest:
  assumes q: "quiet drain"
  shows "sd_cfg (drainAndStopInstance P drain e a s) = sd_cfg s"
    and "length (sd_store s) \<le> length (sd_store (drainAndStopInstance P drain e a s))"
proof -
  have f: "frame s (stop_instance P drain a (mark_draining a s))"
    using q by (intro frame_stop_instance frame_steps frame_refl)
  then show "sd_cfg (drainAndStopInstance P drain e a s) = sd_cfg s"
    by (simp add: drainAndStopInstance_def forget_fields frame_def)
  show "length (sd_store s) \<le> length (sd_store (drainAndStopInstance P drain e a s))"
    using frame_length[OF f] by (simp add: drainAndStopInstance_def forget_fields)
qed

section \<open>Evicting\<close>

text \<open>From \<open>s\<close> to \<open>t\<close>, only instances of \<open>K\<close> left the map, and none came.\<close>

definition evicts :: "int list \<Rightarrow> nat set \<Rightarrow> 'm scheduler \<Rightarrow> 'm scheduler \<Rightarrow> bool" where
  "evicts ls K s t \<longleftrightarrow>
     sinv ls t \<and> set (live t) \<subseteq> set (live s) \<and> set (live s) - K \<subseteq> set (live t) \<and>
     sd_cfg t = sd_cfg s \<and> length (sd_store s) \<le> length (sd_store t) \<and>
     (\<forall>b < length (sd_store s). skel (inst_at t b) = skel (inst_at s b))"

lemma evicts_refl: "sinv ls s \<Longrightarrow> evicts ls K s s"
  by (simp add: evicts_def)

lemma evicts_trans:
  assumes st: "evicts ls K s t" and tu: "evicts ls K' t u"
  shows "evicts ls (K \<union> K') s u"
proof -
  have "set (live s) - (K \<union> K') \<subseteq> set (live u)" using st tu unfolding evicts_def by blast
  moreover have "set (live u) \<subseteq> set (live s)" using st tu unfolding evicts_def by blast
  moreover have "skel (inst_at u b) = skel (inst_at s b)" if "b < length (sd_store s)" for b
    using st tu that by (simp add: evicts_def)
  ultimately show ?thesis using st tu by (simp add: evicts_def)
qed

lemma evicts_frame:
  assumes e: "evicts ls K s t" and f: "frame t u"
  shows "evicts ls K s u"
proof -
  have "sd_cfg u = sd_cfg t" using f by (simp add: frame_def)
  then show ?thesis
    using e sinv_frame[OF _ f] frame_live[OF f] frame_length[OF f] frame_skel[OF f]
    by (auto simp: evicts_def)
qed

lemma evicts_mono: "\<lbrakk>evicts ls K s t; K \<subseteq> K'\<rbrakk> \<Longrightarrow> evicts ls K' s t"
  unfolding evicts_def by blast

lemma drain_stop_evicts:
  assumes "quiet drain" "sinv ls s" "a \<in> set (live s)"
  shows "evicts ls {a} s (drainAndStopInstance P drain e a s)"
  using drain_stop[OF assms] drain_stop_rest[OF assms(1)] live_distinct[OF assms(2)]
  unfolding evicts_def by auto

lemma evict_loop_evicts:
  "\<lbrakk>quiet drain; sinv ls s; distinct as; set as \<subseteq> set (live s);
    evict_loop P drain now m target as s = (r, t)\<rbrakk> \<Longrightarrow>
   evicts ls (set as) s t \<and> (r = None \<longrightarrow> \<not> still_conflicts target t)"
proof (induction P drain now m target as s arbitrary: r t rule: evict_loop.induct)
  case (1 P drain now m target s)
  then show ?case by (auto intro: evicts_refl evicts_frame frame_steps split: if_splits)
next
  case (2 P drain now m target a as s)
  note IH = "2.IH"[OF refl refl]
  note pre = "2.prems"(1-4)
  let ?inst = "inst_at s a"
  let ?s' = "drainAndStopInstance P drain True a s"
  have ev: "evicts ls {a} s ?s'" using pre by (intro drain_stop_evicts) auto
  consider (skip) "\<not> overlaps (si_gpus ?inst) target"
    | (young) "overlaps (si_gpus ?inst) target"
        "\<not> is_zero_time (si_started_at ?inst) \<and> time_sub now (si_started_at ?inst) < m"
    | (evict) "overlaps (si_gpus ?inst) target"
        "\<not> (\<not> is_zero_time (si_started_at ?inst) \<and> time_sub now (si_started_at ?inst) < m)"
    by blast
  then show ?case
  proof cases
    case skip
    with "2.prems"(5) have "evict_loop P drain now m target as s = (r, t)" by simp
    with IH(1)[OF skip] pre have "evicts ls (set as) s t \<and> (r = None \<longrightarrow> \<not> still_conflicts target t)" by auto
    then show ?thesis by (auto elim: evicts_mono)
  next
    case young
    with "2.prems"(5) have "t = emit (ScheduleRejected RejectMinUptime) s" "r \<noteq> None" by (auto simp: Let_def)
    with evicts_refl[OF pre(2)] show ?thesis by (auto intro: evicts_frame frame_steps)
  next
    case evict
    show ?thesis
    proof (cases "still_conflicts target ?s'")
      case False
      with "2.prems"(5) evict have "t = ?s'" "r = None" by (auto simp: Let_def)
      with ev False show ?thesis by (auto elim: evicts_mono)
    next
      case True
      with "2.prems"(5) evict have loop: "evict_loop P drain now m target as ?s' = (r, t)"
        by (auto simp: Let_def)
      have "set as \<subseteq> set (live ?s')" "sinv ls ?s'" "distinct as"
        using pre ev by (auto simp: evicts_def)
      with IH(2)[OF _ evict(2) refl] loop pre(1) evict(1) True
      have "evicts ls (set as) ?s' t \<and> (r = None \<longrightarrow> \<not> still_conflicts target t)" by auto
      with evicts_trans[OF ev] show ?thesis by auto
    qed
  qed
qed

lemma evictConflicts_evicts:
  assumes q: "quiet drain" and i: "sinv ls s" and e: "evictConflicts P drain now target s = (r, t)"
  shows "evicts ls {a \<in> set (live s). \<not> si_pinned (inst_at s a) \<and> overlaps (si_gpus (inst_at s a)) target} s t"
    and "r = None \<Longrightarrow> \<not> still_conflicts target t"
proof -
  let ?c = "conflicts_of target s"
  let ?K = "{a \<in> set (live s). \<not> si_pinned (inst_at s a) \<and> overlaps (si_gpus (inst_at s a)) target}"
  have "evicts ls ?K s t \<and> (r = None \<longrightarrow> \<not> still_conflicts target t)"
  proof (cases "find (\<lambda>a. si_pinned (inst_at s a)) ?c")
    case (Some a)
    with e have "r \<noteq> None" "t = emit (ScheduleRejected RejectPinnedConflict) s"
      by (auto simp: evictConflicts_def)
    with evicts_refl[OF i] show ?thesis by (auto intro: evicts_frame frame_steps)
  next
    case None
    let ?as = "sort_key (\<lambda>a. si_last_used_at (inst_at s a)) ?c"
    have "set ?c \<subseteq> ?K" using None by (auto simp: find_None_iff conflicts_of_def)
    moreover have "distinct ?as" "set ?as \<subseteq> set (live s)"
      using live_distinct[OF i] by (auto simp: conflicts_of_def)
    moreover from None e have "evict_loop P drain now (min_instance_uptime (sd_cfg s)) target ?as s = (r, t)"
      by (simp add: evictConflicts_def)
    ultimately have "evicts ls (set ?as) s t \<and> (r = None \<longrightarrow> \<not> still_conflicts target t)" "set ?as \<subseteq> ?K"
      using evict_loop_evicts[OF q i, of ?as] by auto
    then show ?thesis using evicts_mono by blast
  qed
  then show "evicts ls ?K s t" "r = None \<Longrightarrow> \<not> still_conflicts target t" by auto
qed

section \<open>Leases and publication\<close>

lemma overlaps_iff: "overlaps a b \<longleftrightarrow> set a \<inter> set b \<noteq> {}"
  by (auto simp: overlaps_def list_ex_iff)

lemma still_conflicts_iff:
  "still_conflicts target s \<longleftrightarrow> (\<exists>a \<in> set (live s). set (si_gpus (inst_at s a)) \<inter> set target \<noteq> {})"
  by (auto simp: still_conflicts_def list_ex_iff overlaps_iff)

lemma leases_reorder:
  "\<lbrakk>pool_source.leases p xs; distinct ys; set ys = set xs\<rbrakk> \<Longrightarrow> pool_source.leases p ys"
  by (simp add: pool_source.leases_def)

lemma sinv_leases: "sinv ls s \<Longrightarrow> pool_source.leases (sd_ports s) (port_list s @ ls)"
  by (simp add: sinv_def)

lemma sinv_ports_update:
  "\<lbrakk>sinv ls s; pool_source.leases pool (port_list s @ ls'); pool_range pool = pool_range (sd_ports s)\<rbrakk> \<Longrightarrow>
   sinv ls' (s\<lparr>sd_ports := pool\<rparr>)"
  by (auto simp: sinv_def inst_ok_def inst_at_def port_list_def live_def gpus_apart_def below_max_def)

lemma sinv_acquire:
  assumes i: "sinv ls s" and a: "Acquire (sd_ports s) = ((port, True), pool)"
  shows "sinv (port # ls) (s\<lparr>sd_ports := pool\<rparr>)"
proof (rule sinv_ports_update[OF i])
  have l: "pool_source.leases pool (port # port_list s @ ls)"
    using pool_source.leases_acquire[OF sinv_leases[OF i] a] by simp
  then show "pool_source.leases pool (port_list s @ port # ls)"
    by (rule leases_reorder) (use l in \<open>auto simp: pool_source.leases_def\<close>)
  show "pool_range pool = pool_range (sd_ports s)"
    using pool_source.acquire_ok[OF pool_source.leases_inv[OF sinv_leases[OF i]] a] by simp
qed

lemma sinv_release:
  assumes i: "sinv (port # ls) s"
  shows "sinv ls (release_port port s)"
  unfolding release_port_def
proof (rule sinv_ports_update[OF i])
  have d: "distinct (port_list s @ port # ls)" using sinv_leases[OF i] by (simp add: pool_source.leases_def)
  show "pool_source.leases (Release port (sd_ports s)) (port_list s @ ls)"
    using pool_source.leases_release[OF sinv_leases[OF i], of port] d by (simp add: remove1_append)
  show "pool_range (Release port (sd_ports s)) = pool_range (sd_ports s)"
    using pool_source.release_held pool_source.leases_inv[OF sinv_leases[OF i]] by blast
qed

lemma update_new_key: "map_of m k = None \<Longrightarrow> AList.update k v m = m @ [(k, v)]"
  by (induction m) (auto split: if_splits)

definition room :: "'m scheduler \<Rightarrow> bool" where
  "room s \<longleftrightarrow> (\<forall>sc n. SchedulerCfg (sd_cfg s) = Some sc \<longrightarrow> sc_max_instances sc = Some n \<longrightarrow>
     int (length (sd_instances s)) < n)"

lemma publish_fields:
  assumes "map_of (sd_instances s) resolved = None"
  shows "fst (publish now resolved a s) = None"
    "sd_instances (snd (publish now resolved a s)) = sd_instances s @ [(resolved, a)]"
    "sd_cfg (snd (publish now resolved a s)) = sd_cfg s" "sd_ports (snd (publish now resolved a s)) = sd_ports s"
    "sd_store (snd (publish now resolved a s)) =
       (sd_store s)[a := (inst_at s a)\<lparr>si_state := StateReady, si_started_at := now, si_last_used_at := now\<rparr>]"
  using assms by (simp_all add: publish_def Let_def emit_def upd_inst_def inst_at_def update_new_key)

lemma sinv_publish:
  assumes i: "sinv (port # ls) s" and a: "a < length (sd_store s)"
    and new: "skel (inst_at s a) = (resolved, port, mc_gpus mc, mc_pinned mc = Some True)"
    and mc: "map_of (Models (sd_cfg s)) resolved = Some mc" "mc_gpus mc \<noteq> []"
    and none: "map_of (sd_instances s) resolved = None"
    and free: "\<not> still_conflicts (mc_gpus mc) s" and room: "room s"
  shows "sinv ls (snd (publish now resolved a s))"
proof -
  let ?t = "snd (publish now resolved a s)"
  note f = publish_fields[OF none, of now a]
  have eq: "si_model (inst_at ?t b) = si_model (inst_at s b)" "si_port (inst_at ?t b) = si_port (inst_at s b)"
    "si_gpus (inst_at ?t b) = si_gpus (inst_at s b)" "si_pinned (inst_at ?t b) = si_pinned (inst_at s b)" for b
    using a by (simp_all add: inst_at_def nth_list_update f(5))
  have live: "live ?t = live s @ [a]" by (simp add: live_def f)
  have na: "a \<notin> set (live s)"
  proof
    assume "a \<in> set (live s)"
    then have "(resolved, a) \<in> set (sd_instances s)" using live_iff[OF i, of a] new by (simp add: skel_def)
    with none show False by (force simp: map_of_eq_None_iff)
  qed
  have "port_list ?t = port_list s @ [port]" using new by (simp add: port_list_def live eq skel_def)
  then have leases: "pool_source.leases (sd_ports ?t) (port_list ?t @ ls)"
    using sinv_leases[OF i] by (simp add: f)
  have apart: "gpus_apart ?t"
    using i free new na unfolding gpus_apart_def live sinv_def still_conflicts_iff eq by (auto simp: skel_def)
  have "inst_ok ?t n b" if "(n, b) \<in> set (sd_instances ?t)" for n b
    using that entry_ok[OF i, of n b] a new mc by (auto simp: f inst_ok_def eq skel_def)
  moreover have "gomap_ok (sd_instances ?t)"
    using i none by (auto simp: f sinv_def gomap_ok_def map_of_eq_None_iff)
  moreover have "below_max ?t" using room by (auto simp: below_max_def room_def f)
  ultimately show ?thesis using leases apart i by (auto simp: sinv_def f)
qed

lemma evicted_own:
  assumes i: "sinv ls s" and free: "\<not> still_conflicts (mc_gpus mc) s"
    and mc: "map_of (Models (sd_cfg s)) resolved = Some mc" "mc_gpus mc \<noteq> []"
  shows "map_of (sd_instances s) resolved = None"
proof (rule ccontr)
  assume "map_of (sd_instances s) resolved \<noteq> None"
  then obtain a where a: "(resolved, a) \<in> set (sd_instances s)" by (auto dest: map_of_SomeD)
  with entry_ok[OF i a] mc have "si_gpus (inst_at s a) = mc_gpus mc" by (auto simp: inst_ok_def)
  moreover from a have "a \<in> set (live s)" by (force simp: live_def)
  ultimately have "still_conflicts (mc_gpus mc) s"
    using mc(2) unfolding still_conflicts_iff by (intro bexI[of _ a]) auto
  with free show False by blast
qed

lemma evicts_length:
  assumes e: "evicts ls K s t" and i: "sinv ls s"
  shows "length (sd_instances t) + card (set (live s) - set (live t)) = length (sd_instances s)"
proof -
  have len: "length (sd_instances u) = card (set (live u))" if "sinv ls u" for u :: "'a scheduler"
    using distinct_card[OF live_distinct[OF that]] by (simp add: live_def)
  have "sinv ls t" "set (live t) \<subseteq> set (live s)" using e by (auto simp: evicts_def)
  then show ?thesis
    using len[of s] len[of t] i card_mono[of "set (live s)" "set (live t)"]
    by (simp add: card_Diff_subset)
qed

lemma room_after_eviction:
  assumes e: "evicts ls K s t" and i: "sinv ls s" and sc: "SchedulerCfg (sd_cfg s) = Some sc"
    and cap: "\<not> at_capacity resolved sc s" and none: "map_of (sd_instances t) resolved = None"
  shows "room t"
proof -
  have cfg: "sd_cfg t = sd_cfg s" using e by (simp add: evicts_def)
  have "int (length (sd_instances t)) < n" if "sc_max_instances sc = Some n" for n
  proof (cases "map_of (sd_instances s) resolved")
    case None
    with cap that evicts_length[OF e i] show ?thesis by (simp add: at_capacity_def)
  next
    case (Some a)
    then have "a \<in> set (live s)" "si_model (inst_at s a) = resolved" "a < length (sd_store s)"
      using entry_ok[OF i map_of_SomeD] by (force simp: live_def inst_ok_def dest: map_of_SomeD)+
    moreover have "a \<notin> set (live t)"
    proof
      assume "a \<in> set (live t)"
      moreover have "sinv ls t" "si_model (inst_at t a) = resolved"
        using e \<open>a < _\<close> \<open>si_model _ = _\<close> by (auto simp: evicts_def skel_def)
      ultimately have "(resolved, a) \<in> set (sd_instances t)" using live_iff by metis
      with none show False by (force simp: map_of_eq_None_iff)
    qed
    ultimately have "0 < card (set (live s) - set (live t))" by (auto simp: card_gt_0_iff)
    moreover have "int (length (sd_instances s)) - 1 < n" using cap that Some by (simp add: at_capacity_def)
    ultimately show ?thesis using evicts_length[OF e i] by linarith
  qed
  then show ?thesis using sc by (simp add: room_def cfg)
qed

section \<open>Launching\<close>

lemma frame_still: "\<lbrakk>frame s t; sinv ls s\<rbrakk> \<Longrightarrow> still_conflicts target t = still_conflicts target s"
  using frame_fields[of s t] live_lt[of ls s] by (simp add: still_conflicts_iff frame_live)

lemma frame_room: "frame s t \<Longrightarrow> room t = room s"
  by (simp add: frame_def room_def)

lemma skel_new: "skel (new_instance P resolved mc port) = (resolved, port, mc_gpus mc, mc_pinned mc = Some True)"
  by (simp add: skel_def new_instance_def)

text \<open>What a successful launch leaves: the new instance, ready, in the map, with one route.\<close>

definition serves :: "string \<Rightarrow> route \<Rightarrow> 'm scheduler \<Rightarrow> bool" where
  "serves resolved rt t \<longleftrightarrow>
     (\<exists>a. rt_instance rt = Some a \<and> a < length (sd_store t) \<and> map_of (sd_instances t) resolved = Some a \<and>
          si_state (inst_at t a) = StateReady \<and> \<not> si_draining (inst_at t a))"

lemma route_serves:
  assumes "a < length (sd_store s)" "map_of (sd_instances s) resolved = Some a"
    "si_state (inst_at s a) = StateReady" "\<not> si_draining (inst_at s a)"
  shows "serves resolved (fst (routeForInstance P a u s)) (snd (routeForInstance P a u s))"
  using assms by (simp add: serves_def routeForInstance_def Let_def split_beta emit_def upd_inst_def inst_at_def)

lemma launch_failure:
  assumes "sinv [port] s" "frame s t"
  shows "sinv [] (release_port port t)" "live (release_port port t) = live s"
    "length (sd_store s) \<le> length (sd_store (release_port port t))" "sd_cfg (release_port port t) = sd_cfg s"
    "b < length (sd_store s) \<Longrightarrow> skel (inst_at (release_port port t) b) = skel (inst_at s b)"
  using sinv_release[OF sinv_frame[OF assms]] frame_live[OF assms(2)] frame_length[OF assms(2)]
    frame_skel[OF assms(2)] assms(2)
  by (simp_all add: release_port_def live_def inst_at_def frame_def)

lemma launch_fail_evicts:
  assumes "sinv [port] s" "frame s t" "frame (release_port port t) u"
  shows "evicts [] K s u"
proof -
  have "evicts [] K s (release_port port t)"
    using launch_failure[OF assms(1,2)] by (simp add: evicts_def)
  then show ?thesis by (rule evicts_frame[OF _ assms(3)])
qed

lemma launch_inv:
  assumes q: "quiet (ev_drain env)" and i: "sinv [port] s"
    and mc: "map_of (Models (sd_cfg s)) resolved = Some mc" "mc_gpus mc \<noteq> []"
    and none: "map_of (sd_instances s) resolved = None"
    and free: "\<not> still_conflicts (mc_gpus mc) s" and room: "room s"
    and l: "launch_instance P env resolved mc port s = (r, t)"
  shows "(\<exists>e. r = Inl e) \<and> evicts [] {} s t \<or>
         (\<exists>rt. r = Inr rt \<and> sched_inv t \<and> live t = live s @ [length (sd_store s)] \<and> serves resolved rt t)"
proof -
  let ?a = "length (sd_store s)"
  let ?s0 = "s\<lparr>sd_store := sd_store s @ [new_instance P resolved mc port]\<rparr>"
  have f0: "frame s ?s0" by (rule frame_alloc)
  obtain p s1 where p: "apply_power P mc ?s0 = (p, s1)" by fastforce
  obtain e2 s2 where s2: "start_mgr P resolved ?a s1 = (e2, s2)" by fastforce
  obtain e3 s3 where s3: "verify_mgr P resolved ?a s2 = (e3, s3)" by fastforce
  have f1: "frame ?s0 s1" "frame s1 s2" "frame s2 s3"
    using frame_calls(3)[of ?s0 P mc] frame_calls(1)[of s1 P resolved ?a] frame_calls(2)[of s2 P resolved ?a]
    by (simp_all add: p s2 s3)
  have f: "frame s s1" "frame s s2" "frame s s3" "frame ?s0 s3"
    using f0 f1 frame_trans by blast+
  show ?thesis
  proof (cases "p = None \<and> e2 = None \<and> e3 = None")
    case False
    then consider "p \<noteq> None" | "p = None" "e2 \<noteq> None" | "p = None" "e2 = None" "e3 \<noteq> None" by metis
    then have "(\<exists>e. r = Inl e) \<and> (\<exists>u. frame s u \<and> frame (release_port port u) t)"
    proof cases
      case 1
      with l f(1) show ?thesis by (auto simp: launch_instance_def Let_def p intro!: exI[of _ s1])
    next
      case 2
      with l f(2) show ?thesis
        by (auto simp: launch_instance_def Let_def p s2 intro!: exI[of _ s2] frame_steps)
    next
      case 3
      with l f(3) show ?thesis
        by (auto simp: launch_instance_def Let_def p s2 s3 intro!: exI[of _ "stop_mgr P ?a s3"] frame_steps)
    qed
    with launch_fail_evicts[OF i] show ?thesis by blast
  next
    case True
    let ?s4 = "snd (publish (ev_now_ready env) resolved ?a s3)"
    have a3: "?a < length (sd_store s3)" using frame_length[OF f(4)] by simp
    have none3: "map_of (sd_instances s3) resolved = None" using f(3) none by (simp add: frame_def)
    have sk: "skel (inst_at s3 ?a) = (resolved, port, mc_gpus mc, mc_pinned mc = Some True)"
      using frame_skel[OF f(4), of ?a] by (simp add: inst_at_def skel_new)
    have mc3: "map_of (Models (sd_cfg s3)) resolved = Some mc" using f(3) mc(1) by (simp add: frame_def)
    note pf = publish_fields[OF none3, of "ev_now_ready env" ?a]
    have i4: "sched_inv ?s4"
      using sinv_publish[OF sinv_frame[OF i f(3)] a3 sk mc3 mc(2) none3] free room
      by (simp add: frame_still[OF f(3) i] frame_room[OF f(3)])
    have draining: "\<not> si_draining (inst_at s3 ?a)"
      using p s2 s3 by (auto simp: apply_power_def start_mgr_def verify_mgr_def upd_inst_def inst_at_def
        new_instance_def nth_append split: option.splits prod.splits)
    have res: "(r, t) = (Inr (fst (routeForInstance P ?a (mc_path mc) ?s4)), snd (routeForInstance P ?a (mc_path mc) ?s4))"
      using l True pf(1) by (simp add: launch_instance_def Let_def p s2 s3 split_beta retire_old_def)
    moreover have "sched_inv t" "live t = live s @ [?a]"
      using res sinv_frame[OF i4] frame_route[OF frame_refl, of ?s4 P ?a "mc_path mc"] frame_live[of ?s4]
        frame_live[OF f(3)] by (simp_all add: live_def pf)
    moreover have "serves resolved (fst (routeForInstance P ?a (mc_path mc) ?s4)) (snd (routeForInstance P ?a (mc_path mc) ?s4))"
      using a3 none3 draining by (intro route_serves) (simp_all add: pf inst_at_def map_add_Some_iff)
    ultimately show ?thesis by auto
  qed
qed

section \<open>Whole operations\<close>

text \<open>
  What scheduling may do to the map: instances that are not pinned and overlap the target may
  leave, and on success the new one comes.
\<close>

definition evictable :: "int list \<Rightarrow> 'm scheduler \<Rightarrow> nat set" where
  "evictable target s = {a \<in> set (live s). \<not> si_pinned (inst_at s a) \<and> overlaps (si_gpus (inst_at s a)) target}"

definition scheduled :: "string \<Rightarrow> int list \<Rightarrow> 'm scheduler \<Rightarrow> route_error + route \<Rightarrow> 'm scheduler \<Rightarrow> bool" where
  "scheduled resolved target s r t \<longleftrightarrow>
     sched_inv t \<and> set (live s) - evictable target s \<subseteq> set (live t) \<and>
     (case r of Inl _ \<Rightarrow> set (live t) \<subseteq> set (live s) | Inr rt \<Rightarrow> serves resolved rt t)"

lemma scheduled_evicts:
  "\<lbrakk>evicts [] (evictable target s) s t; frame t u\<rbrakk> \<Longrightarrow> scheduled resolved target s (Inl e) u"
  using evicts_frame[of "[]" "evictable target s" s t u] by (auto simp: scheduled_def evicts_def)

lemma frame_vram: "frame s (snd (ensureFreeVRAM ans gs n s))"
  by (auto simp: ensureFreeVRAM_def Let_def split: sum.splits intro!: frame_steps)

lemma schedule_instance_inv:
  assumes q: "quiet (ev_drain env)" and i: "sched_inv s"
    and mc: "map_of (Models (sd_cfg s)) resolved = Some mc"
    and e: "schedule_instance P env resolved mc s = (r, t)"
  shows "scheduled resolved (mc_gpus mc) s r t"
proof -
  let ?K = "evictable (mc_gpus mc) s"
  obtain er s1 where er: "evictConflicts P (ev_drain env) (ev_now_evict env) (mc_gpus mc) s = (er, s1)" by fastforce
  obtain ef s2 where ef: "ensureFreeVRAM (ev_list_free env) (mc_gpus mc) (the (mc_min_free_mem mc)) s1 = (ef, s2)"
    by fastforce
  have ef': "ensureFreeVRAM (ev_list_free env) (mc_gpus mc) x s1 = (ef, s2)" if "mc_min_free_mem mc = Some x" for x
    using ef that by simp
  obtain port ok pool where acq: "Acquire (sd_ports s2) = ((port, ok), pool)" by (metis surj_pair)
  have ev1: "evicts [] ?K s s1" and free: "er = None \<Longrightarrow> \<not> still_conflicts (mc_gpus mc) s1"
    using evictConflicts_evicts[OF q i er] by (auto simp: evictable_def)
  have f2: "frame s1 s2" using frame_vram[of s1 "ev_list_free env" "mc_gpus mc" "the (mc_min_free_mem mc)"] by (simp add: ef)
  have ev2: "evicts [] ?K s s2" using ev1 f2 by (rule evicts_frame)
  note stays = scheduled_evicts[OF evicts_refl[OF i] frame_refl] scheduled_evicts[OF evicts_refl[OF i] frame_field(1)[OF frame_refl]]
    scheduled_evicts[OF ev1 frame_refl] scheduled_evicts[OF ev2 frame_refl]
  show ?thesis
  proof (cases "\<exists>sc. SchedulerCfg (sd_cfg s) = Some sc \<and> mc_min_free_mem mc \<noteq> None \<and> mc_gpus mc \<noteq> [] \<and>
      \<not> at_capacity resolved sc s \<and>
      ensureGPUsExist (sd_has_inventory s) (ev_list_exist env) (mc_gpus mc) = None \<and> er = None \<and> ef = None")
    case False
    with e stays show ?thesis
      by (auto simp: schedule_instance_def er ef' split: option.splits if_splits)
  next
    case True
    then obtain sc where c: "SchedulerCfg (sd_cfg s) = Some sc" "mc_min_free_mem mc \<noteq> None" "mc_gpus mc \<noteq> []"
      "\<not> at_capacity resolved sc s" "ensureGPUsExist (sd_has_inventory s) (ev_list_exist env) (mc_gpus mc) = None"
      "er = None" "ef = None" by blast
    then have e': "(if \<not> ok then (Inl (rejected RejectNoCapacity (5 * second) no_ports_message),
          emit (ScheduleRejected RejectNoCapacity) (s2\<lparr>sd_ports := pool\<rparr>))
        else launch_instance P env resolved mc port (s2\<lparr>sd_ports := pool\<rparr>)) = (r, t)"
      using e by (auto simp: schedule_instance_def er ef' acq)
    have i2: "sched_inv s2" and cfg2: "sd_cfg s2 = sd_cfg s" using ev2 by (auto simp: evicts_def)
    show ?thesis
    proof (cases ok)
      case False
      then have "pool = sd_ports s2"
        using pool_source.acquire_none[OF pool_source.leases_inv[OF sinv_leases[OF i2]], of port pool] acq by simp
      then have "s2\<lparr>sd_ports := pool\<rparr> = s2" by simp
      with e' False scheduled_evicts[OF ev2 frame_field(1)[OF frame_refl]] show ?thesis by auto
    next
      case True
      let ?s3 = "s2\<lparr>sd_ports := pool\<rparr>"
      have same: "live ?s3 = live s2" "inst_at ?s3 = inst_at s2" "still_conflicts g ?s3 = still_conflicts g s2"
        "room ?s3 = room s2" for g
        by (simp_all add: live_def inst_at_def fun_eq_iff still_conflicts_def room_def)
      have free2: "\<not> still_conflicts (mc_gpus mc) s2"
        using free c(6) frame_still[OF f2, of "[]"] ev1 by (auto simp: evicts_def)
      have none: "map_of (sd_instances s2) resolved = None"
        using evicted_own[OF i2 free2 _ c(3)] mc by (simp add: cfg2)
      have "room s2" by (rule room_after_eviction[OF ev2 i c(1,4) none])
      moreover have "sinv [port] ?s3" using sinv_acquire[OF i2] acq True by simp
      ultimately have "(\<exists>e. r = Inl e) \<and> evicts [] {} ?s3 t \<or>
          (\<exists>rt. r = Inr rt \<and> sched_inv t \<and> live t = live ?s3 @ [length (sd_store ?s3)] \<and> serves resolved rt t)"
        using launch_inv[OF q, of port ?s3 resolved mc P r t] mc c(3) none free2 e' True by (simp add: same cfg2)
      moreover have "set (live s2) \<subseteq> set (live s)" "set (live s) - ?K \<subseteq> set (live s2)"
        using ev2 by (auto simp: evicts_def)
      ultimately show ?thesis by (auto simp: scheduled_def evicts_def same)
    qed
  qed
qed

text \<open>
  While the caller waits for the permit, others run whole operations; while it holds it and an
  instance drains, they only stay in the frame.
\<close>

definition civil :: "'m sched_env \<Rightarrow> bool" where
  "civil env \<longleftrightarrow> quiet (ev_drain env) \<and>
     (\<forall>s. sched_inv s \<longrightarrow> sched_inv (snd (ev_wait env s)) \<and> sd_cfg (snd (ev_wait env s)) = sd_cfg s)"

lemma resolved_model:
  "ResolveModel c name = Inr (resolved, mc) \<Longrightarrow> map_of (Models c) resolved = Some mc"
  by (auto simp: ResolveModel_def split: option.splits if_splits)

lemma try_route_serves:
  "\<lbrakk>tryRouteReady P now resolved u s = (Some rt, t); sched_inv s\<rbrakk> \<Longrightarrow> serves resolved rt t"
proof -
  assume t: "tryRouteReady P now resolved u s = (Some rt, t)" and i: "sched_inv s"
  then obtain a where a: "map_of (sd_instances s) resolved = Some a" "routable P (inst_at s a)"
    by (auto simp: tryRouteReady_def split: option.splits if_splits)
  let ?s = "upd_inst a (\<lambda>i. i\<lparr>si_last_used_at := now\<rparr>) s"
  have "a < length (sd_store s)" using entry_ok[OF i map_of_SomeD[OF a(1)]] by (simp add: inst_ok_def)
  then have "serves resolved (fst (routeForInstance P a u ?s)) (snd (routeForInstance P a u ?s))"
    using a by (intro route_serves) (simp_all add: upd_inst_def inst_at_def routable_def)
  with t a show ?thesis by (simp add: tryRouteReady_def Let_def split_beta)
qed

lemma serves_frame_busy: "serves resolved rt t \<Longrightarrow> serves resolved rt (t\<lparr>sd_busy := b\<rparr>)"
  by (simp add: serves_def inst_at_def)

lemma permit_inv:
  assumes c: "civil env" and i: "sched_inv s"
    and e: "acquireSchedulingPermitOrReject (ev_wait env) m s = (r, t)"
  shows "sched_inv t \<and> sd_cfg t = sd_cfg s"
proof (cases "permit_try m s")
  case (Pair r1 s1)
  have f1: "frame s s1" using frame_permit(1)[of s m] Pair by simp
  show ?thesis
  proof (cases r1)
    case None
    let ?s2 = "snd (ev_wait env s1)"
    have "t = snd (permit_settle m (fst (ev_wait env s1)) ?s2)"
      using e Pair None by (simp add: acquireSchedulingPermitOrReject_def split_beta)
    then have "frame ?s2 t" using frame_permit(2) by simp
    moreover have "sched_inv ?s2 \<and> sd_cfg ?s2 = sd_cfg s1"
      using c sinv_frame[OF i f1] by (simp add: civil_def)
    ultimately have "sched_inv t" "sd_cfg t = sd_cfg s1" using sinv_frame by (blast, simp add: frame_def)
    with f1 show ?thesis by (simp add: frame_def)
  next
    case (Some x)
    with e Pair have "t = s1" by (simp add: acquireSchedulingPermitOrReject_def)
    with f1 sinv_frame[OF i f1] show ?thesis by (simp add: frame_def)
  qed
qed

lemma AcquireRoute_ok:
  assumes c: "civil env" and i: "sched_inv s" and e: "AcquireRoute P env name s = (r, t)"
  shows "sched_inv t" and "r = Inr rt \<Longrightarrow> \<exists>resolved mc. ResolveModel (sd_cfg s) name = Inr (resolved, mc) \<and> serves resolved rt t"
proof -
  have "sched_inv t \<and> (\<forall>rt. r = Inr rt \<longrightarrow>
      (\<exists>resolved mc. ResolveModel (sd_cfg s) name = Inr (resolved, mc) \<and> serves resolved rt t))"
  proof (cases "ResolveModel (sd_cfg s) name")
    case (Inl x)
    with e i show ?thesis by (auto simp: AcquireRoute_def)
  next
    case (Inr x)
    obtain resolved mc where x: "x = (resolved, mc)" by fastforce
    obtain r1 s1 where r1: "tryRouteReady P (ev_now_try env) resolved (mc_path mc) s = (r1, s1)" by fastforce
    have f1: "frame s s1" using frame_try_route[of s P "ev_now_try env" resolved "mc_path mc"] r1 by simp
    have i1: "sched_inv s1" by (rule sinv_frame[OF i f1])
    obtain r2 s2 where r2: "acquireSchedulingPermitOrReject (ev_wait env) resolved s1 = (r2, s2)" by fastforce
    have i2: "sched_inv s2" "sd_cfg s2 = sd_cfg s"
      using permit_inv[OF c i1 r2] f1 by (auto simp: frame_def)
    obtain r3 s3 where r3: "tryRouteReady P (ev_now_retry env) resolved (mc_path mc) s2 = (r3, s3)" by fastforce
    have f3: "frame s2 s3" using frame_try_route[of s2 P "ev_now_retry env" resolved "mc_path mc"] r3 by simp
    have i3: "sched_inv s3" by (rule sinv_frame[OF i2(1) f3])
    have mc: "map_of (Models (sd_cfg s3)) resolved = Some mc"
      using resolved_model Inr x i2(2) f3 by (simp add: frame_def)
    obtain r4 s4 where r4: "schedule_instance P env resolved mc s3 = (r4, s4)" by fastforce
    have sch: "scheduled resolved (mc_gpus mc) s3 r4 s4"
      using schedule_instance_inv[OF _ i3 mc r4] c by (simp add: civil_def)
    have busy: "sched_inv (u\<lparr>sd_busy := False\<rparr>)" if "sched_inv u" for u
      by (rule sinv_frame[OF that]) (intro frame_steps frame_refl)
    show ?thesis
      using e Inr x try_route_serves[OF _ i, of P "ev_now_try env" resolved "mc_path mc" _ s1]
        try_route_serves[OF _ i2(1), of P "ev_now_retry env" resolved "mc_path mc" _ s3] sch i1 i2 i3
      by (auto simp: AcquireRoute_def r1 r2 r3 r4 scheduled_def split: option.splits
               intro!: busy serves_frame_busy)
  qed
  then show "sched_inv t" "r = Inr rt \<Longrightarrow> \<exists>resolved mc. ResolveModel (sd_cfg s) name = Inr (resolved, mc) \<and> serves resolved rt t"
    by auto
qed

lemma stop_fold:
  "\<lbrakk>quiet drain; sched_inv s; distinct as; set as = set (live s)\<rbrakk> \<Longrightarrow>
   sched_inv (fold (drainAndStopInstance P drain False) as s) \<and>
   live (fold (drainAndStopInstance P drain False) as s) = []"
proof (induction as arbitrary: s)
  case (Cons a as)
  let ?s = "drainAndStopInstance P drain False a s"
  have a: "a \<in> set (live s)" using Cons.prems by auto
  note d = drain_stop(1,2)[OF Cons.prems(1,2) a, where P = P and e = False]
  have "set as = set (live ?s)"
    using Cons.prems live_distinct[OF Cons.prems(2)] by (auto simp: d(2))
  with Cons.IH[of ?s] Cons.prems d show ?case by simp
qed simp

lemma StopAll_ok:
  assumes q: "quiet drain" and i: "sched_inv s"
  shows "sched_inv (StopAll P drain s)" "sd_instances (StopAll P drain s) = []"
    "pool_held (sd_ports (StopAll P drain s)) = {}"
proof -
  let ?s = "s\<lparr>sd_busy := True\<rparr>"
  let ?t = "fold (drainAndStopInstance P drain False) (live s) ?s"
  have i': "sched_inv ?s" by (rule sinv_frame[OF i]) (intro frame_steps frame_refl)
  have l: "live ?s = live s" by (simp add: live_def)
  have t: "sched_inv ?t" "live ?t = []"
    using stop_fold[OF q i', of "live s" P] live_distinct[OF i] l by simp_all
  have b: "sched_inv (?t\<lparr>sd_busy := False\<rparr>)" by (rule sinv_frame[OF t(1)]) (intro frame_steps frame_refl)
  show "sched_inv (StopAll P drain s)" using t b by (simp add: StopAll_def Let_def)
  show "sd_instances (StopAll P drain s) = []" using t(2) by (simp add: StopAll_def Let_def live_def)
  show "pool_held (sd_ports (StopAll P drain s)) = {}"
    using sinv_leases[OF t(1)] t(2) by (simp add: StopAll_def Let_def pool_source.leases_def port_list_def)
qed

end
