(* ===== verification/Scheduler_Properties.thy ===== *)
theory Scheduler_Properties
  imports Scheduler_Invariant Example_Config
begin

text \<open>
  The properties of the scheduler's operations, each run from start to end with what others do
  during its waits as an argument.
\<close>

section \<open>Examples\<close>

definition ex_params :: "proc params" where
  "ex_params = \<lparr>pm_ops = proc_ops ex_config,
     pm_new = vllm_factory [ex_start 0 (Some 41)] [ex_stopped] [ex_ready ''org/a''], pm_smi_ok = (\<lambda>_. True)\<rparr>"

definition ex_gpus :: "gpu list" where
  "ex_gpus = map (\<lambda>i. \<lparr>g_index = i, g_total_mb = 24000, g_free_mb = 20000\<rparr>) [0, 1, 2]"

definition ex_env :: "gotime \<Rightarrow> proc sched_env" where
  "ex_env now = \<lparr>ev_now_try = now, ev_wait = (\<lambda>s. (TimerFired, s)), ev_now_retry = now,
     ev_list_exist = Inr ex_gpus, ev_now_evict = now, ev_drain = (\<lambda>a s. s), ev_list_free = Inr ex_gpus,
     ev_now_ready = now\<rparr>"

lemma ex_env_sel [simp]:
  "ev_now_try (ex_env now) = now" "ev_now_retry (ex_env now) = now" "ev_now_evict (ex_env now) = now"
  "ev_list_exist (ex_env now) = Inr ex_gpus" "ev_list_free (ex_env now) = Inr ex_gpus"
  "ev_drain (ex_env now) = (\<lambda>a s. s)" "ev_now_ready (ex_env now) = now"
  by (simp_all add: ex_env_def)

lemma ex_gpus_exist: "set gs \<subseteq> {0, 1, 2} \<Longrightarrow> ensureGPUsExist True (Inr ex_gpus) gs = None"
  by (auto simp: ensureGPUsExist_def first_err_None ex_gpus_def)

definition ex_inst :: "string \<Rightarrow> int \<Rightarrow> int list \<Rightarrow> bool \<Rightarrow> gotime \<Rightarrow> proc \<Rightarrow> proc sched_inst" where
  "ex_inst n port gpus pinned t p =
     \<lparr>si_model = n, si_port = port, si_gpus = gpus, si_pinned = pinned, si_draining = False,
      si_started_at = t, si_last_used_at = t, si_state = StateReady, si_mgr = Some p,
      si_inflight = new_tracker, si_stop_err = None\<rparr>"

text \<open>A scheduler of the example with the given instances in its map, on ports from 9001 up.\<close>

definition ex_sched :: "proc sched_inst list \<Rightarrow> proc scheduler" where
  "ex_sched insts =
     (NewScheduler ex_config True
        \<lparr>p_start = 9001, p_end = 9003, p_used = map (\<lambda>i. (si_port i, True)) insts\<rparr> None)
       \<lparr>sd_store := insts, sd_instances := zip (map si_model insts) [0..<length insts]\<rparr>"

definition ex_a :: "stop_env list \<Rightarrow> proc sched_inst" where
  "ex_a stops = ex_inst ''a'' 9001 [0] False 100 (ex_live ''a'' 9001 ''0'' stops)"

lemma ex_inst_sel [simp]:
  "si_model (ex_inst n port gpus pinned t p) = n" "si_port (ex_inst n port gpus pinned t p) = port"
  "si_gpus (ex_inst n port gpus pinned t p) = gpus" "si_pinned (ex_inst n port gpus pinned t p) = pinned"
  "\<not> si_draining (ex_inst n port gpus pinned t p)" "si_started_at (ex_inst n port gpus pinned t p) = t"
  "si_last_used_at (ex_inst n port gpus pinned t p) = t" "si_state (ex_inst n port gpus pinned t p) = StateReady"
  "si_mgr (ex_inst n port gpus pinned t p) = Some p" "si_inflight (ex_inst n port gpus pinned t p) = new_tracker"
  by (simp_all add: ex_inst_def)

lemma ex_a_sel [simp]:
  "si_model (ex_a stops) = ''a''" "si_gpus (ex_a stops) = [0]" "\<not> si_pinned (ex_a stops)"
  "si_started_at (ex_a stops) = 100" "si_port (ex_a stops) = 9001"
  by (simp_all add: ex_a_def)

lemma ex_sched_sel [simp]:
  "sd_cfg (ex_sched is) = ex_config" "sd_store (ex_sched is) = is" "\<not> sd_busy (ex_sched is)"
  "sd_instances (ex_sched is) = zip (map si_model is) [0..<length is]" "sd_has_inventory (ex_sched is)"
  "live (ex_sched is) = [0..<length is]" "inst_at (ex_sched is) k = is ! k"
  by (simp_all add: ex_sched_def NewScheduler_def live_def inst_at_def)

text \<open>Consistency of such a state, by what its instances are.\<close>

lemma ex_sched_inv:
  assumes "distinct (map si_model insts)" "distinct (map si_port insts)" "set (map si_port insts) \<subseteq> {9001..9003}"
    and "length insts \<le> 3"
    and "\<forall>i \<in> set insts. \<exists>mc. map_of ex_models (si_model i) = Some mc \<and> mc_gpus mc \<noteq> [] \<and>
           si_gpus i = mc_gpus mc \<and> si_pinned i = (mc_pinned mc = Some True)"
    and "\<forall>j < length insts. \<forall>k < length insts. j \<noteq> k \<longrightarrow> set (si_gpus (insts ! j)) \<inter> set (si_gpus (insts ! k)) = {}"
  shows "sched_inv (ex_sched insts)"
proof -
  have ports: "sd_ports (ex_sched insts) = \<lparr>p_start = 9001, p_end = 9003, p_used = map (\<lambda>i. (si_port i, True)) insts\<rparr>"
    by (simp add: ex_sched_def NewScheduler_def)
  have used: "map_of (map (\<lambda>i. (si_port i, True)) insts) q = (if q \<in> si_port ` set insts then Some True else None)" for q
    by (induction insts) auto
  have pl: "port_list (ex_sched insts) = map si_port insts"
    by (rule nth_equalityI) (simp_all add: port_list_def)
  have "pool_source.leases (sd_ports (ex_sched insts)) (port_list (ex_sched insts))"
    using assms(2,3) unfolding ports pl
    by (auto simp: pool_source.leases_def pool_inv_def pool_held_def pool_range_def is_used_def used gomap_ok_def
          comp_def split: if_splits)
  moreover have "inst_ok (ex_sched insts) n a" if "(n, a) \<in> set (sd_instances (ex_sched insts))" for n a
    using that assms(5) by (auto simp: inst_ok_def set_zip)
  moreover have "gomap_ok (sd_instances (ex_sched insts))" using assms(1) by (simp add: gomap_ok_def)
  ultimately show ?thesis
    using assms(4,6) by (auto simp: sinv_def gpus_apart_def below_max_def ports pool_range_def)
qed

lemma ex_a_inv: "sched_inv (ex_sched [ex_a stops])"
  by (rule ex_sched_inv) (simp_all add: ex_a_def ex_models_def)

lemma ex_civil: "civil (ex_env now)"
  by (simp add: civil_def quiet_def ex_env_def)

text \<open>A request for the alias of the running model is answered at once.\<close>

lemma ex_route:
  "\<exists>t. AcquireRoute ex_params (ex_env now) ''alias'' (ex_sched [ex_a stops]) =
     (Inr \<lparr>rt_base_url = ''http://127.0.0.1:9001'', rt_upstream_model = ''org/a'', rt_instance = Some 0\<rparr>, t)"
proof -
  have port: "itoa 9001 = ''9001''" by (simp add: itoa_def nat_str.simps digit_char_def) code_simp
  show ?thesis
    by (simp add: AcquireRoute_def tryRouteReady_def ex_a_def routable_def mgr_pid_def ex_params_def proc_ops_def
        routeForInstance_def Let_def split_beta)
       (simp add: upd_inst_def inst_at_def ex_live_def NewInstanceManager_def BaseURL_def port)
qed

text \<open>Once the instance of \<open>a\<close> is old enough, a request for \<open>b\<close> evicts it.\<close>

definition ex_late :: gotime where
  "ex_late = 1000 * second"

definition ex_evicted :: "proc scheduler" where
  "ex_evicted = drainAndStopInstance ex_params (\<lambda>a s. s) True 0 (ex_sched [ex_a [ex_stopped]])"

lemma ex_evicted_live: "live ex_evicted = []" "sd_cfg ex_evicted = ex_config" "sched_inv ex_evicted"
  using drain_stop(1,2)[of "\<lambda>a s. s" "[]" "ex_sched [ex_a [ex_stopped]]" 0 ex_params True] ex_a_inv[of "[ex_stopped]"]
    drain_stop_rest(1)[of "\<lambda>a s. s" ex_params True 0 "ex_sched [ex_a [ex_stopped]]"]
  by (simp_all add: ex_evicted_def quiet_def)

lemma ex_old_enough: "\<not> time_sub ex_late 100 < min_instance_uptime ex_config"
  by (simp add: time_sub_def ex_late_def second_def min_instance_uptime_def max_int64_def min_int64_def)

lemma ex_evict:
  "evictConflicts ex_params (\<lambda>a s. s) ex_late [0, 1] (ex_sched [ex_a [ex_stopped]]) = (None, ex_evicted)"
proof -
  have "conflicts_of [0, 1] (ex_sched [ex_a [ex_stopped]]) = [0]"
    by (simp add: conflicts_of_def overlaps_iff)
  then show ?thesis
    using ex_old_enough ex_evicted_live(1)
    by (simp add: evictConflicts_def Let_def overlaps_iff still_conflicts_iff flip: ex_evicted_def)
qed

section \<open>Properties\<close>

text \<open>
  C6. Every call of \<open>AcquireRoute\<close>, whatever its result, keeps the scheduler consistent: the
  instances in the map are configured ones under their own names, each holds a leased port no other
  holds, their GPU sets are disjoint, and there are at most as many as configured.
\<close>

theorem AcquireRoute_keeps_invariant:
  "\<lbrakk>civil env; sched_inv s; AcquireRoute P env name s = (r, t)\<rbrakk> \<Longrightarrow> sched_inv t"
  by (rule AcquireRoute_ok(1))

lemma AcquireRoute_keeps_invariant_witness:
  "\<exists>r t. AcquireRoute ex_params (ex_env 5) ''alias'' (ex_sched [ex_a []]) = (r, t) \<and> sched_inv t"
proof -
  obtain r t where "AcquireRoute ex_params (ex_env 5) ''alias'' (ex_sched [ex_a []]) = (r, t)" by fastforce
  with AcquireRoute_keeps_invariant[OF ex_civil ex_a_inv this] show ?thesis by blast
qed

text \<open>
  A route that \<open>AcquireRoute\<close> returns leads to the instance that the map holds for the
  resolved model, and that instance is ready and not draining when the call returns.
\<close>

theorem AcquireRoute_serves_the_model:
  assumes "civil env" "sched_inv s" "AcquireRoute P env name s = (Inr rt, t)"
  shows "\<exists>resolved mc a. ResolveModel (sd_cfg s) name = Inr (resolved, mc) \<and> rt_instance rt = Some a \<and>
     map_of (sd_instances t) resolved = Some a \<and> si_model (inst_at t a) = resolved \<and>
     si_state (inst_at t a) = StateReady \<and> \<not> si_draining (inst_at t a)"
proof -
  obtain resolved mc where r: "ResolveModel (sd_cfg s) name = Inr (resolved, mc)" "serves resolved rt t"
    using AcquireRoute_ok(2)[OF assms refl] by blast
  moreover have "si_model (inst_at t a) = resolved" if "map_of (sd_instances t) resolved = Some a" for a
    using entry_model[OF AcquireRoute_ok(1)[OF assms] map_of_SomeD[OF that]] .
  ultimately show ?thesis by (auto simp: serves_def)
qed

lemma AcquireRoute_serves_the_model_witness:
  "\<exists>rt t. AcquireRoute ex_params (ex_env 5) ''alias'' (ex_sched [ex_a []]) = (Inr rt, t) \<and>
     map_of (sd_instances t) ''a'' = Some 0 \<and> \<not> si_draining (inst_at t 0)"
proof -
  obtain t where r: "AcquireRoute ex_params (ex_env 5) ''alias'' (ex_sched [ex_a []]) =
     (Inr \<lparr>rt_base_url = ''http://127.0.0.1:9001'', rt_upstream_model = ''org/a'', rt_instance = Some 0\<rparr>, t)"
    using ex_route by blast
  from AcquireRoute_serves_the_model[OF ex_civil ex_a_inv r] r show ?thesis by auto
qed


lemma ex_schedule:
  "schedule_instance ex_params ((ex_env ex_late)\<lparr>ev_list_free := Inl CommandFailed\<rparr>) ''b''
     (ex_model ''org/b'' '''' [0, 1] None) (ex_sched [ex_a [ex_stopped]]) = (Inl (RouteInventory CommandFailed), ex_evicted)"
proof -
  have "sd_has_inventory ex_evicted"
    by (simp add: ex_evicted_def drainAndStopInstance_def forget_fields stop_instance_def Let_def stop_mgr_def
        wait_drain_def mark_draining_def upd_inst_def revert_power_def split: option.split prod.split)
  then show ?thesis
    by (simp add: schedule_instance_def at_capacity_def ex_gpus_exist ex_evict ensureFreeVRAM_def)
qed


text \<open>
  When \<open>evictConflicts\<close> succeeds, no instance in the map
  uses a target GPU: in particular the requested model itself has no entry any more, so the clean-up
  of an old instance after publication never runs.
\<close>

theorem no_old_instance_at_publication:
  assumes "quiet drain" "sched_inv s" "map_of (Models (sd_cfg s)) resolved = Some mc" "mc_gpus mc \<noteq> []"
    "evictConflicts P drain now (mc_gpus mc) s = (None, t)"
  shows "map_of (sd_instances t) resolved = None \<and>
         (\<forall>a \<in> set (live t). set (si_gpus (inst_at t a)) \<inter> set (mc_gpus mc) = {})"
proof -
  have e: "evicts [] {a \<in> set (live s). \<not> si_pinned (inst_at s a) \<and> overlaps (si_gpus (inst_at s a)) (mc_gpus mc)} s t"
    and f: "\<not> still_conflicts (mc_gpus mc) t"
    using evictConflicts_evicts[OF assms(1,2,5)] by auto
  have "map_of (sd_instances t) resolved = None"
    using evicted_own[of "[]" t mc resolved] e f assms(3,4) by (simp add: evicts_def)
  with f show ?thesis by (auto simp: still_conflicts_iff)
qed

lemma no_old_instance_at_publication_witness:
  "map_of (sd_instances ex_evicted) ''b'' = None"
  using no_old_instance_at_publication[of "\<lambda>a s. s" "ex_sched [ex_a [ex_stopped]]" "''b''"
      "ex_model ''org/b'' '''' [0, 1] None" ex_params ex_late ex_evicted] ex_evict ex_a_inv
  by (simp add: quiet_def ex_models_def)

lemma find_unique:
  assumes "x \<in> set xs" "P x" "\<And>y. \<lbrakk>y \<in> set xs; P y\<rbrakk> \<Longrightarrow> y = x"
  shows "find P xs = Some x"
proof (cases "find P xs")
  case None
  with assms(1,2) show ?thesis by (auto simp: find_None_iff)
next
  case (Some y)
  then have "y \<in> set xs" "P y" by (auto simp: find_Some_iff)
  with assms(3) Some show ?thesis by blast
qed

text \<open>
  C34. A pinned model whose process has exited is never started again: its own dead instance is still
  in the map and counts as the pinned conflict, so every request for it is rejected and changes
  nothing, although no other model is in its way.
\<close>

theorem crashed_pinned_model_is_stuck:
  assumes i: "sched_inv s" and r: "ResolveModel (sd_cfg s) name = Inr (resolved, mc)"
    and a: "map_of (sd_instances s) resolved = Some a" and p: "mc_pinned mc = Some True"
    and dead: "mgr_pid P (si_mgr (inst_at s a)) = 0" and idle: "\<not> sd_busy s"
    and sc: "SchedulerCfg (sd_cfg s) = Some sc" "mc_min_free_mem mc = Some mf" "\<not> at_capacity resolved sc s"
    and gpus: "ensureGPUsExist (sd_has_inventory s) (ev_list_exist env) (mc_gpus mc) = None"
    and alone: "\<forall>b \<in> set (live s). b \<noteq> a \<longrightarrow> \<not> si_pinned (inst_at s b)"
  shows "AcquireRoute P env name s =
     (Inl (rejected RejectPinnedConflict 0 (pinned_message resolved)), emit (ScheduleRejected RejectPinnedConflict) s)"
proof -
  have ia: "inst_ok s resolved a" using entry_ok[OF i map_of_SomeD[OF a]] .
  have mc: "map_of (Models (sd_cfg s)) resolved = Some mc" by (rule resolved_model[OF r])
  with ia have own: "si_gpus (inst_at s a) = mc_gpus mc" "mc_gpus mc \<noteq> []" "si_pinned (inst_at s a)"
    "si_model (inst_at s a) = resolved" using p by (auto simp: inst_ok_def)
  have al: "a \<in> set (live s)" using a by (force simp: live_def dest: map_of_SomeD)
  let ?c = "conflicts_of (mc_gpus mc) s"
  have "a \<in> set ?c" using al own by (auto simp: conflicts_of_def overlaps_iff)
  moreover have "b = a" if "b \<in> set ?c" "si_pinned (inst_at s b)" for b
    using that alone by (auto simp: conflicts_of_def)
  ultimately have "find (\<lambda>b. si_pinned (inst_at s b)) ?c = Some a"
    by (intro find_unique own(3))
  then have ev: "evictConflicts P (ev_drain env) (ev_now_evict env) (mc_gpus mc) u =
      (Some (rejected RejectPinnedConflict 0 (pinned_message resolved)), emit (ScheduleRejected RejectPinnedConflict) u)"
    if "u = s\<lparr>sd_busy := True\<rparr>" for u
    using that own(4) by (simp add: evictConflicts_def conflicts_of_def live_def inst_at_def)
  have look: "tryRouteReady P now resolved (mc_path mc) u = (None, u)" if "u = s \<or> u = s\<lparr>sd_busy := True\<rparr>" for u now
    using that a dead by (auto simp: tryRouteReady_def routable_def inst_at_def)
  have cap: "\<not> at_capacity resolved sc (s\<lparr>sd_busy := True\<rparr>)" using sc(3) a by (simp add: at_capacity_def Let_def split: option.splits)
  show ?thesis
    using r sc(1,2) own(2) gpus idle
    by (simp add: AcquireRoute_def look acquireSchedulingPermitOrReject_def permit_try_def schedule_instance_def cap ev
        emit_def)
qed

lemma crashed_pinned_model_is_stuck_witness:
  "\<exists>t. AcquireRoute ex_params (ex_env 5) ''p'' (ex_sched [ex_inst ''p'' 9001 [2] True 100 (ex_exited 9001 ''2'')]) =
     (Inl (rejected RejectPinnedConflict 0 (pinned_message ''p'')), t)"
proof -
  let ?s = "ex_sched [ex_inst ''p'' 9001 [2] True 100 (ex_exited 9001 ''2'')]"
  have i: "sched_inv ?s"
    by (rule ex_sched_inv) (simp_all add: ex_models_def)
  show ?thesis
    by (subst crashed_pinned_model_is_stuck[OF i, of _ "''p''" "ex_model ''org/p'' '''' [2] (Some True)" 0])
       (auto simp: mgr_pid_def ex_params_def proc_ops_def at_capacity_def ex_gpus_exist)
qed

text \<open>
  A request for a model whose instance is ready is answered without the permit: the route names
  that instance and its configured path, the instance's and the scheduler's counters go up by one,
  its last use is now, and nothing else of the scheduler's bookkeeping changes.
\<close>

theorem ready_instance_is_used:
  assumes "ResolveModel (sd_cfg s) name = Inr (resolved, mc)" "map_of (sd_instances s) resolved = Some a"
    "routable P (inst_at s a)" "a < length (sd_store s)" "AcquireRoute P env name s = (r, t)"
  shows "r = Inr \<lparr>rt_base_url = op_url (pm_ops P) (the (si_mgr (inst_at s a))), rt_upstream_model = mc_path mc,
                 rt_instance = Some a\<rparr> \<and>
         Count (si_inflight (inst_at t a)) = Count (si_inflight (inst_at s a)) + 1 \<and>
         Count (sd_total t) = Count (sd_total s) + 1 \<and> si_last_used_at (inst_at t a) = ev_now_try env \<and>
         (\<forall>b. b \<noteq> a \<longrightarrow> inst_at t b = inst_at s b) \<and> sd_instances t = sd_instances s \<and>
         sd_ports t = sd_ports s \<and> sd_busy t = sd_busy s \<and> sd_waiters t = sd_waiters s"
proof -
  have "(r, t) = (\<lambda>(rt, u). (Inr rt, u)) (routeForInstance P a (mc_path mc)
      (upd_inst a (\<lambda>i. i\<lparr>si_last_used_at := ev_now_try env\<rparr>) s))"
    using assms by (simp add: AcquireRoute_def tryRouteReady_def split_beta Let_def)
  then show ?thesis
    using assms(4)
    by (simp add: routeForInstance_def Let_def split_beta emit_def upd_inst_def inst_at_def Count_def)
qed

lemma ready_instance_is_used_witness:
  "\<exists>r t. AcquireRoute ex_params (ex_env 7) ''a'' (ex_sched [ex_a []]) = (r, t) \<and> si_last_used_at (inst_at t 0) = 7"
proof -
  obtain r t where e: "AcquireRoute ex_params (ex_env 7) ''a'' (ex_sched [ex_a []]) = (r, t)" by fastforce
  have "routable ex_params (inst_at (ex_sched [ex_a []]) 0)"
    by (simp add: routable_def ex_a_def mgr_pid_def ex_params_def proc_ops_def)
  with ready_instance_is_used[OF _ _ _ _ e, of "''a''" "ex_model ''org/a'' '''' [0] None" 0] e show ?thesis by auto
qed

text \<open>
  \<open>StopAll\<close> empties the map and returns every port, and leaves the scheduler consistent.
\<close>

theorem StopAll_releases_everything:
  "\<lbrakk>quiet drain; sched_inv s\<rbrakk> \<Longrightarrow>
   sched_inv (StopAll P drain s) \<and> sd_instances (StopAll P drain s) = [] \<and> pool_held (sd_ports (StopAll P drain s)) = {}"
  by (simp add: StopAll_ok)

lemma StopAll_releases_everything_witness:
  "sd_instances (StopAll ex_params (\<lambda>a s. s) (ex_sched [ex_a [ex_stopped]])) = []"
  using StopAll_releases_everything[of "\<lambda>a s. s" "ex_sched [ex_a [ex_stopped]]" ex_params] ex_a_inv
  by (simp add: quiet_def)

text \<open>
  The error of a failed \<open>Stop\<close> is dropped: an evicted instance whose process does not end
  leaves the map and its port and GPUs become available, while the process is still alive.
\<close>

theorem failed_stop_frees_the_port:
  assumes i: "sched_inv s" and a: "a \<in> set (live s)" and q: "quiet drain"
    and m: "si_mgr (inst_at s a) = Some p" "pr_alive p" "pr_stops p = env # rest" "sp_outcome env = NoExit"
    and idle: "Count (si_inflight (inst_at s a)) = 0" and P: "pm_ops P = proc_ops c"
  shows "a \<notin> set (live (drainAndStopInstance P drain True a s)) \<and>
         si_port (inst_at s a) \<notin> pool_held (sd_ports (drainAndStopInstance P drain True a s)) \<and>
         (\<exists>p'. si_mgr (inst_at (drainAndStopInstance P drain True a s) a) = Some p' \<and> pr_alive p')"
proof -
  let ?t = "drainAndStopInstance P drain True a s"
  note d = drain_stop[OF q i a, where P = P and e = True]
  have l: "live ?t = remove1 a (live s)" and it: "sched_inv ?t" by (rule d)+
  have al: "a < length (sd_store s)" by (rule live_lt[OF i a])
  have dist: "distinct (live s)" by (rule live_distinct[OF i])
  have "si_port (inst_at s a) \<notin> set (port_list ?t)"
  proof
    assume "si_port (inst_at s a) \<in> set (port_list ?t)"
    then obtain b where b': "b \<in> set (live ?t)" "si_port (inst_at ?t b) = si_port (inst_at s a)"
      unfolding port_list_def by auto
    then have b: "b \<in> set (live s)" "b \<noteq> a" "si_port (inst_at ?t b) = si_port (inst_at s a)"
      using dist by (simp_all add: l)
    moreover have "si_port (inst_at ?t b) = si_port (inst_at s b)"
      using d(3)[OF live_lt[OF i b(1)]] by (simp add: skel_def)
    ultimately have "si_port (inst_at s b) = si_port (inst_at s a)" by simp
    moreover have "distinct (map (\<lambda>a. si_port (inst_at s a)) (live s))"
      using sinv_leases[OF i] by (simp add: pool_source.leases_def port_list_def)
    ultimately show False using b a by (auto simp: distinct_map inj_on_def)
  qed
  then have port: "si_port (inst_at s a) \<notin> pool_held (sd_ports ?t)"
    using sinv_leases[OF it] by (simp add: pool_source.leases_def)
  have stop: "snd (proc_stop p) = p\<lparr>pr_mgr := snd (Stop env (pr_mgr p)), pr_stops := rest\<rparr>"
    using m(2-4) by (simp add: proc_stop_def Let_def stop_ends_def split_beta)
  have "si_mgr (inst_at ?t a) = Some (snd (proc_stop p))"
    using al m(1) idle P
    by (simp add: drainAndStopInstance_def inst_at_def forget_fields stop_instance_def Let_def stop_mgr_def wait_drain_def
        mark_draining_def upd_inst_def revert_power_def inflightIsDrained_def proc_ops_def split_beta)
  moreover have "pr_alive (snd (proc_stop p))" using stop m(2) by simp
  ultimately show ?thesis using l dist port by auto
qed

lemma failed_stop_frees_the_port_witness:
  "9001 \<notin> pool_held (sd_ports (drainAndStopInstance ex_params (\<lambda>a s. s) True 0 (ex_sched [ex_a [ex_hangs]]))) \<and>
   (\<exists>p'. si_mgr (inst_at (drainAndStopInstance ex_params (\<lambda>a s. s) True 0 (ex_sched [ex_a [ex_hangs]])) 0) = Some p' \<and>
         pr_alive p')"
proof -
  have "si_mgr (ex_a [ex_hangs]) = Some (ex_live ''a'' 9001 ''0'' [ex_hangs])"
    "Count (si_inflight (ex_a [ex_hangs])) = 0"
    by (simp_all add: ex_a_def Count_def new_tracker_def)
  then show ?thesis
    using failed_stop_frees_the_port[OF ex_a_inv, of 0 "[ex_hangs]" "\<lambda>a s. s" "ex_live ''a'' 9001 ''0'' [ex_hangs]" ex_hangs "[]" ex_params ex_config]
    by (simp add: quiet_def ex_params_def ex_hangs_def)
qed

text \<open>Nothing happens to other instances while one is stopped and nobody else runs.\<close>

lemma drain_stop_other:
  "b \<noteq> a \<Longrightarrow> inst_at (drainAndStopInstance P (\<lambda>a s. s) e a s) b = inst_at s b"
  by (simp add: drainAndStopInstance_def inst_at_def forget_fields stop_instance_def Let_def stop_mgr_def wait_drain_def
      mark_draining_def upd_inst_def revert_power_def split: option.split prod.split)

definition ex_young :: "proc sched_inst" where
  "ex_young = ex_inst ''c'' 9002 [1] False ex_late (ex_live ''c'' 9002 ''1'' [])"


text \<open>
  The device list in \<open>CUDA_VISIBLE_DEVICES\<close> determines the GPUs: splitting it at the commas
  and reading the numbers gives the configured ids back.
\<close>

theorem device_list_roundtrip:
  "\<lbrakk>gs \<noteq> []; \<forall>g \<in> set gs. in_int64 g\<rbrakk> \<Longrightarrow> map atoi (split_on CHR '','' (joinInts gs)) = map Some gs"
proof -
  assume gs: "gs \<noteq> []" "\<forall>g \<in> set gs. in_int64 g"
  have "split_on CHR '','' (joinInts gs) = map itoa gs"
    unfolding joinInts_def using gs(1) itoa_no_comma by (intro split_on_join) auto
  with gs(2) show ?thesis by (simp add: atoi_itoa in_int64_def)
qed

lemma device_list_roundtrip_witness: "map atoi (split_on CHR '','' (joinInts [0, 3])) = [Some 0, Some 3]"
  using device_list_roundtrip[of "[0, 3]"] by (simp add: in_int64_def min_int64_def max_int64_def)

end
