(* ===== verification/Coordinator.thy ===== *)
theory Coordinator
  imports Router_Types
begin

text \<open>
  The single-process router of \<open>internal/jukebox/coordinator.go\<close>. \<open>Run\<close> handles requests
  one at a time (\<open>handleEnsure\<close>); an accepted request starts one swap goroutine
  (\<open>performSwap\<close>). The methods are functions on the coordinator; clock readings and what
  happens during a wait are arguments. The last section combines them into a step relation.
\<close>

section \<open>State\<close>

datatype cmetric =
    CState State
  | CSwapRejected RejectReason
  | CSwap string string duration
  | CFailures int
  | CCurrentModel string bool

record 'm coordinator =
  co_cfg :: config
  co_mgr :: 'm
  co_tr :: "tracker option"
  co_power :: "power_world option"
  co_state :: State
  co_current :: string
  co_last_swap_time :: gotime
  co_failures :: int
  co_last_failure :: gotime
  co_in_progress :: bool
  co_last_ready_at :: gotime
  co_last_swap :: last_swap
  co_has_last_swap :: bool
  co_metrics :: "cmetric list"

definition no_swap :: last_swap where
  "no_swap = \<lparr>ls_from = '''', ls_to = '''', ls_at = 0, ls_duration = 0, ls_triggered_by = ''''\<rparr>"

definition NewCoordinatorWithPower ::
  "config \<Rightarrow> 'm \<Rightarrow> tracker option \<Rightarrow> power_world option \<Rightarrow> 'm coordinator" where
  "NewCoordinatorWithPower c mgr tr powerMgr =
     \<lparr>co_cfg = c, co_mgr = mgr, co_tr = tr, co_power = powerMgr, co_state = StateIdle, co_current = '''',
      co_last_swap_time = 0, co_failures = 0, co_last_failure = 0, co_in_progress = False,
      co_last_ready_at = 0, co_last_swap = no_swap, co_has_last_swap = False, co_metrics = []\<rparr>"

text \<open>The answers of the process manager and of \<open>nvidia-smi\<close>.\<close>

record 'm cparams =
  cp_ops :: "'m mgr_ops"
  cp_smi_ok :: "nat \<Rightarrow> bool"

definition cemit :: "cmetric \<Rightarrow> 'm coordinator \<Rightarrow> 'm coordinator" where
  "cemit e c = c\<lparr>co_metrics := e # co_metrics c\<rparr>"

definition co_pid :: "'m cparams \<Rightarrow> 'm coordinator \<Rightarrow> int" where
  "co_pid P c = op_pid (cp_ops P) (co_mgr c)"

section \<open>Status\<close>

definition shown_state :: "'m cparams \<Rightarrow> 'm coordinator \<Rightarrow> State" where
  "shown_state P c = (if co_state c = StateReady \<and> co_pid P c = 0 then StateError else co_state c)"

definition coord_Status :: "'m cparams \<Rightarrow> gotime \<Rightarrow> 'm coordinator \<Rightarrow> status" where
  "coord_Status P now c =
     (let st = shown_state P c
      in \<lparr>ss_state = st, ss_current_model = co_current c,
          ss_in_flight = (case co_tr c of None \<Rightarrow> 0 | Some t \<Rightarrow> Count t), ss_pid = co_pid P c,
          ss_failure_count = co_failures c,
          ss_uptime_seconds = (if st = StateReady \<and> \<not> is_zero_time (co_last_ready_at c)
                               then uptime_seconds now (co_last_ready_at c) else 0),
          ss_last_ready_at = co_last_ready_at c,
          ss_last_swap = (if co_has_last_swap c then Some (co_last_swap c) else None),
          ss_last_swap_at = (if co_has_last_swap c then ls_at (co_last_swap c) else 0),
          ss_scheduler_busy = False, ss_waiters = [], ss_instances = []\<rparr>)"

section \<open>Requests\<close>

definition backoffDelay :: "int \<Rightarrow> duration" where
  "backoffDelay failureCount =
     (if failureCount \<le> 1 then 0
      else if failureCount = 2 then 5 * second
      else if failureCount = 3 then 15 * second
      else if failureCount = 4 then 30 * second
      else 60 * second)"

datatype ensure_reply = ReplyError route_error | ReplyReady | ReplyWait

definition swap_reject :: "RejectReason \<Rightarrow> duration \<Rightarrow> route_error" where
  "swap_reject r after = Rejected \<lparr>rj_reason = r, rj_retry_after = after, rj_message = ''''\<rparr>"

definition refuse :: "RejectReason \<Rightarrow> duration \<Rightarrow> 'm coordinator \<Rightarrow> ensure_reply \<times> 'm coordinator" where
  "refuse r after c = (ReplyError (swap_reject r after), cemit (CSwapRejected r) c)"

text \<open>\<open>now\<close> is the coordinator's clock; \<open>wall\<close> is the clock of \<open>time.Until\<close>.\<close>

record clocks =
  ck_now :: gotime
  ck_wall :: gotime

definition backoff_left :: "clocks \<Rightarrow> 'm coordinator \<Rightarrow> duration" where
  "backoff_left k c =
     (if co_state c = StateError \<and> co_failures c > 0 \<and> backoffDelay (co_failures c) > 0
      then time_sub (co_last_failure c + backoffDelay (co_failures c)) (ck_wall k) else 0)"

definition cooldown_left :: "clocks \<Rightarrow> 'm coordinator \<Rightarrow> duration" where
  "cooldown_left k c =
     (let cooldown = vc_swap_cooldown (VLLM (co_cfg c)); nextAllowed = co_last_swap_time c + cooldown
      in if cooldown > 0 \<and> \<not> is_zero_time (co_last_swap_time c) \<and> ck_now k < nextAllowed
         then time_sub nextAllowed (ck_now k) else 0)"

definition serving :: "'m cparams \<Rightarrow> string \<Rightarrow> 'm coordinator \<Rightarrow> bool" where
  "serving P resolved c \<longleftrightarrow> co_state c = StateReady \<and> co_current c = resolved \<and> co_pid P c \<noteq> 0"

definition crashed :: "'m cparams \<Rightarrow> string \<Rightarrow> 'm coordinator \<Rightarrow> bool" where
  "crashed P resolved c \<longleftrightarrow> co_state c = StateReady \<and> co_current c = resolved \<and> co_pid P c = 0"

definition accept :: "'m cparams \<Rightarrow> 'm coordinator \<Rightarrow> 'm coordinator" where
  "accept P c =
     (let c' = c\<lparr>co_in_progress := True,
                 co_state := (if co_state c = StateReady then StateStopping else StateStarting)\<rparr>
      in cemit (CState (shown_state P c')) c')"

definition handleEnsure ::
  "'m cparams \<Rightarrow> clocks \<Rightarrow> string \<Rightarrow> 'm coordinator \<Rightarrow> ensure_reply \<times> 'm coordinator" where
  "handleEnsure P k requestedModel c =
     (case ResolveModel (co_cfg c) requestedModel of
        Inl e \<Rightarrow> (ReplyError (RouteConfig e), c)
      | Inr (resolved, mc) \<Rightarrow>
          if serving P resolved c then (ReplyReady, c)
          else if co_in_progress c \<or> co_state c = StateStarting \<or> co_state c = StateStopping
            then refuse RejectSwapInProgress (5 * second) c
          else if backoff_left k c > 0 then refuse RejectBackoff (backoff_left k c) c
          else if \<not> crashed P resolved c \<and> cooldown_left k c \<noteq> 0
            then refuse RejectCooldown (cooldown_left k c) c
          else (ReplyWait, accept P c))"

text \<open>The caller's side: how its two sends and receives end.\<close>

datatype swap_wait = SwapErr "route_error option" | SwapTimer | SwapCtxDone

text \<open>\<open>ee_wait\<close> says how the wait for the swap ends and what the coordinator is then.\<close>

record 'm ensure_env =
  ee_sent :: bool
  ee_answered :: bool
  ee_wait :: "'m coordinator \<Rightarrow> swap_wait \<times> 'm coordinator"

definition EnsureModel ::
  "'m cparams \<Rightarrow> 'm ensure_env \<Rightarrow> clocks \<Rightarrow> string \<Rightarrow> 'm coordinator \<Rightarrow> route_error option \<times> 'm coordinator" where
  "EnsureModel P env k requestedModel c =
     (if \<not> ee_sent env then (Some RouteCtxDone, c)
      else let (reply, c') = handleEnsure P k requestedModel c
           in if \<not> ee_answered env then (Some RouteCtxDone, c')
              else (case reply of
                      ReplyError e \<Rightarrow> (Some e, c')
                    | ReplyReady \<Rightarrow> (None, c')
                    | ReplyWait \<Rightarrow>
                        (case ee_wait env c' of
                           (SwapErr e, d) \<Rightarrow> (e, d)
                         | (SwapTimer, d) \<Rightarrow>
                             (Some (Rejected \<lparr>rj_reason = RejectWaitTimeout, rj_retry_after = 0,
                                              rj_message = ''model swap in progress, please retry''\<rparr>),
                              cemit (CSwapRejected RejectWaitTimeout) d)
                         | (SwapCtxDone, d) \<Rightarrow> (Some RouteCtxDone, d))))"

section \<open>Swapping\<close>

text \<open>\<open>sw_start\<close> and \<open>sw_end\<close> time the swap; the next two readings are those of
  \<open>handleSwapDone\<close>; \<open>sw_drain\<close> is the tracker when the wait for it ends.\<close>

record swap_env =
  sw_start :: gotime
  sw_end :: gotime
  sw_done :: gotime
  sw_ready :: gotime
  sw_drain :: "tracker \<Rightarrow> tracker"

definition co_revert :: "'m cparams \<Rightarrow> int list \<Rightarrow> 'm coordinator \<Rightarrow> 'm coordinator" where
  "co_revert P gpus c =
     (if gpus = [] then c
      else c\<lparr>co_power := map_option (\<lambda>w. snd (RevertModelLimits (cp_smi_ok P) gpus w)) (co_power c)\<rparr>)"

definition gpus_of :: "config \<Rightarrow> string \<Rightarrow> int list" where
  "gpus_of c name =
     (if name = '''' then []
      else (case ResolveModel c name of Inl _ \<Rightarrow> [] | Inr (_, mc) \<Rightarrow> mc_gpus mc))"

text \<open>Draining and stopping the old model; the drain can only end by itself or by its deadline.\<close>

definition stop_old :: "'m cparams \<Rightarrow> swap_env \<Rightarrow> 'm coordinator \<Rightarrow> mgr_error option \<times> 'm coordinator" where
  "stop_old P env c =
     (let oldGPUs = gpus_of (co_cfg c) (co_current c);
          c1 = c\<lparr>co_tr := map_option (sw_drain env) (co_tr c)\<rparr>
      in case op_stop (cp_ops P) (co_mgr c1) of
           (Some e, m) \<Rightarrow> (Some e, c1\<lparr>co_mgr := m\<rparr>)
         | (None, m) \<Rightarrow> (None, co_revert P oldGPUs (c1\<lparr>co_mgr := m\<rparr>)))"

definition co_apply :: "'m cparams \<Rightarrow> model_config \<Rightarrow> 'm coordinator \<Rightarrow> power_error option \<times> 'm coordinator" where
  "co_apply P mc c =
     (case co_power c of
        None \<Rightarrow> (None, c)
      | Some w \<Rightarrow>
          if mc_gpus mc = [] then (None, c)
          else (case ApplyModelLimits (cp_smi_ok P) (mc_gpus mc) (mc_power_limit mc) (mc_power_limits mc) w of
                  (e, w') \<Rightarrow> (e, c\<lparr>co_power := Some w'\<rparr>)))"

definition start_new :: "'m cparams \<Rightarrow> string \<Rightarrow> model_config \<Rightarrow> 'm coordinator \<Rightarrow> route_error option \<times> 'm coordinator" where
  "start_new P model mc c =
     (case op_start (cp_ops P) model (co_mgr c) of
        (Inl e, m) \<Rightarrow> (Some (RouteManager e), co_revert P (mc_gpus mc) (c\<lparr>co_mgr := m\<rparr>))
      | (Inr pid, m) \<Rightarrow>
          (case op_verify (cp_ops P) model m of
             (None, m') \<Rightarrow> (None, c\<lparr>co_mgr := m'\<rparr>)
           | (Some e, m') \<Rightarrow>
               (Some (RouteManager e),
                co_revert P (mc_gpus mc) (c\<lparr>co_mgr := snd (op_stop (cp_ops P) m')\<rparr>))))"

definition doSwap :: "'m cparams \<Rightarrow> swap_env \<Rightarrow> string \<Rightarrow> 'm coordinator \<Rightarrow> route_error option \<times> 'm coordinator" where
  "doSwap P env model c =
     (case ResolveModel (co_cfg c) model of
        Inl e \<Rightarrow> (Some (RouteConfig e), c)
      | Inr (_, mc) \<Rightarrow>
          (case (if shown_state P c = StateStopping \<or> shown_state P c = StateReady
                 then stop_old P env c else (None, c)) of
             (Some e, c1) \<Rightarrow> (Some (RouteManager e), c1)
           | (None, c1) \<Rightarrow>
               (case co_apply P mc (c1\<lparr>co_state := StateStarting\<rparr>) of
                  (Some e, c2) \<Rightarrow> (Some (RoutePower e), c2)
                | (None, c2) \<Rightarrow> start_new P model mc c2)))"

definition swap_ok_metrics :: "string \<Rightarrow> string \<Rightarrow> duration \<Rightarrow> cmetric list" where
  "swap_ok_metrics from_model to_model d =
     (if to_model \<noteq> '''' then [CCurrentModel to_model True] else []) @
     (if from_model \<noteq> '''' \<and> from_model \<noteq> to_model then [CCurrentModel from_model False] else []) @
     [CFailures 0] @
     (if from_model \<noteq> '''' \<or> to_model \<noteq> '''' then [CSwap from_model to_model d] else []) @
     [CState StateReady]"

definition handleSwapDone ::
  "gotime \<Rightarrow> gotime \<Rightarrow> string \<Rightarrow> string \<Rightarrow> string \<Rightarrow> duration \<Rightarrow> route_error option \<Rightarrow> 'm coordinator \<Rightarrow> 'm coordinator" where
  "handleSwapDone now1 now2 from_model model requestID d err c =
     (case err of
        None \<Rightarrow>
          c\<lparr>co_in_progress := False, co_state := StateReady, co_current := model,
            co_last_swap_time := now1, co_last_ready_at := now2, co_failures := 0, co_last_failure := 0,
            co_last_swap := \<lparr>ls_from = from_model, ls_to = model, ls_at = now1, ls_duration = d,
                             ls_triggered_by = requestID\<rparr>,
            co_has_last_swap := True,
            co_metrics := swap_ok_metrics from_model model d @ co_metrics c\<rparr>
      | Some e \<Rightarrow>
          c\<lparr>co_in_progress := False, co_state := StateError, co_failures := co_failures c + 1,
            co_last_failure := now1,
            co_metrics := [CFailures (co_failures c + 1), CState StateError] @ co_metrics c\<rparr>)"

text \<open>The error is also what the waiting caller receives.\<close>

definition performSwap ::
  "'m cparams \<Rightarrow> swap_env \<Rightarrow> string \<Rightarrow> string \<Rightarrow> string \<Rightarrow> 'm coordinator \<Rightarrow> route_error option \<times> 'm coordinator" where
  "performSwap P env from_model model requestID c =
     (let (err, c') = doSwap P env model c
      in (err, handleSwapDone (sw_done env) (sw_ready env) from_model model requestID
                 (time_sub (sw_end env) (sw_start env)) err c'))"

definition StopCurrent :: "'m cparams \<Rightarrow> 'm coordinator \<Rightarrow> mgr_error option \<times> 'm coordinator" where
  "StopCurrent P c =
     (case op_stop (cp_ops P) (co_mgr c) of
        (Some e, m) \<Rightarrow> (Some e, c\<lparr>co_mgr := m\<rparr>)
      | (None, m) \<Rightarrow> (None, co_revert P (gpus_of (co_cfg c) (co_current c)) (c\<lparr>co_mgr := m\<rparr>)))"


section \<open>The legacy router\<close>

text \<open>\<open>legacy_router.go\<close>: ensure the model, count the request, resolve the upstream name.\<close>

definition legacy_url :: "config \<Rightarrow> string" where
  "legacy_url c = ''http://127.0.0.1:'' @ itoa (vc_port (VLLM c))"

definition track_request :: "'m coordinator \<Rightarrow> 'm coordinator" where
  "track_request c = c\<lparr>co_tr := map_option (\<lambda>t. fst (Track t)) (co_tr c)\<rparr>"

definition release_request :: "'m coordinator \<Rightarrow> 'm coordinator" where
  "release_request c = c\<lparr>co_tr := map_option (\<lambda>t. fst (done_body t)) (co_tr c)\<rparr>"

definition legacy_AcquireRoute ::
  "'m cparams \<Rightarrow> 'm ensure_env \<Rightarrow> clocks \<Rightarrow> string \<Rightarrow> 'm coordinator \<Rightarrow> (route_error + route) \<times> 'm coordinator" where
  "legacy_AcquireRoute P env k requestedModel c =
     (case EnsureModel P env k requestedModel c of
        (Some e, c1) \<Rightarrow> (Inl e, c1)
      | (None, c1) \<Rightarrow>
          let c2 = track_request c1
          in (case ResolveModel (co_cfg c2) requestedModel of
                Inl e \<Rightarrow> (Inl (RouteConfig e), c2)
              | Inr (_, mc) \<Rightarrow>
                  (Inr \<lparr>rt_base_url = legacy_url (co_cfg c2), rt_upstream_model = mc_path mc,
                        rt_instance = None\<rparr>, c2)))"

section \<open>What the methods do\<close>

lemma handleEnsure_frame:
  "handleEnsure P k name c = (r, c') \<Longrightarrow>
   co_cfg c' = co_cfg c \<and> co_mgr c' = co_mgr c \<and> co_tr c' = co_tr c \<and> co_power c' = co_power c \<and>
   co_current c' = co_current c \<and> co_failures c' = co_failures c \<and> co_last_swap c' = co_last_swap c \<and>
   (r \<noteq> ReplyWait \<longrightarrow> co_state c' = co_state c \<and> co_in_progress c' = co_in_progress c)"
  by (auto simp: handleEnsure_def refuse_def accept_def cemit_def Let_def split: sum.splits if_splits)

lemma handleEnsure_wait:
  "handleEnsure P k name c = (ReplyWait, c') \<Longrightarrow>
   \<exists>resolved mc. ResolveModel (co_cfg c) name = Inr (resolved, mc) \<and> \<not> serving P resolved c \<and>
     \<not> co_in_progress c \<and> co_state c \<notin> {StateStarting, StateStopping} \<and> backoff_left k c \<le> 0 \<and>
     (crashed P resolved c \<or> cooldown_left k c = 0) \<and> c' = accept P c"
  by (auto simp: handleEnsure_def refuse_def not_less split: sum.splits if_splits)

lemma handleEnsure_busy:
  "\<lbrakk>co_in_progress c; co_state c \<noteq> StateReady; ResolveModel (co_cfg c) name = Inr x\<rbrakk> \<Longrightarrow>
   handleEnsure P k name c = refuse RejectSwapInProgress (5 * second) c"
  by (cases x) (simp add: handleEnsure_def serving_def)

text \<open>The fields a swap does not touch until it is over.\<close>

definition swap_frame :: "'m coordinator \<Rightarrow> 'm coordinator \<Rightarrow> bool" where
  "swap_frame c d \<longleftrightarrow>
     co_cfg d = co_cfg c \<and> co_current d = co_current c \<and> co_in_progress d = co_in_progress c \<and>
     co_failures d = co_failures c"

lemma swap_frame_refl [simp]: "swap_frame c c"
  by (simp add: swap_frame_def)

lemma swap_frame_trans: "swap_frame c d \<Longrightarrow> swap_frame d e \<Longrightarrow> swap_frame c e"
  by (simp add: swap_frame_def)

lemma co_revert_fields [simp]:
  "co_mgr (co_revert P gs c) = co_mgr c" "co_tr (co_revert P gs c) = co_tr c"
  "co_state (co_revert P gs c) = co_state c" "co_cfg (co_revert P gs c) = co_cfg c"
  "co_current (co_revert P gs c) = co_current c" "co_in_progress (co_revert P gs c) = co_in_progress c"
  "co_failures (co_revert P gs c) = co_failures c"
  by (simp_all add: co_revert_def)

lemma stop_old_frame:
  "stop_old P env c = (r, d) \<Longrightarrow> swap_frame c d \<and> co_tr d = map_option (sw_drain env) (co_tr c)"
  by (auto simp: stop_old_def Let_def swap_frame_def split: prod.splits option.splits)

lemma co_apply_frame: "co_apply P mc c = (r, d) \<Longrightarrow> swap_frame c d \<and> co_tr d = co_tr c \<and> co_mgr d = co_mgr c"
  by (auto simp: co_apply_def swap_frame_def split: prod.splits option.splits if_splits)

lemma start_new_frame: "start_new P model mc c = (r, d) \<Longrightarrow> swap_frame c d \<and> co_tr d = co_tr c"
  by (auto simp: start_new_def swap_frame_def split: prod.splits sum.splits option.splits)

text \<open>Where a swap ends; \<open>c1\<close> is the coordinator after the old process was stopped, if it was.\<close>

definition after_stop :: "'m cparams \<Rightarrow> swap_env \<Rightarrow> 'm coordinator \<Rightarrow> 'm coordinator \<Rightarrow> bool" where
  "after_stop P env c c1 \<longleftrightarrow>
     (if shown_state P c = StateStopping \<or> shown_state P c = StateReady
      then stop_old P env c = (None, c1) else c1 = c)"

lemma after_stop_frame:
  "after_stop P env c c1 \<Longrightarrow> swap_frame c c1 \<and> (sw_drain env = (\<lambda>t. t) \<longrightarrow> co_tr c1 = co_tr c)"
  using stop_old_frame[of P env c None c1] by (auto simp: after_stop_def option.map_ident split: if_splits)

lemma doSwap_cases:
  assumes d: "doSwap P env model c = (r, d)"
  obtains (unknown) e where "r = Some (RouteConfig e)" "d = c"
    | (stop_failed) e where "stop_old P env c = (Some e, d)" "r = Some (RouteManager e)"
    | (no_power) e c1 mc where "after_stop P env c c1"
        "co_apply P mc (c1\<lparr>co_state := StateStarting\<rparr>) = (Some e, d)" "r = Some (RoutePower e)"
    | (started) c1 mc c2 where "after_stop P env c c1"
        "co_apply P mc (c1\<lparr>co_state := StateStarting\<rparr>) = (None, c2)" "start_new P model mc c2 = (r, d)"
proof (cases "ResolveModel (co_cfg c) model")
  case (Inl e)
  with d have "r = Some (RouteConfig e)" "d = c" by (simp_all add: doSwap_def)
  then show thesis by (rule unknown)
next
  case (Inr x)
  obtain n mc where x: "x = (n, mc)" by fastforce
  let ?stop = "if shown_state P c = StateStopping \<or> shown_state P c = StateReady then stop_old P env c else (None, c)"
  obtain es c1 where es: "?stop = (es, c1)" by fastforce
  show thesis
  proof (cases es)
    case (Some e)
    with es have "stop_old P env c = (Some e, c1)" by (simp split: if_splits)
    moreover from d Inr x es Some have "r = Some (RouteManager e)" "c1 = d" by (simp_all add: doSwap_def)
    ultimately show thesis using stop_failed by simp
  next
    case None
    with es have a: "after_stop P env c c1" by (auto simp: after_stop_def split: if_splits)
    obtain ea c2 where ea: "co_apply P mc (c1\<lparr>co_state := StateStarting\<rparr>) = (ea, c2)" by fastforce
    show thesis
    proof (cases ea)
      case (Some e)
      with d Inr x es None ea have "r = Some (RoutePower e)" "d = c2" by (simp_all add: doSwap_def)
      with no_power[OF a] ea Some show thesis by blast
    next
      case None': None
      with d Inr x es None ea have "start_new P model mc c2 = (r, d)" by (simp add: doSwap_def)
      with started[OF a] ea None' show thesis by blast
    qed
  qed
qed

lemma doSwap_frame:
  assumes "doSwap P env model c = (r, d)"
  shows "swap_frame c d \<and> (sw_drain env = (\<lambda>t. t) \<longrightarrow> co_tr d = co_tr c)"
  using assms
proof (cases rule: doSwap_cases)
  case (stop_failed e)
  with stop_old_frame[OF stop_failed(1)] show ?thesis by (auto simp: option.map_ident)
next
  case (no_power e c1 mc)
  with after_stop_frame[OF no_power(1)] co_apply_frame[OF no_power(2)] show ?thesis
    by (auto simp: swap_frame_def)
next
  case (started c1 mc c2)
  with after_stop_frame[OF started(1)] co_apply_frame[OF started(2)] start_new_frame[OF started(3)] show ?thesis
    by (auto simp: swap_frame_def)
qed simp

lemma performSwap_result:
  assumes "performSwap P env f model rq c = (err, c')"
  shows "co_in_progress c' = False" "co_cfg c' = co_cfg c" "sw_drain env = (\<lambda>t. t) \<Longrightarrow> co_tr c' = co_tr c"
    "err = None \<Longrightarrow> co_state c' = StateReady \<and> co_current c' = model \<and> co_failures c' = 0"
    "err \<noteq> None \<Longrightarrow> co_state c' = StateError \<and> co_current c' = co_current c \<and> co_failures c' = co_failures c + 1"
  using assms doSwap_frame[of P env model c]
  by (auto simp: performSwap_def handleSwapDone_def swap_frame_def split: prod.splits option.splits)

end
