(* ===== verification/Coordinator_System.thy ===== *)
theory Coordinator_System
  imports Coordinator
begin

text \<open>
  The coordinator with its callers: \<open>Run\<close> handles one request at a time, an accepted request
  starts a swap goroutine, and a caller of the legacy router that got its answer counts its request
  in a step of its own, as \<open>legacy_router.go\<close> does.
\<close>

section \<open>The system\<close>

text \<open>
  \<open>cy_swap\<close> is the pending swap (from, to, request); \<open>cy_admitted\<close> are the models of callers whose
  \<open>EnsureModel\<close> has returned nil and who have not called \<open>Track\<close> yet; \<open>cy_routes\<close> are the models
  of the counted requests that are not done.
\<close>

record 'm csys =
  cy_c :: "'m coordinator"
  cy_swap :: "(string \<times> string \<times> string) option"
  cy_admitted :: "string list"
  cy_routes :: "string list"

definition init_csys :: "'m coordinator \<Rightarrow> 'm csys" where
  "init_csys c = \<lparr>cy_c = c, cy_swap = None, cy_admitted = [], cy_routes = []\<rparr>"

text \<open>\<open>crash\<close> is what may happen to the backend process on its own.\<close>

inductive cstep :: "'m cparams \<Rightarrow> ('m \<Rightarrow> 'm \<Rightarrow> bool) \<Rightarrow> 'm csys \<Rightarrow> 'm csys \<Rightarrow> bool" for P crash where
  ready: "\<lbrakk>handleEnsure P k n (cy_c s) = (ReplyReady, c'); ResolveModel (co_cfg (cy_c s)) n = Inr (resolved, mc)\<rbrakk> \<Longrightarrow>
    cstep P crash s (s\<lparr>cy_c := c', cy_admitted := resolved # cy_admitted s\<rparr>)"
| refused: "handleEnsure P k n (cy_c s) = (ReplyError e, c') \<Longrightarrow> cstep P crash s (s\<lparr>cy_c := c'\<rparr>)"
| begin_swap: "\<lbrakk>handleEnsure P k n (cy_c s) = (ReplyWait, c'); ResolveModel (co_cfg (cy_c s)) n = Inr (resolved, mc)\<rbrakk> \<Longrightarrow>
    cstep P crash s (s\<lparr>cy_c := c', cy_swap := Some (co_current (cy_c s), resolved, rq)\<rparr>)"
| swap: "\<lbrakk>cy_swap s = Some (f, m, rq); sw_drain env = (\<lambda>t. t); performSwap P env f m rq (cy_c s) = (err, c');
          admitted = cy_admitted s \<or> err = None \<and> admitted = m # cy_admitted s\<rbrakk> \<Longrightarrow>
    cstep P crash s (s\<lparr>cy_c := c', cy_swap := None, cy_admitted := admitted\<rparr>)"
| track: "cy_admitted s = xs @ m # ys \<Longrightarrow>
    cstep P crash s (s\<lparr>cy_c := track_request (cy_c s), cy_admitted := xs @ ys, cy_routes := m # cy_routes s\<rparr>)"
| release: "cy_routes s = xs @ m # ys \<Longrightarrow>
    cstep P crash s (s\<lparr>cy_c := release_request (cy_c s), cy_routes := xs @ ys\<rparr>)"
| crash: "crash (co_mgr (cy_c s)) m' \<Longrightarrow> cstep P crash s (s\<lparr>cy_c := (cy_c s)\<lparr>co_mgr := m'\<rparr>\<rparr>)"

inductive creach :: "'m cparams \<Rightarrow> ('m \<Rightarrow> 'm \<Rightarrow> bool) \<Rightarrow> 'm coordinator \<Rightarrow> 'm csys \<Rightarrow> bool" for P crash c0 where
  init: "creach P crash c0 (init_csys c0)"
| step: "creach P crash c0 s \<Longrightarrow> cstep P crash s t \<Longrightarrow> creach P crash c0 t"

section \<open>The invariant\<close>

definition swap_state :: "State \<Rightarrow> bool" where
  "swap_state st \<longleftrightarrow> st = StateStarting \<or> st = StateStopping"

definition coord_inv :: "'m csys \<Rightarrow> bool" where
  "coord_inv s \<longleftrightarrow>
     (co_in_progress (cy_c s) \<longleftrightarrow> cy_swap s \<noteq> None) \<and>
     (swap_state (co_state (cy_c s)) \<longleftrightarrow> cy_swap s \<noteq> None) \<and>
     (\<forall>t. co_tr (cy_c s) = Some t \<longrightarrow> Count t = int (length (cy_routes s))) \<and>
     0 \<le> co_failures (cy_c s) \<and>
     (cy_swap s = None \<longrightarrow> (co_state (cy_c s) = StateError \<longleftrightarrow> 0 < co_failures (cy_c s)))"

lemma init_coord_inv:
  "coord_inv (init_csys (NewCoordinatorWithPower c m (Some new_tracker) pw))"
  by (simp add: coord_inv_def init_csys_def NewCoordinatorWithPower_def swap_state_def Count_def new_tracker_def)

lemma accept_fields:
  "co_in_progress (accept P c)" "swap_state (co_state (accept P c))" "co_tr (accept P c) = co_tr c"
  "co_failures (accept P c) = co_failures c" "co_cfg (accept P c) = co_cfg c" "co_mgr (accept P c) = co_mgr c"
  "co_current (accept P c) = co_current c"
  by (simp_all add: accept_def cemit_def Let_def swap_state_def)

lemma cstep_inv: "cstep P crash s t \<Longrightarrow> coord_inv s \<Longrightarrow> coord_inv t"
proof (induction rule: cstep.induct)
  case (ready k n s c' resolved mc)
  with handleEnsure_frame[OF ready(1)] show ?case by (simp add: coord_inv_def)
next
  case (refused k n s e c')
  with handleEnsure_frame[OF refused(1)] show ?case by (simp add: coord_inv_def)
next
  case (begin_swap k n s c' resolved mc rq)
  with handleEnsure_wait[OF begin_swap(1)] show ?case by (auto simp: coord_inv_def accept_fields)
next
  case (swap s f m rq env err c' admitted)
  note r = performSwap_result[OF swap(3)]
  show ?case
  proof (cases err)
    case None
    with r(1,3,4) swap(2,5) show ?thesis by (simp add: coord_inv_def swap_state_def)
  next
    case (Some e)
    with r(1,3,5) swap(2,5) show ?thesis by (simp add: coord_inv_def swap_state_def)
  qed
next
  case (track s xs m ys)
  then show ?case by (auto simp: coord_inv_def track_request_def Count_def)
next
  case (release s xs m ys)
  show ?case
  proof (cases "co_tr (cy_c s)")
    case None
    with release show ?thesis by (simp add: coord_inv_def release_request_def)
  next
    case (Some t)
    with release have "Count t = 1 + int (length (xs @ ys))" by (simp add: coord_inv_def)
    then have "Count (fst (done_body t)) = int (length (xs @ ys))"
      by (simp add: Count_def done_body_def Let_def)
    with release Some show ?thesis by (simp add: coord_inv_def release_request_def)
  qed
next
  case (crash s m')
  then show ?case by (simp add: coord_inv_def)
qed

lemma creach_inv: "creach P crash c0 s \<Longrightarrow> coord_inv (init_csys c0) \<Longrightarrow> coord_inv s"
  by (induction rule: creach.induct) (auto intro: cstep_inv)

lemma cstep_cfg: "cstep P crash s t \<Longrightarrow> co_cfg (cy_c t) = co_cfg (cy_c s)"
proof (induction rule: cstep.induct)
  case (ready k n s c' resolved mc)
  with handleEnsure_frame[OF ready(1)] show ?case by simp
next
  case (refused k n s e c')
  with handleEnsure_frame[OF refused(1)] show ?case by simp
next
  case (begin_swap k n s c' resolved mc rq)
  with handleEnsure_frame[OF begin_swap(1)] show ?case by simp
next
  case (swap s f m rq env err c' admitted)
  with performSwap_result(2)[OF swap(3)] show ?case by simp
qed (simp_all add: track_request_def release_request_def)

lemma creach_cfg: "creach P crash c0 s \<Longrightarrow> co_cfg (cy_c s) = co_cfg c0"
  by (induction rule: creach.induct) (simp_all add: init_csys_def cstep_cfg)

section \<open>Processes\<close>

text \<open>
  A swap that succeeded: the old process was stopped where there was one, the manager then had
  none, and the process it started for the model was verified.
\<close>

definition clean_swap ::
  "'m mgr_ops \<Rightarrow> ('m \<Rightarrow> bool) \<Rightarrow> string \<Rightarrow> 'm coordinator \<Rightarrow> 'm coordinator \<Rightarrow> bool" where
  "clean_swap ops alive model c1 d \<longleftrightarrow>
     \<not> alive (co_mgr c1) \<and>
     (\<exists>pid m. op_start ops model (co_mgr c1) = (Inr pid, m) \<and> alive m \<and>
              op_verify ops model m = (None, co_mgr d))"

text \<open>What a router may conclude from the manager's contract.\<close>

context instance_manager
begin

lemma stop_old_mgr:
  "\<lbrakk>invar (co_mgr c); cp_ops P = ops; stop_old P env c = (r, d)\<rbrakk> \<Longrightarrow>
   invar (co_mgr d) \<and> (alive (co_mgr d) \<longrightarrow> alive (co_mgr c)) \<and> (r = None \<longrightarrow> \<not> alive (co_mgr d))"
  using stop_inv stop_ok
  by (auto simp: stop_old_def Let_def split: prod.splits option.splits)

lemma after_stop_mgr:
  "\<lbrakk>invar (co_mgr c); cp_ops P = ops; after_stop P env c c1\<rbrakk> \<Longrightarrow>
   invar (co_mgr c1) \<and> (alive (co_mgr c1) \<longrightarrow> alive (co_mgr c))"
  using stop_old_mgr[of c P env None c1] by (auto simp: after_stop_def split: if_splits)

lemma start_new_mgr:
  assumes "invar (co_mgr c)" "cp_ops P = ops" "start_new P model mc c = (r, d)"
  shows "invar (co_mgr d)" "r = None \<Longrightarrow> \<not> alive (co_mgr c)"
    "r \<noteq> None \<Longrightarrow> alive (co_mgr d) \<Longrightarrow> alive (co_mgr c) \<or>
       (\<exists>m e. alive m \<and> fst (op_stop ops m) = Some e)"
proof -
  obtain rs m1 where s: "op_start ops model (co_mgr c) = (rs, m1)" by fastforce
  obtain rv m2 where v: "op_verify ops model m1 = (rv, m2)" by fastforce
  obtain rp m3 where p: "op_stop ops m2 = (rp, m3)" by fastforce
  have i1: "invar m1" using start_inv[OF assms(1) s] by simp
  have i2: "invar m2" "alive m2 \<longrightarrow> alive m1" using verify_inv[OF i1 v] by auto
  have i3: "invar m3" "alive m3 \<longrightarrow> alive m2" using stop_inv[OF i2(1) p] by auto
  note d = assms(2,3) s v p
  show "invar (co_mgr d)"
    using d i1 i2(1) i3(1) by (auto simp: start_new_def split: sum.splits option.splits)
  show "r = None \<Longrightarrow> \<not> alive (co_mgr c)"
    using d start_ok[OF assms(1)] s by (auto simp: start_new_def split: sum.splits option.splits)
  show "alive (co_mgr c) \<or> (\<exists>m e. alive m \<and> fst (op_stop ops m) = Some e)"
    if r: "r \<noteq> None" and al: "alive (co_mgr d)"
  proof (cases rs)
    case (Inl e)
    with d al start_err[OF assms(1), of model e m1] s show ?thesis by (auto simp: start_new_def)
  next
    case (Inr pid)
    with d r obtain e where rv: "rv = Some e" and dm: "co_mgr d = m3"
      by (auto simp: start_new_def split: option.splits)
    have "rp \<noteq> None" using stop_ok[OF i2(1), of m3] p al dm by auto
    moreover have "alive m2" using i3(2) al dm by simp
    ultimately show ?thesis using p by (intro disjI2 exI[of _ m2]) auto
  qed
qed

text \<open>A swap that succeeds started its process when no other was alive.\<close>

lemma start_new_clean:
  assumes "invar (co_mgr c)" "cp_ops P = ops" "start_new P model mc c = (None, d)"
  shows "clean_swap ops alive model c d"
proof -
  obtain rs m1 where s: "op_start ops model (co_mgr c) = (rs, m1)" by fastforce
  with assms(2,3) obtain pid where p: "rs = Inr pid" "op_verify ops model m1 = (None, co_mgr d)"
    by (auto simp: start_new_def split: sum.splits prod.splits option.splits)
  with s start_ok[OF assms(1), of model pid m1] show ?thesis by (simp add: clean_swap_def)
qed

lemma doSwap_mgr:
  assumes "invar (co_mgr c)" "cp_ops P = ops" "doSwap P env model c = (r, d)"
  shows "invar (co_mgr d) \<and> (r = None \<longrightarrow> (\<exists>c1. after_stop P env c c1 \<and> clean_swap ops alive model c1 d))"
  using assms(3)
proof (cases rule: doSwap_cases)
  case (stop_failed e)
  with stop_old_mgr[OF assms(1,2) stop_failed(1)] show ?thesis by simp
next
  case (no_power e c1 mc)
  with after_stop_mgr[OF assms(1,2) no_power(1)] co_apply_frame[OF no_power(2)] show ?thesis by simp
next
  case (started c1 mc c2)
  have m: "co_mgr c2 = co_mgr c1" and i2: "invar (co_mgr c2)"
    using after_stop_mgr[OF assms(1,2) started(1)] co_apply_frame[OF started(2)] by simp_all
  have "clean_swap ops alive model c1 d" if "r = None"
    using start_new_clean[OF i2 assms(2)] started(3) that m by (simp add: clean_swap_def)
  with start_new_mgr(1)[OF i2 assms(2) started(3)] started(1) show ?thesis by blast
qed (simp add: assms(1))

end

end
