(* ===== verification/Coordinator_Properties.thy ===== *)
theory Coordinator_Properties
  imports Coordinator_System Example_Config
begin

text \<open>The properties of the single-process router: the coordinator and the legacy router on it.\<close>

section \<open>Examples\<close>

definition ex_cparams :: "proc cparams" where
  "ex_cparams = \<lparr>cp_ops = proc_ops ex_config, cp_smi_ok = (\<lambda>_. True)\<rparr>"

text \<open>A backend that serves \<open>a\<close>; its stop ends as given, and a later start for \<open>b\<close> succeeds.\<close>

definition ex_backend :: "stop_env list \<Rightarrow> proc" where
  "ex_backend stops =
     \<lparr>pr_mgr = ex_started 0 41 ''a'' (NewInstanceManager 8000 []), pr_fs = [], pr_starts = [ex_start 1 (Some 42)],
      pr_stops = stops, pr_verifies = [ex_ready ''org/b''], pr_alive = True\<rparr>"

definition ex_coord :: "stop_env list \<Rightarrow> proc coordinator" where
  "ex_coord stops =
     (NewCoordinatorWithPower ex_config (ex_backend stops) (Some new_tracker) None)
       \<lparr>co_state := StateReady, co_current := ''a''\<rparr>"

definition ex_clocks :: clocks where
  "ex_clocks = \<lparr>ck_now = 100 * second, ck_wall = 100 * second\<rparr>"

definition ex_swap_env :: swap_env where
  "ex_swap_env = \<lparr>sw_start = 100 * second, sw_end = 103 * second, sw_done = 103 * second, sw_ready = 103 * second,
                  sw_drain = (\<lambda>t. t)\<rparr>"

lemma ex_coord_sel [simp]:
  "co_cfg (ex_coord stops) = ex_config" "co_mgr (ex_coord stops) = ex_backend stops" "co_power (ex_coord stops) = None"
  "co_state (ex_coord stops) = StateReady" "co_current (ex_coord stops) = ''a''" "\<not> co_in_progress (ex_coord stops)"
  "co_tr (ex_coord stops) = Some new_tracker" "co_last_swap_time (ex_coord stops) = 0"
  "co_failures (ex_coord stops) = 0"
  by (simp_all add: ex_coord_def NewCoordinatorWithPower_def)

lemma ex_ops [simp]:
  "cp_ops ex_cparams = proc_ops ex_config" "op_start (proc_ops cfg) = proc_start cfg" "op_stop (proc_ops cfg) = proc_stop"
  "op_verify (proc_ops cfg) = proc_verify cfg" "op_pid (proc_ops cfg) p = CurrentPID (pr_mgr p)"
  by (simp_all add: ex_cparams_def proc_ops_def)

lemma ex_coord_pid [simp]: "co_pid ex_cparams (ex_coord stops) = 41"
  by (simp add: co_pid_def CurrentPID_def ex_backend_def)

text \<open>The manager after the stop, and after the start of \<open>b\<close>.\<close>

definition ex_after_stop :: manager where
  "ex_after_stop = reap 0 RuntimeVLLM (Some ExitError) ((pr_mgr (ex_backend []))\<lparr>mg_stop_requested := True\<rparr>)"

lemma ex_stop_a:
  "proc_stop (ex_backend [ex_stopped]) =
     (None, (ex_backend [])\<lparr>pr_mgr := ex_after_stop, pr_alive := False\<rparr>)"
  by (simp add: proc_stop_def ex_backend_def Stop_def ex_stopped_def normalizeStopWaitErr_def Let_def stop_ends_def
      ex_after_stop_def ex_started_def)

lemma ex_after_stop_sel [simp]: "mg_cmd ex_after_stop = None"
  by (simp add: ex_after_stop_def reap_def ex_backend_def)

definition ex_backend_b :: proc where
  "ex_backend_b =
     (ex_backend [])\<lparr>pr_mgr := ex_started 1 42 ''b'' ex_after_stop, pr_starts := [], pr_alive := True\<rparr>"

lemma ex_start_b:
  "proc_start ex_config ''b'' ((ex_backend [])\<lparr>pr_mgr := ex_after_stop, pr_alive := False\<rparr>) = (Inr 42, ex_backend_b)"
  by (simp add: proc_start_def ex_backend_def ex_backend_b_def Start_def ex_launch) (simp add: ex_start_def)

lemma ex_verify_b:
  "proc_verify ex_config ''b'' ex_backend_b = (None, ex_backend_b\<lparr>pr_verifies := []\<rparr>)"
  by (simp add: proc_verify_def ex_backend_def ex_backend_b_def VerifyReady_def ex_ready_def verify_result_def runtime_for_def
      VerifyModelLoaded_def decode_models_page ascii_ok Let_def)

lemma ex_backend_b_sel [simp]: "mg_current_model (pr_mgr ex_backend_b) = ''b''" "pr_alive ex_backend_b"
  by (simp_all add: ex_backend_b_def)

text \<open>A request for \<open>b\<close> is accepted and the swap succeeds.\<close>

lemma ex_ask_a: "handleEnsure ex_cparams ex_clocks ''a'' (ex_coord stops) = (ReplyReady, ex_coord stops)"
  by (simp add: handleEnsure_def serving_def)

lemma ex_ask_b: "handleEnsure ex_cparams ex_clocks ''b'' (ex_coord stops) = (ReplyWait, accept ex_cparams (ex_coord stops))"
  by (simp add: handleEnsure_def serving_def backoff_left_def cooldown_left_def)

lemma ex_accept_sel [simp]:
  "co_cfg (accept ex_cparams (ex_coord stops)) = ex_config" "co_mgr (accept ex_cparams (ex_coord stops)) = ex_backend stops"
  "co_power (accept ex_cparams (ex_coord stops)) = None" "co_state (accept ex_cparams (ex_coord stops)) = StateStopping"
  "co_tr (accept ex_cparams (ex_coord stops)) = Some new_tracker" "co_current (accept ex_cparams (ex_coord stops)) = ''a''"
  by (simp_all add: accept_def cemit_def Let_def)

lemma ex_swap_b:
  "\<exists>d. doSwap ex_cparams ex_swap_env ''b'' (accept ex_cparams (ex_coord [ex_stopped])) = (None, d) \<and>
       mg_current_model (pr_mgr (co_mgr d)) = ''b'' \<and> pr_alive (co_mgr d)"
  by (simp add: doSwap_def shown_state_def stop_old_def Let_def ex_stop_a co_apply_def co_revert_def start_new_def
      ex_start_b ex_verify_b option.map_ident)

section \<open>Properties\<close>

text \<open>
  C5. In every interleaving of requests, swaps, counted requests and crashes: a swap is pending
  exactly while the coordinator is marked and in a starting or stopping state, the in-flight count
  is the number of counted requests, and between swaps the error state goes with failures counted.
\<close>

theorem coordinator_invariant:
  "creach P crash (NewCoordinatorWithPower c m (Some new_tracker) pw) s \<Longrightarrow>
   (co_in_progress (cy_c s) \<longleftrightarrow> cy_swap s \<noteq> None) \<and>
   (co_state (cy_c s) \<in> {StateStarting, StateStopping} \<longleftrightarrow> cy_swap s \<noteq> None) \<and>
   (\<forall>t. co_tr (cy_c s) = Some t \<longrightarrow> Count t = int (length (cy_routes s))) \<and>
   (cy_swap s = None \<longrightarrow> (co_state (cy_c s) = StateError \<longleftrightarrow> 0 < co_failures (cy_c s)))"
  using creach_inv[OF _ init_coord_inv, of P crash c m pw s] by (simp add: coord_inv_def swap_state_def)

lemma coordinator_invariant_witness:
  "\<not> co_in_progress (NewCoordinatorWithPower ex_config (ex_backend []) (Some new_tracker) None)"
  using coordinator_invariant[OF creach.init[of ex_cparams "\<lambda>_ _. False"
    "NewCoordinatorWithPower ex_config (ex_backend []) (Some new_tracker) None"]]
  by (simp add: init_csys_def)

text \<open>
  C25. While a swap is pending, every request for a configured model is refused at once with the
  in-progress rejection and a retry hint of five seconds, also for the model that is being loaded,
  and changes nothing but the rejection counter.
\<close>

theorem pending_swap_refuses_requests:
  "\<lbrakk>creach P crash (NewCoordinatorWithPower c m (Some new_tracker) pw) s; cy_swap s \<noteq> None;
    ResolveModel (co_cfg (cy_c s)) n = Inr x\<rbrakk> \<Longrightarrow>
   handleEnsure P k n (cy_c s) =
     (ReplyError (swap_reject RejectSwapInProgress (5 * second)), cemit (CSwapRejected RejectSwapInProgress) (cy_c s))"
  using creach_inv[OF _ init_coord_inv, of P crash c m pw s] handleEnsure_busy[of "cy_c s" n x P k] by (auto simp: refuse_def coord_inv_def swap_state_def)

definition ex_idle :: "proc coordinator" where
  "ex_idle = NewCoordinatorWithPower ex_config (ex_backend []) (Some new_tracker) None"

lemma ex_idle_ask: "handleEnsure ex_cparams ex_clocks ''b'' ex_idle = (ReplyWait, accept ex_cparams ex_idle)"
  by (simp add: handleEnsure_def serving_def backoff_left_def cooldown_left_def ex_idle_def NewCoordinatorWithPower_def)

lemma ex_idle_pending:
  "creach ex_cparams (\<lambda>_ _. False) ex_idle
     ((init_csys ex_idle)\<lparr>cy_c := accept ex_cparams ex_idle, cy_swap := Some ('''', ''b'', ''r1'')\<rparr>)"
proof (rule creach.step[OF creach.init])
  have "co_current ex_idle = ''''" "co_cfg ex_idle = ex_config" by (simp_all add: ex_idle_def NewCoordinatorWithPower_def)
  then show "cstep ex_cparams (\<lambda>_ _. False) (init_csys ex_idle)
     ((init_csys ex_idle)\<lparr>cy_c := accept ex_cparams ex_idle, cy_swap := Some ('''', ''b'', ''r1'')\<rparr>)"
    using cstep.begin_swap[of ex_cparams ex_clocks "''b''" "init_csys ex_idle" "accept ex_cparams ex_idle" "''b''"
        "ex_model ''org/b'' '''' [0, 1] None" "\<lambda>_ _. False" "''r1''"] ex_idle_ask
    by (simp add: init_csys_def)
qed

lemma pending_swap_refuses_requests_witness:
  "fst (handleEnsure ex_cparams ex_clocks ''b'' (accept ex_cparams ex_idle)) =
     ReplyError (swap_reject RejectSwapInProgress (5 * second))"
  using pending_swap_refuses_requests[OF ex_idle_pending[unfolded ex_idle_def], where n = "''b''"]
  by (simp add: ex_idle_def accept_fields NewCoordinatorWithPower_def)

text \<open>
  C26. After a failed swap that brings the count of consecutive failures to two or more, a request
  for a configured model within the backoff delay is refused with the remaining time, which is
  positive and at most a minute: 5 s, 15 s, 30 s, then 60 s.
\<close>

theorem backoff_after_failures:
  assumes swap: "performSwap P env f m rq c = (Some e, d)" and n: "1 \<le> co_failures c"
    and known: "ResolveModel (co_cfg c) name = Inr x"
    and t: "sw_done env \<le> ck_wall k" "ck_wall k < sw_done env + backoffDelay (co_failures c + 1)"
  shows "\<exists>left. handleEnsure P k name d = (ReplyError (swap_reject RejectBackoff left), cemit (CSwapRejected RejectBackoff) d) \<and>
           left = sw_done env + backoffDelay (co_failures c + 1) - ck_wall k \<and> 0 < left \<and> left \<le> 60 * second"
proof -
  let ?left = "sw_done env + backoffDelay (co_failures c + 1) - ck_wall k"
  have r: "co_state d = StateError" "co_failures d = co_failures c + 1" "co_in_progress d = False" "co_cfg d = co_cfg c"
    using performSwap_result[OF swap] by simp_all
  have lf: "co_last_failure d = sw_done env"
    using swap by (auto simp: performSwap_def handleSwapDone_def split: prod.splits option.splits)
  have b: "0 < backoffDelay (co_failures c + 1)" "backoffDelay (co_failures c + 1) \<le> 60 * second"
    using n by (auto simp: backoffDelay_def second_def)
  then have "time_sub (sw_done env + backoffDelay (co_failures c + 1)) (ck_wall k) = ?left"
    using t by (simp add: time_sub_def max_int64_def min_int64_def second_def)
  then have left: "backoff_left k d = ?left" using b n by (simp add: backoff_left_def r lf)
  have "0 < ?left" "?left \<le> 60 * second" using t b by simp_all
  with left r known show ?thesis
    by (cases x) (simp add: handleEnsure_def serving_def refuse_def)
qed

text \<open>A coordinator in the error state whose stop hangs.\<close>

definition ex_failing :: "proc coordinator" where
  "ex_failing = (ex_coord [ex_hangs])\<lparr>co_state := StateStopping, co_failures := 1\<rparr>"

lemma ex_stop_hangs:
  "proc_stop (ex_backend (ex_hangs # rest)) =
     (Some (MgrStop StopCtxError), (ex_backend rest)\<lparr>pr_mgr := (pr_mgr (ex_backend rest))\<lparr>mg_stop_requested := True\<rparr>\<rparr>)"
  by (simp add: proc_stop_def ex_backend_def Stop_def ex_hangs_def Let_def stop_ends_def)

lemma ex_failed_swap:
  "\<exists>d. performSwap ex_cparams ex_swap_env ''a'' ''b'' ''r1'' ex_failing = (Some (RouteManager (MgrStop StopCtxError)), d)"
  by (simp add: performSwap_def doSwap_def shown_state_def stop_old_def Let_def ex_stop_hangs ex_failing_def)

lemma backoff_after_failures_witness:
  "\<exists>d. performSwap ex_cparams ex_swap_env ''a'' ''b'' ''r1'' ex_failing = (Some (RouteManager (MgrStop StopCtxError)), d) \<and>
     fst (handleEnsure ex_cparams \<lparr>ck_now = 0, ck_wall = 105 * second\<rparr> ''b'' d) =
       ReplyError (swap_reject RejectBackoff (3 * second))"
proof -
  obtain d where d: "performSwap ex_cparams ex_swap_env ''a'' ''b'' ''r1'' ex_failing = (Some (RouteManager (MgrStop StopCtxError)), d)"
    using ex_failed_swap by blast
  have "ResolveModel (co_cfg ex_failing) ''b'' = Inr (''b'', ex_model ''org/b'' '''' [0, 1] None)"
    "co_failures ex_failing = 1" by (simp_all add: ex_failing_def)
  with backoff_after_failures[OF d, of "''b''" _ "\<lparr>ck_now = 0, ck_wall = 105 * second\<rparr>"]
  have "fst (handleEnsure ex_cparams \<lparr>ck_now = 0, ck_wall = 105 * second\<rparr> ''b'' d) =
      ReplyError (swap_reject RejectBackoff (3 * second))"
    by (simp add: ex_swap_env_def backoffDelay_def second_def)
  with d show ?thesis by blast
qed

text \<open>
  C10. A swap that returns no error stopped the old process first where the coordinator believed in
  one, started the new one from a manager that had no live process, and saw it verified; the
  coordinator is then ready on the model with no failures. A swap that fails leaves the current model
  alone and counts one more failure.
\<close>

theorem swap_replaces_the_process:
  assumes "proc_inv (co_mgr c)" "cp_ops P = proc_ops cfg" "performSwap P env f model rq c = (r, d)"
  shows "(r = None \<longrightarrow> co_state d = StateReady \<and> co_current d = model \<and> co_failures d = 0 \<and>
            (\<exists>c1. after_stop P env c c1 \<and> \<not> pr_alive (co_mgr c1) \<and>
               (\<exists>pid m. op_start (proc_ops cfg) model (co_mgr c1) = (Inr pid, m) \<and> pr_alive m \<and>
                        op_verify (proc_ops cfg) model m = (None, co_mgr d)))) \<and>
         (r \<noteq> None \<longrightarrow> co_state d = StateError \<and> co_current d = co_current c \<and> co_failures d = co_failures c + 1) \<and>
         proc_inv (co_mgr d)"
proof -
  obtain c' where s: "doSwap P env model c = (r, c')" and d: "co_mgr d = co_mgr c'"
    using assms(3) by (auto simp: performSwap_def handleSwapDone_def split: prod.splits option.splits)
  from proc_manager.doSwap_mgr[OF assms(1,2) s] d performSwap_result(4,5)[OF assms(3)] show ?thesis
    by (auto simp: clean_swap_def)
qed

lemma swap_replaces_the_process_witness:
  "\<exists>d. performSwap ex_cparams ex_swap_env ''a'' ''b'' ''r1'' (accept ex_cparams (ex_coord [ex_stopped])) = (None, d) \<and>
       co_state d = StateReady \<and> co_current d = ''b''"
proof -
  obtain d where d: "performSwap ex_cparams ex_swap_env ''a'' ''b'' ''r1'' (accept ex_cparams (ex_coord [ex_stopped])) = (None, d)"
    using ex_swap_b by (auto simp: performSwap_def)
  have "proc_inv (ex_backend [ex_stopped])" by (simp add: proc_inv_def ex_backend_def ex_start_def)
  with swap_replaces_the_process[OF _ _ d, of ex_config] d show ?thesis by simp
qed

text \<open>
  C38. When stopping the old process fails, the coordinator is stuck until that process dies: the
  swap ends in the error state, the next accepted request skips the stop because the state is no
  longer ready, and its start is refused as already running.
\<close>

theorem failed_stop_blocks_later_swaps:
  assumes P: "cp_ops P = proc_ops cfg" "co_power c = None"
    and stop: "co_state c = StateStopping" "mg_cmd (pr_mgr (co_mgr c)) \<noteq> None" "mg_pid (pr_mgr (co_mgr c)) \<noteq> 0"
      "pr_stops (co_mgr c) = st # stops" "sp_outcome st = NoExit"
    and known: "ResolveModel (co_cfg c) m1 = Inr x" "ResolveModel (co_cfg c) m2 = Inr y"
    and start: "pr_starts (co_mgr c) = se # starts" "\<not> se_ctx_err se"
  shows "\<exists>d e. performSwap P env f m1 rq c = (Some (RouteManager (MgrStop StopCtxError)), d) \<and> co_state d = StateError \<and>
     performSwap P env' g m2 rq' (accept P d) =
       (Some (RouteManager (MgrStart (AlreadyRunning (mg_pid (pr_mgr (co_mgr c)))))), e) \<and> co_state e = StateError"
proof -
  let ?p = "co_mgr c"
  let ?q = "?p\<lparr>pr_mgr := (pr_mgr ?p)\<lparr>mg_stop_requested := True\<rparr>, pr_stops := stops\<rparr>"
  have ps: "proc_stop ?p = (Some (MgrStop StopCtxError), ?q)"
    using stop by (auto simp: proc_stop_def Stop_def Let_def stop_ends_def)
  obtain d where d: "performSwap P env f m1 rq c = (Some (RouteManager (MgrStop StopCtxError)), d)"
    and dm: "co_mgr d = ?q" "co_state d = StateError" "co_cfg d = co_cfg c" "co_power d = None"
    using stop(1) known(1) P ps
    by (cases x) (auto simp: performSwap_def doSwap_def shown_state_def stop_old_def Let_def handleSwapDone_def)
  let ?a = "accept P d"
  have a: "co_state ?a = StateStarting" "co_mgr ?a = ?q" "co_cfg ?a = co_cfg c" "co_power ?a = None"
    by (simp_all add: accept_def cemit_def Let_def dm)
  have "\<exists>q'. proc_start cfg m2 ?q = (Inl (MgrStart (AlreadyRunning (mg_pid (pr_mgr ?p)))), q')"
    using start stop(2) by (simp add: proc_start_def Start_def)
  then obtain e where "performSwap P env' g m2 rq' ?a =
       (Some (RouteManager (MgrStart (AlreadyRunning (mg_pid (pr_mgr (co_mgr c)))))), e)" "co_state e = StateError"
    using known(2) P a
    by (cases y) (auto simp: performSwap_def doSwap_def shown_state_def co_apply_def start_new_def handleSwapDone_def)
  with d dm(2) show ?thesis by blast
qed

lemma failed_stop_blocks_later_swaps_witness:
  "\<exists>d e. performSwap ex_cparams ex_swap_env ''a'' ''b'' ''r1'' (accept ex_cparams (ex_coord [ex_hangs])) =
         (Some (RouteManager (MgrStop StopCtxError)), d) \<and>
     performSwap ex_cparams ex_swap_env ''a'' ''b'' ''r2'' (accept ex_cparams d) =
         (Some (RouteManager (MgrStart (AlreadyRunning 41))), e)"
  using failed_stop_blocks_later_swaps[of ex_cparams ex_config "accept ex_cparams (ex_coord [ex_hangs])" ex_hangs "[]" "''b''"
      _ "''b''" _ "ex_start 1 (Some 42)" "[]" ex_swap_env "''a''" "''r1''" ex_swap_env "''a''" "''r2''"]
  by (simp add: ex_backend_def ex_hangs_def) (auto simp: ex_start_def)

text \<open>
  C39. The legacy router counts a request only after \<open>EnsureModel\<close> has returned, so a swap can
  drain at zero in between: a request admitted for one model is then counted, and routed, while the
  process serves another one.
\<close>

theorem admitted_request_can_meet_another_model:
  "\<exists>s. creach ex_cparams (\<lambda>_ _. False) (ex_coord [ex_stopped]) s \<and> cy_routes s = [''a''] \<and>
       co_state (cy_c s) = StateReady \<and> co_current (cy_c s) = ''b'' \<and>
       mg_current_model (pr_mgr (co_mgr (cy_c s))) = ''b''"
proof -
  let ?c = "ex_coord [ex_stopped]"
  let ?s1 = "(init_csys ?c)\<lparr>cy_admitted := [''a'']\<rparr>"
  let ?s2 = "?s1\<lparr>cy_c := accept ex_cparams ?c, cy_swap := Some (''a'', ''b'', ''r1'')\<rparr>"
  have s1: "cstep ex_cparams (\<lambda>_ _. False) (init_csys ?c) ?s1"
    using cstep.ready[of ex_cparams ex_clocks "''a''" "init_csys ?c" ?c "''a''" "ex_model ''org/a'' '''' [0] None"]
    by (simp add: init_csys_def ex_ask_a)
  have s2: "cstep ex_cparams (\<lambda>_ _. False) ?s1 ?s2"
    using cstep.begin_swap[of ex_cparams ex_clocks "''b''" ?s1 "accept ex_cparams ?c" "''b''"
        "ex_model ''org/b'' '''' [0, 1] None" "\<lambda>_ _. False" "''r1''"]
    by (simp add: init_csys_def ex_ask_b)
  obtain d where d: "performSwap ex_cparams ex_swap_env ''a'' ''b'' ''r1'' (accept ex_cparams ?c) = (None, d)"
    "mg_current_model (pr_mgr (co_mgr d)) = ''b''" "co_state d = StateReady" "co_current d = ''b''"
    using ex_swap_b by (auto simp: performSwap_def handleSwapDone_def)
  let ?s3 = "?s2\<lparr>cy_c := d, cy_swap := None\<rparr>"
  have s3: "cstep ex_cparams (\<lambda>_ _. False) ?s2 ?s3"
    using cstep.swap[of ?s2 "''a''" "''b''" "''r1''" ex_swap_env ex_cparams None d "[''a'']" "\<lambda>_ _. False"] d(1)
    by (simp add: ex_swap_env_def init_csys_def)
  let ?s4 = "?s3\<lparr>cy_c := track_request d, cy_admitted := [], cy_routes := [''a'']\<rparr>"
  have s4: "cstep ex_cparams (\<lambda>_ _. False) ?s3 ?s4"
    using cstep.track[of ?s3 "[]" "''a''" "[]" ex_cparams "\<lambda>_ _. False"] by (simp add: init_csys_def)
  have "creach ex_cparams (\<lambda>_ _. False) ?c ?s4"
    by (rule creach.step[OF creach.step[OF creach.step[OF creach.step[OF creach.init s1] s2] s3] s4])
  with d show ?thesis by (intro exI[of _ ?s4]) (simp add: track_request_def)
qed

text \<open>
  When \<open>EnsureModel\<close> returns nil, the legacy router always returns a route, and has counted the
  request exactly once: the error return after \<open>Track\<close>, which would leave the request counted for
  ever, cannot be reached.
\<close>

theorem legacy_route_is_counted:
  assumes "EnsureModel P env k name c = (None, c1)" "co_cfg c1 = co_cfg c"
  shows "\<exists>rt. legacy_AcquireRoute P env k name c = (Inr rt, track_request c1) \<and> rt_base_url rt = legacy_url (co_cfg c)"
proof -
  have "\<exists>x. ResolveModel (co_cfg c) name = Inr x"
    using assms(1) by (cases "ResolveModel (co_cfg c) name") (auto simp: EnsureModel_def handleEnsure_def split: if_splits)
  then obtain r mc where "ResolveModel (co_cfg c) name = Inr (r, mc)" by fastforce
  with assms show ?thesis by (simp add: legacy_AcquireRoute_def Let_def track_request_def)
qed

lemma legacy_route_is_counted_witness:
  "\<exists>rt. legacy_AcquireRoute ex_cparams \<lparr>ee_sent = True, ee_answered = True, ee_wait = (\<lambda>c. (SwapTimer, c))\<rparr> ex_clocks ''a''
     (ex_coord []) = (Inr rt, track_request (ex_coord []))"
  using legacy_route_is_counted[of ex_cparams "\<lparr>ee_sent = True, ee_answered = True, ee_wait = (\<lambda>c. (SwapTimer, c))\<rparr>"
      ex_clocks "''a''" "ex_coord []" "ex_coord []"]
  by (auto simp: EnsureModel_def ex_ask_a)

end
