(* ===== verification/Metrics.thy ===== *)
theory Metrics
  imports Scheduler Coordinator
begin

text \<open>
  The metrics of \<open>internal/metrics/metrics.go\<close>: what is registered, and the calls behind the
  events the routers and the server record. The client library is not modelled; it panics when a
  name is registered twice and when a call has the wrong number of label values.
\<close>

section \<open>Registered metrics\<close>

datatype metric_kind = Counter | Histogram | Gauge

record descriptor =
  md_name :: string
  md_kind :: metric_kind
  md_labels :: "string list"

definition RequestsTotal :: descriptor where
  "RequestsTotal = \<lparr>md_name = ''jukebox_requests_total'', md_kind = Counter, md_labels = [''model'', ''status'']\<rparr>"

definition SwapsTotal :: descriptor where
  "SwapsTotal = \<lparr>md_name = ''jukebox_swaps_total'', md_kind = Counter, md_labels = [''from'', ''to'']\<rparr>"

definition SwapRejectionsTotal :: descriptor where
  "SwapRejectionsTotal = \<lparr>md_name = ''jukebox_swap_rejections_total'', md_kind = Counter, md_labels = [''reason'']\<rparr>"

definition SwapDurationSeconds :: descriptor where
  "SwapDurationSeconds = \<lparr>md_name = ''jukebox_swap_duration_seconds'', md_kind = Histogram, md_labels = []\<rparr>"

definition RequestDurationSeconds :: descriptor where
  "RequestDurationSeconds = \<lparr>md_name = ''jukebox_request_duration_seconds'', md_kind = Histogram, md_labels = [''model'']\<rparr>"

definition StateGauge :: descriptor where
  "StateGauge = \<lparr>md_name = ''jukebox_state'', md_kind = Gauge, md_labels = [''state'']\<rparr>"

definition InFlightRequests :: descriptor where
  "InFlightRequests = \<lparr>md_name = ''jukebox_in_flight_requests'', md_kind = Gauge, md_labels = []\<rparr>"

definition CurrentModel :: descriptor where
  "CurrentModel = \<lparr>md_name = ''jukebox_current_model'', md_kind = Gauge, md_labels = [''model'']\<rparr>"

definition ConsecutiveFailures :: descriptor where
  "ConsecutiveFailures = \<lparr>md_name = ''jukebox_consecutive_failures'', md_kind = Gauge, md_labels = []\<rparr>"

definition RunningInstances :: descriptor where
  "RunningInstances = \<lparr>md_name = ''jukebox_running_instances'', md_kind = Gauge, md_labels = [''model'', ''port'']\<rparr>"

definition InstanceInFlightRequests :: descriptor where
  "InstanceInFlightRequests =
     \<lparr>md_name = ''jukebox_instance_in_flight_requests'', md_kind = Gauge, md_labels = [''model'', ''port'']\<rparr>"

definition EvictionsTotal :: descriptor where
  "EvictionsTotal = \<lparr>md_name = ''jukebox_evictions_total'', md_kind = Counter, md_labels = [''model'']\<rparr>"

definition ScheduleRejectionsTotal :: descriptor where
  "ScheduleRejectionsTotal = \<lparr>md_name = ''jukebox_schedule_rejections_total'', md_kind = Counter, md_labels = [''reason'']\<rparr>"

definition registered :: "descriptor list" where
  "registered =
     [RequestsTotal, SwapsTotal, SwapRejectionsTotal, SwapDurationSeconds, RequestDurationSeconds, StateGauge,
      InFlightRequests, CurrentModel, ConsecutiveFailures, RunningInstances, InstanceInFlightRequests,
      EvictionsTotal, ScheduleRejectionsTotal]"

lemmas descriptor_defs =
  RequestsTotal_def SwapsTotal_def SwapRejectionsTotal_def SwapDurationSeconds_def RequestDurationSeconds_def
  StateGauge_def InFlightRequests_def CurrentModel_def ConsecutiveFailures_def RunningInstances_def
  InstanceInFlightRequests_def EvictionsTotal_def ScheduleRejectionsTotal_def

section \<open>Calls\<close>

datatype metric_op = Inc | SetTo int | Observe duration

type_synonym metric_call = "descriptor \<times> string list \<times> metric_op"

definition ObserveRequest :: "int \<Rightarrow> string \<Rightarrow> duration \<Rightarrow> metric_call list" where
  "ObserveRequest statusCode model dur =
     (let m = (if model = '''' then ''unknown'' else model)
      in [(RequestsTotal, [m, itoa statusCode], Inc), (RequestDurationSeconds, [m], Observe dur)])"

definition SetState :: "string \<Rightarrow> metric_call list" where
  "SetState state =
     map (\<lambda>s. (StateGauge, [s], SetTo (if s = state then 1 else 0)))
       [''idle'', ''starting'', ''ready'', ''stopping'', ''error'']"

text \<open>The calls behind an event of the scheduler and of the coordinator.\<close>

fun metric_calls :: "metric \<Rightarrow> metric_call list" where
  "metric_calls (ScheduleRejected r) = [(ScheduleRejectionsTotal, [reason_string r], Inc)]"
| "metric_calls (SwapRejected r) = [(SwapRejectionsTotal, [reason_string r], Inc)]"
| "metric_calls (Evicted m) = [(EvictionsTotal, [m], Inc)]"
| "metric_calls (RunningSet m port on) = [(RunningInstances, [m, itoa port], SetTo (if on then 1 else 0))]"
| "metric_calls (InstanceInFlight m port n) = [(InstanceInFlightRequests, [m, itoa port], SetTo n)]"
| "metric_calls (InFlight n) = [(InFlightRequests, [], SetTo n)]"

fun cmetric_calls :: "cmetric \<Rightarrow> metric_call list" where
  "cmetric_calls (CState st) = SetState (state_string st)"
| "cmetric_calls (CSwapRejected r) = [(SwapRejectionsTotal, [reason_string r], Inc)]"
| "cmetric_calls (CSwap f t d) = [(SwapsTotal, [f, t], Inc), (SwapDurationSeconds, [], Observe d)]"
| "cmetric_calls (CFailures n) = [(ConsecutiveFailures, [], SetTo n)]"
| "cmetric_calls (CCurrentModel m on) = [(CurrentModel, [m], SetTo (if on then 1 else 0))]"

text \<open>A call the library accepts.\<close>

fun op_fits :: "metric_op \<Rightarrow> metric_kind \<Rightarrow> bool" where
  "op_fits Inc k \<longleftrightarrow> k = Counter"
| "op_fits (SetTo n) k \<longleftrightarrow> k = Gauge"
| "op_fits (Observe d) k \<longleftrightarrow> k = Histogram"

definition call_fits :: "metric_call \<Rightarrow> bool" where
  "call_fits c \<longleftrightarrow>
     (case c of (d, labels, op) \<Rightarrow> d \<in> set registered \<and> length labels = length (md_labels d) \<and> op_fits op (md_kind d))"

text \<open>What the last call left in a gauge.\<close>

fun gauge_after :: "metric_call list \<Rightarrow> descriptor \<Rightarrow> string list \<Rightarrow> int \<Rightarrow> int" where
  "gauge_after [] d ls v = v"
| "gauge_after ((d', ls', op) # cs) d ls v =
     gauge_after cs d ls (case op of SetTo n \<Rightarrow> if d' = d \<and> ls' = ls then n else v | _ \<Rightarrow> v)"

lemma registered_in [simp]: "d \<in> {RequestsTotal, SwapsTotal, SwapRejectionsTotal, SwapDurationSeconds, RequestDurationSeconds,
    StateGauge, InFlightRequests, CurrentModel, ConsecutiveFailures, RunningInstances, InstanceInFlightRequests,
    EvictionsTotal, ScheduleRejectionsTotal} \<Longrightarrow> d \<in> set registered"
  by (simp add: registered_def)

lemma metric_calls_fit: "c \<in> set (metric_calls e) \<Longrightarrow> call_fits c"
  by (cases e) (simp_all add: call_fits_def, simp_all add: descriptor_defs)

lemma SetState_fit: "c \<in> set (SetState st) \<Longrightarrow> call_fits c"
  by (auto simp: SetState_def call_fits_def) (simp_all add: descriptor_defs)

lemma cmetric_calls_fit: "c \<in> set (cmetric_calls e) \<Longrightarrow> call_fits c"
proof (cases e)
  case (CState st)
  then show "c \<in> set (cmetric_calls e) \<Longrightarrow> call_fits c" using SetState_fit by simp
qed (auto simp: call_fits_def, simp_all add: descriptor_defs)

lemma ObserveRequest_fit: "c \<in> set (ObserveRequest st m d) \<Longrightarrow> call_fits c"
  by (auto simp: ObserveRequest_def call_fits_def Let_def) (simp_all add: descriptor_defs)

lemma registered_distinct: "distinct (map md_name registered)"
  by (simp add: registered_def descriptor_defs)

lemma SetState_gauge:
  "gauge_after (SetState (state_string st)) StateGauge [state_string u] v = (if st = u then 1 else 0)"
  by (cases st; cases u) (simp_all add: SetState_def)

end
