(* ===== verification/Metrics_Properties.thy ===== *)
theory Metrics_Properties
  imports Metrics Coordinator_Properties
begin

text \<open>The properties of the metrics: the calls the program makes, and what the state gauge shows.\<close>

text \<open>
  Every metrics call of the program is one the client library accepts: the metric is registered,
  the number of labels is right and the operation fits its kind; no two metrics share a name, so the
  registration at start-up does not panic.
\<close>

theorem metric_calls_are_well_formed:
  "distinct (map md_name registered) \<and>
   (\<forall>call. call \<in> set (metric_calls e) \<union> set (cmetric_calls ce) \<union> set (ObserveRequest st m d) \<union> set (SetState u) \<longrightarrow>
      call_fits call)"
  using registered_distinct metric_calls_fit cmetric_calls_fit ObserveRequest_fit SetState_fit by auto

lemma metric_calls_are_well_formed_witness:
  "call_fits (EvictionsTotal, [''a''], Inc)"
  using metric_calls_are_well_formed[of "Evicted ''a''" "CFailures 0" 200 "''''" 0 "''idle''"] by simp

section \<open>The state gauge\<close>

text \<open>The calls since the start of the program, in order: \<open>main\<close> sets the idle state first.\<close>

definition state_calls :: "'m coordinator \<Rightarrow> metric_call list" where
  "state_calls c = SetState ''idle'' @ concat (map cmetric_calls (rev (co_metrics c)))"

definition gauge_shows :: "'m coordinator \<Rightarrow> State \<Rightarrow> bool" where
  "gauge_shows c st \<longleftrightarrow> (\<forall>u. gauge_after (state_calls c) StateGauge [state_string u] 0 = (if u = st then 1 else 0))"

lemma gauge_after_append: "gauge_after (as @ bs) d ls v = gauge_after bs d ls (gauge_after as d ls v)"
  by (induction as d ls v rule: gauge_after.induct) simp_all

lemma other_gauges:
  "gauge_after (cmetric_calls (CSwapRejected r)) StateGauge ls v = v"
  "gauge_after (cmetric_calls (CSwap f t d)) StateGauge ls v = v"
  "gauge_after (cmetric_calls (CFailures n)) StateGauge ls v = v"
  "gauge_after (cmetric_calls (CCurrentModel m on)) StateGauge ls v = v"
  by (simp_all add: descriptor_defs)

lemma state_gauge:
  "gauge_after (cmetric_calls (CState st)) StateGauge [state_string u] v = (if u = st then 1 else 0)"
  using SetState_gauge[of st u v] by auto

declare cmetric_calls.simps [simp del]

lemma gauge_start: "gauge_shows (NewCoordinatorWithPower c m tr pw) StateIdle"
  using SetState_gauge[of StateIdle _ 0] by (auto simp: gauge_shows_def state_calls_def NewCoordinatorWithPower_def)

lemma gauge_state: "co_metrics d = CState st # ms \<Longrightarrow> gauge_shows d st"
  by (simp add: gauge_shows_def state_calls_def gauge_after_append state_gauge)

lemma gauge_other:
  "\<lbrakk>co_metrics d = e # co_metrics c; e \<notin> range CState; gauge_shows c st\<rbrakk> \<Longrightarrow> gauge_shows d st"
  by (cases e) (simp_all add: gauge_shows_def state_calls_def gauge_after_append other_gauges)

text \<open>A list of events shows its last state.\<close>

lemma gauge_list:
  "\<lbrakk>\<forall>e \<in> set es. e \<notin> range CState; co_metrics d = es @ CState st # ms\<rbrakk> \<Longrightarrow> gauge_shows d st"
proof (induction es arbitrary: d)
  case Nil
  then show ?case by (simp add: gauge_state)
next
  case (Cons e es)
  let ?c = "d\<lparr>co_metrics := es @ CState st # ms\<rparr>"
  from Cons have "gauge_shows ?c st" by simp
  with Cons.prems show ?case by (intro gauge_other[of d e ?c]) simp_all
qed

lemma gauge_metrics: "co_metrics d = co_metrics c \<Longrightarrow> gauge_shows d st = gauge_shows c st"
  by (simp add: gauge_shows_def state_calls_def)

lemma doSwap_metrics:
  assumes "doSwap P env model c = (r, d)"
  shows "co_metrics d = co_metrics c"
proof -
  have old: "co_metrics y = co_metrics x" if "stop_old P env x = (e, y)" for x y e
    using that by (auto simp: stop_old_def Let_def co_revert_def split: prod.splits option.splits if_splits)
  have power: "co_metrics y = co_metrics x" if "co_apply P mc x = (e, y)" for mc x y e
    using that by (auto simp: co_apply_def split: prod.splits option.splits if_splits)
  have new: "co_metrics y = co_metrics x" if "start_new P model mc x = (e, y)" for mc x y e
    using that by (auto simp: start_new_def co_revert_def split: prod.splits sum.splits option.splits if_splits)
  have after: "co_metrics c1 = co_metrics c" if "after_stop P env c c1" for c1
    using that old by (auto simp: after_stop_def split: if_splits)
  show ?thesis
    using assms by (cases rule: doSwap_cases) (auto dest!: old power new after)
qed

lemma performSwap_gauge:
  assumes "performSwap P env f m rq c = (err, d)"
  shows "gauge_shows d (co_state d)"
proof -
  obtain e c1 where s: "doSwap P env m c = (e, c1)" by fastforce
  show ?thesis
  proof (cases e)
    case None
    then have d: "co_state d = StateReady" "co_metrics d = swap_ok_metrics f m (time_sub (sw_end env) (sw_start env)) @ co_metrics c1"
      using assms s by (auto simp: performSwap_def handleSwapDone_def)
    let ?es = "(if m \<noteq> '''' then [CCurrentModel m True] else []) @
      (if f \<noteq> '''' \<and> f \<noteq> m then [CCurrentModel f False] else []) @ [CFailures 0] @
      (if f \<noteq> '''' \<or> m \<noteq> '''' then [CSwap f m (time_sub (sw_end env) (sw_start env))] else [])"
    have "co_metrics d = ?es @ CState StateReady # co_metrics c1" unfolding d(2) swap_ok_metrics_def by simp
    then show ?thesis unfolding d(1) by (rule gauge_list[rotated]) auto
  next
    case (Some x)
    then have d: "co_state d = StateError" "co_metrics d = [CFailures (co_failures c1 + 1)] @ CState StateError # co_metrics c1"
      using assms s by (auto simp: performSwap_def handleSwapDone_def)
    show ?thesis unfolding d(1) by (rule gauge_list[OF _ d(2)]) auto
  qed
qed

lemma handleEnsure_gauge:
  assumes "handleEnsure P k n c = (r, d)" "gauge_shows c (co_state c)"
  shows "gauge_shows d (co_state d)"
proof -
  have refused: "gauge_shows d (co_state d)" if "refuse x y c = (r, d)" for x y
  proof -
    from that have d: "d = cemit (CSwapRejected x) c" by (simp add: refuse_def)
    have "co_metrics d = CSwapRejected x # co_metrics c" "co_state d = co_state c" by (simp_all add: d cemit_def)
    moreover have "CSwapRejected x \<notin> range CState" by blast
    ultimately show ?thesis using gauge_other assms(2) by metis
  qed
  have accepted: "gauge_shows (accept P c) (co_state (accept P c))"
    by (rule gauge_state[of _ _ "co_metrics c"]) (simp add: accept_def cemit_def shown_state_def Let_def)
  show ?thesis
  proof (cases "ResolveModel (co_cfg c) n")
    case (Inl e)
    with assms show ?thesis by (simp add: handleEnsure_def)
  next
    case (Inr x)
    obtain resolved mc where x: "x = (resolved, mc)" by fastforce
    from assms(1) have "d = c \<or> (\<exists>x y. refuse x y c = (r, d)) \<or> d = accept P c"
      unfolding handleEnsure_def Inr x sum.case prod.case by (simp split: if_split_asm) blast+
    with assms(2) refused accepted show ?thesis by blast
  qed
qed

lemma creach_gauge: "creach P crash (NewCoordinatorWithPower c m tr pw) s \<Longrightarrow> gauge_shows (cy_c s) (co_state (cy_c s))"
proof (induction rule: creach.induct)
  case init
  show ?case using gauge_start[of c m tr pw] by (simp add: init_csys_def) (simp add: NewCoordinatorWithPower_def)
next
  case (step s t)
  from step(2) show ?case
    by cases (use step handleEnsure_gauge performSwap_gauge in
      \<open>auto simp: track_request_def release_request_def gauge_metrics[of "c\<lparr>co_tr := x\<rparr>" c for c x]
         gauge_metrics[of "c\<lparr>co_mgr := x\<rparr>" c for c x]\<close>)
qed



end
