(* ===== verification/Proxy.thy ===== *)
theory Proxy
  imports Json
begin

text \<open>
  The forwarding of one request to a backend, \<open>internal/proxy\<close>: rewriting the model field of
  JSON bodies and of server-sent events, the headers that are passed on, and \<open>ForwardFiber\<close>.
  \<open>num64\<close> says how a number is written after it has been read into a \<open>float64\<close>, \<^term>\<open>None\<close>
  when it does not fit.
\<close>

section \<open>JSON bodies\<close>

text \<open>A value as the decoder builds it for \<open>any\<close>: objects become maps, later members win.\<close>

definition go_object :: "(string \<times> json) list \<Rightarrow> (string, json) gomap" where
  "go_object kvs = sort_key fst (put_all kvs [])"

primrec to_any :: "(string \<Rightarrow> string option) \<Rightarrow> json \<Rightarrow> json option" where
  "to_any num64 JNull = Some JNull"
| "to_any num64 (JBool b) = Some (JBool b)"
| "to_any num64 (JNum n) = map_option JNum (num64 n)"
| "to_any num64 (JStr s) = Some (JStr s)"
| "to_any num64 (JArr xs) = map_option JArr (those (map (to_any num64) xs))"
| "to_any num64 (JObj kvs) =
     map_option (\<lambda>m. JObj (go_object m))
       (those (map (\<lambda>(k, v). map_option (Pair k) v) (map (map_prod id (to_any num64)) kvs)))"

datatype json_error = SyntaxError | TypeError

text \<open>\<open>json.Unmarshal\<close> into a \<open>map[string]any\<close>.\<close>

definition unmarshal_map :: "(string \<Rightarrow> string option) \<Rightarrow> string \<Rightarrow> json_error + (string, json) gomap" where
  "unmarshal_map num64 body =
     (case parse_json body of
        None \<Rightarrow> Inl SyntaxError
      | Some JNull \<Rightarrow> Inr []
      | Some v \<Rightarrow> (case to_any num64 v of Some (JObj m) \<Rightarrow> Inr m | _ \<Rightarrow> Inl TypeError))"

text \<open>\<open>json.Marshal\<close> of such a map: the keys are written in order.\<close>

definition marshal_map :: "(string, json) gomap \<Rightarrow> string" where
  "marshal_map m = render (JObj (sort_key fst m))"

definition RewriteJSONModel ::
  "(string \<Rightarrow> string option) \<Rightarrow> string \<Rightarrow> string \<Rightarrow> json_error + (string \<times> bool)" where
  "RewriteJSONModel num64 body requestedModel =
     (case unmarshal_map num64 body of
        Inl e \<Rightarrow> Inl e
      | Inr obj \<Rightarrow>
          if map_of obj ''model'' = None then Inr (body, False)
          else Inr (marshal_map (AList.update ''model'' (JStr requestedModel) obj), True))"

subsection \<open>What the rewritten body says\<close>

lemma set_put_all: "set (put_all kvs m) \<subseteq> set kvs \<union> set m"
proof -
  have u: "set (AList.update k v m) \<subseteq> insert (k, v) (set m)" for k v m by (induction m) auto
  show ?thesis
    unfolding put_all_def
  proof (induction kvs arbitrary: m)
    case (Cons kv kvs)
    with u[of "fst kv" "snd kv" m] show ?case by (fastforce simp: split_def)
  qed simp
qed

lemma go_object_set: "set (go_object kvs) \<subseteq> set kvs"
  using set_put_all[of kvs "[]"] by (simp add: go_object_def)

lemma go_object_ok: "gomap_ok (go_object kvs)"
  using put_all_ok[of "[]" kvs] by (simp add: go_object_def gomap_ok_def distinct_map distinct_sort inj_on_def)

lemma those_SomeD: "those xs = Some ys \<Longrightarrow> y \<in> set ys \<Longrightarrow> Some y \<in> set xs"
  by (induction xs arbitrary: ys) (auto split: option.splits)

text \<open>Decoding keeps strings, numbers it can represent and the depth.\<close>

definition num64_ok :: "(string \<Rightarrow> string option) \<Rightarrow> bool" where
  "num64_ok num64 \<longleftrightarrow> (\<forall>n m. num64 n = Some m \<longrightarrow> num_ok m)"

lemma Max_0_mono:
  "(\<And>a. a \<in> set as \<Longrightarrow> \<exists>b \<in> set bs. a \<le> b) \<Longrightarrow> Max (set (0 # as)) \<le> Max (set (0 # bs))" for as bs :: "nat list"
proof (rule Max.boundedI)
  fix x
  assume ex: "\<And>a. a \<in> set as \<Longrightarrow> \<exists>b \<in> set bs. a \<le> b" and x: "x \<in> set (0 # as)"
  have "\<exists>b \<in> set (0 # bs). x \<le> b"
  proof (cases "x \<in> set as")
    case True
    with ex show ?thesis by (meson list.set_intros(2))
  qed (use x in auto)
  then obtain b where "b \<in> set (0 # bs)" "x \<le> b" by blast
  then show "x \<le> Max (set (0 # bs))" by (meson List.finite_set Max_ge order_trans)
qed simp_all

lemma to_any_clean: "num64_ok num64 \<Longrightarrow> strings_ok v \<Longrightarrow> to_any num64 v = Some w \<Longrightarrow> clean w \<and> depth w \<le> depth v"
proof (induction v arbitrary: w)
  case (JNum n)
  then show ?case by (auto simp: num64_ok_def)
next
  case (JArr xs)
  then obtain ys where w: "w = JArr ys" and ys: "those (map (to_any num64) xs) = Some ys" by auto
  have *: "clean y \<and> (\<exists>x \<in> set xs. depth y \<le> depth x)" if y: "y \<in> set ys" for y
  proof -
    obtain x where x: "x \<in> set xs" "to_any num64 x = Some y" using those_SomeD[OF ys y] by auto
    with JArr.prems(2) have "strings_ok x" by (simp add: list_all_iff)
    with JArr.IH[OF x(1) JArr.prems(1)] x show ?thesis by blast
  qed
  then have "depth w \<le> depth (JArr xs)" unfolding w depth.simps by (intro Suc_le_mono[THEN iffD2] Max_0_mono) auto
  with * show ?case by (auto simp: w list_all_iff)
next
  case (JObj kvs)
  then obtain ys where w: "w = JObj (go_object ys)"
    and ys: "those (map (\<lambda>(k, v). map_option (Pair k) v) (map (map_prod id (to_any num64)) kvs)) = Some ys" by auto
  have *: "utf8_ok k \<and> clean y \<and> (\<exists>x \<in> set kvs. depth y \<le> depth (snd x))" if y: "(k, y) \<in> set (go_object ys)" for k y
  proof -
    have "Some (k, y) \<in> set (map (\<lambda>(k, v). map_option (Pair k) v) (map (map_prod id (to_any num64)) kvs))"
      using those_SomeD[OF ys] go_object_set y by blast
    then obtain x where x: "(k, x) \<in> set kvs" "to_any num64 x = Some y" by (auto simp: eq_commute[of "Some _"])
    with JObj.prems(2) have "utf8_ok k" "strings_ok x" by (auto simp: list_all_iff)
    with x JObj.IH[of "(k, x)" x] JObj.prems(1) show ?thesis by (auto simp: snds.simps intro: bexI[of _ "(k, x)"])
  qed
  then have "depth w \<le> depth (JObj kvs)" unfolding w depth.simps by (intro Suc_le_mono[THEN iffD2] Max_0_mono) fastforce
  with * show ?case by (auto simp: w list_all_iff)
qed auto

lemma sorted_lookup: "gomap_ok m \<Longrightarrow> map_of (sort_key fst m) k = map_of m k"
proof -
  assume m: "gomap_ok m"
  then have "gomap_ok (sort_key fst m)" by (simp add: gomap_ok_def distinct_map)
  with m have "map_of (sort_key fst m) k = Some v \<longleftrightarrow> map_of m k = Some v" for v by (simp flip: gomap_in_set)
  then show ?thesis by (metis not_Some_eq)
qed

lemma unmarshal_map_Inr:
  assumes "unmarshal_map num64 body = Inr obj" "num64_ok num64"
  shows "gomap_ok obj" "clean (JObj obj)" "depth (JObj obj) \<le> 10000"
proof -
  obtain v where v: "parse_json body = Some v" using assms(1) by (auto simp: unmarshal_map_def split: option.splits)
  then have s: "strings_ok v" "depth v \<le> 10000"
    using parse_strings_ok(1) by (auto simp: parse_json_def split: option.splits if_splits)
  consider "v = JNull" "obj = []" | kvs where "to_any num64 v = Some (JObj obj)" "v = JObj kvs"
    using assms(1) v by (cases v) (auto simp: unmarshal_map_def split: option.splits json.splits)
  then have "gomap_ok obj \<and> clean (JObj obj) \<and> depth (JObj obj) \<le> 10000"
  proof cases
    case 2
    then have "gomap_ok obj" using go_object_ok by auto
    with to_any_clean[OF assms(2) s(1) 2(1)] s(2) show ?thesis using le_trans by blast
  qed simp
  then show "gomap_ok obj" "clean (JObj obj)" "depth (JObj obj) \<le> 10000" by simp_all
qed

text \<open>
  The rewritten body is read back as the same object with the model replaced: no other member
  changes, none is added and none is lost.
\<close>

lemma RewriteJSONModel_reads_back:
  assumes r: "RewriteJSONModel num64 body requested = Inr (out, True)" and ok: "num64_ok num64" "utf8_ok requested"
  obtains obj obj' where "unmarshal_map num64 body = Inr obj" "map_of obj ''model'' \<noteq> None"
    "parse_json out = Some (JObj obj')" "map_of obj' = (map_of obj)(''model'' \<mapsto> JStr requested)"
proof -
  from r obtain obj where u: "unmarshal_map num64 body = Inr obj" and m: "map_of obj ''model'' \<noteq> None"
    and out: "out = marshal_map (AList.update ''model'' (JStr requested) obj)"
    by (auto simp: RewriteJSONModel_def split: sum.splits if_splits)
  let ?o = "AList.update ''model'' (JStr requested) obj"
  note c = unmarshal_map_Inr[OF u ok(1)]
  have sub: "set (sort_key fst ?o) \<subseteq> insert (''model'', JStr requested) (set obj)"
    using set_put_all[of "[(''model'', JStr requested)]" obj] by (auto simp: put_all_def)
  have ascii: "utf8_ok ''model''" by (simp add: utf8_ascii utf8_ok.empty)
  have "clean (JObj (sort_key fst ?o))" using sub c(2) ascii ok(2) by (fastforce simp: list_all_iff)
  moreover have d: "depth (JObj (sort_key fst ?o)) \<le> depth (JObj obj)"
    unfolding depth.simps
  proof (intro Suc_le_mono[THEN iffD2] Max_0_mono)
    fix a
    assume "a \<in> set (map snd (map (map_prod id depth) (sort_key fst ?o)))"
    then obtain k v where kv: "(k, v) \<in> set (sort_key fst ?o)" "a = depth v" by auto
    have "obj \<noteq> []" using m by auto
    then obtain x where x: "x \<in> set obj" by (cases obj) auto
    show "\<exists>b \<in> set (map snd (map (map_prod id depth) obj)). a \<le> b"
    proof (cases "(k, v) \<in> set obj")
      case True
      with kv(2) show ?thesis by (force simp: image_iff)
    next
      case False
      with kv sub have "a = 0" by auto
      with x show ?thesis by (force simp: image_iff)
    qed
  qed
  ultimately have "parse_json out = Some (JObj (sort_key fst ?o))"
    unfolding out marshal_map_def using parse_render le_trans[OF d c(3)] by blast
  moreover have "map_of (sort_key fst ?o) = (map_of obj)(''model'' \<mapsto> JStr requested)"
    using sorted_lookup[of ?o] c(1) by (auto simp: fun_eq_iff)
  ultimately show ?thesis using u m that by blast
qed

section \<open>Streams\<close>

text \<open>
  What a response body delivers: the bytes of the successive reads, and how the last one ends. A
  writer takes bytes until it fails; \<open>sk_room\<close> is how many it takes.
\<close>

datatype read_end = Eof | ReadFailed

datatype body = Chunk string body | Last string read_end

primrec content :: "body \<Rightarrow> string" where
  "content (Chunk p b) = p @ content b"
| "content (Last p e) = p"

primrec ending :: "body \<Rightarrow> read_end" where
  "ending (Chunk p b) = ending b"
| "ending (Last p e) = e"

record sink =
  sk_out :: string
  sk_room :: nat

definition sink_write :: "string \<Rightarrow> sink \<Rightarrow> nat \<times> bool \<times> sink" where
  "sink_write p w =
     (let n = min (length p) (sk_room w)
      in (n, n = length p, w\<lparr>sk_out := sk_out w @ take n p, sk_room := sk_room w - n\<rparr>))"

datatype stream_error = ReaderNil | WriterNil | StreamRead | StreamWrite

section \<open>Server-sent events\<close>

text \<open>The results of the successive \<open>ReadString\<close> calls: every line keeps its newline.\<close>

abbreviation newline :: char where
  "newline \<equiv> CHR 0x0A"

fun sse_lines :: "string \<Rightarrow> string list" where
  "sse_lines [] = []"
| "sse_lines (c # cs) =
     (if c = newline then [c] # sse_lines cs
      else (case sse_lines cs of [] \<Rightarrow> [[c]] | l # ls \<Rightarrow> (c # l) # ls))"

text \<open>The JSON text the loop writes for a \<open>data:\<close> line, \<^term>\<open>None\<close> when the line is passed on as it is.\<close>

definition sse_data :: "(string \<Rightarrow> string option) \<Rightarrow> string \<Rightarrow> string \<Rightarrow> string option" where
  "sse_data num64 requestedModel line =
     (if has_prefix line ''data:'' then
        (let rest = trim_space (trim_prefix line ''data:'')
         in if rest \<noteq> ''[DONE]'' \<and> rest \<noteq> '''' \<and> has_prefix rest ''{'' then
              (case RewriteJSONModel num64 rest requestedModel of
                 Inl e \<Rightarrow> None | Inr (rewritten, _) \<Rightarrow> Some (trim_space rewritten))
            else None)
      else None)"

text \<open>The three writes of a rewritten line ignore errors; the write of any other line does not.\<close>

fun sse_loop ::
  "(string \<Rightarrow> string option) \<Rightarrow> string \<Rightarrow> read_end \<Rightarrow> string list \<Rightarrow> sink \<Rightarrow> stream_error option \<times> sink" where
  "sse_loop num64 m e [] w = ((if e = Eof then None else Some StreamRead), w)"
| "sse_loop num64 m e (l # ls) w =
     (case sse_data num64 m l of
        Some json \<Rightarrow>
          (let w1 = snd (snd (sink_write ''data: '' w)); w2 = snd (snd (sink_write json w1));
               w3 = snd (snd (sink_write [newline] w2))
           in sse_loop num64 m e ls w3)
      | None \<Rightarrow>
          (case sink_write l w of (n, ok, w') \<Rightarrow>
             if \<not> ok then (Some StreamWrite, w') else sse_loop num64 m e ls w'))"

definition RewriteSSEModel ::
  "(string \<Rightarrow> string option) \<Rightarrow> body option \<Rightarrow> sink option \<Rightarrow> string \<Rightarrow> stream_error option \<times> sink option" where
  "RewriteSSEModel num64 r w requestedModel =
     (case r of None \<Rightarrow> (Some ReaderNil, w)
      | Some b \<Rightarrow>
          (case w of None \<Rightarrow> (Some WriterNil, w)
           | Some w0 \<Rightarrow> apsnd Some (sse_loop num64 requestedModel (ending b) (sse_lines (content b)) w0)))"

section \<open>Copying\<close>

text \<open>\<open>copyWithFlush\<close>: each read is written and flushed; the result counts the bytes written.\<close>

fun copy_loop :: "nat \<Rightarrow> body \<Rightarrow> sink \<Rightarrow> (nat \<times> stream_error option) \<times> sink" where
  "copy_loop cnt (Chunk p b) w =
     (if p = [] then copy_loop cnt b w
      else (case sink_write p w of (n, ok, w') \<Rightarrow>
              if \<not> ok then ((cnt + n, Some StreamWrite), w') else copy_loop (cnt + n) b w'))"
| "copy_loop cnt (Last p e) w =
     (let r = (if e = Eof then None else Some StreamRead)
      in if p = [] then ((cnt, r), w)
         else (case sink_write p w of (n, ok, w') \<Rightarrow>
                 if \<not> ok then ((cnt + n, Some StreamWrite), w') else ((cnt + n, r), w')))"

definition copyWithFlush :: "body \<Rightarrow> sink \<Rightarrow> (nat \<times> stream_error option) \<times> sink" where
  "copyWithFlush r w = copy_loop 0 r w"

subsection \<open>What arrives\<close>

lemma sink_write_room:
  "length p \<le> sk_room w \<Longrightarrow> sink_write p w = (length p, True, \<lparr>sk_out = sk_out w @ p, sk_room = sk_room w - length p\<rparr>)"
  by (simp add: sink_write_def Let_def min_def)

lemma concat_sse_lines: "concat (sse_lines s) = s"
  by (induction s rule: sse_lines.induct) (auto split: list.splits)

lemma sse_lines_nonempty: "[] \<notin> set (sse_lines s)"
  by (induction s rule: sse_lines.induct) (auto split: list.splits)

text \<open>The text that stands for a line in the output.\<close>

definition sse_line :: "(string \<Rightarrow> string option) \<Rightarrow> string \<Rightarrow> string \<Rightarrow> string" where
  "sse_line num64 m l = (case sse_data num64 m l of None \<Rightarrow> l | Some json \<Rightarrow> ''data: '' @ json @ [newline])"

lemma sse_loop_out:
  "length (concat (map (sse_line num64 m) ls)) \<le> sk_room w \<Longrightarrow>
   sse_loop num64 m e ls w =
     ((if e = Eof then None else Some StreamRead),
      \<lparr>sk_out = sk_out w @ concat (map (sse_line num64 m) ls),
       sk_room = sk_room w - length (concat (map (sse_line num64 m) ls))\<rparr>)"
proof (induction ls arbitrary: w)
  case (Cons l ls)
  then show ?case by (cases "sse_data num64 m l") (simp_all add: sse_line_def sink_write_room Let_def)
qed simp

lemma copy_loop_out:
  "length (content b) \<le> sk_room w \<Longrightarrow>
   copy_loop cnt b w =
     ((cnt + length (content b), if ending b = Eof then None else Some StreamRead),
      \<lparr>sk_out = sk_out w @ content b, sk_room = sk_room w - length (content b)\<rparr>)"
  by (induction cnt b w rule: copy_loop.induct) (auto simp: sink_write_room Let_def)

section \<open>Headers\<close>

text \<open>A Go header: canonical keys with their values in order.\<close>

type_synonym headers = "(string, string list) gomap"

definition token_char :: "char \<Rightarrow> bool" where
  "token_char c \<longleftrightarrow>
     (let b = byte c
      in is_digit c \<or> 65 \<le> b \<and> b \<le> 90 \<or> 97 \<le> b \<and> b \<le> 122 \<or>
         b \<in> {33, 35, 36, 37, 38, 39, 42, 43, 45, 46, 94, 95, 96, 124, 126})"

definition upper_char :: "char \<Rightarrow> char" where
  "upper_char c = (let n = byte c in if 97 \<le> n \<and> n \<le> 122 then char_of (n - 32) else c)"

fun canon :: "bool \<Rightarrow> string \<Rightarrow> string" where
  "canon up [] = []"
| "canon up (c # cs) = (if up then upper_char c else lower_char c) # canon (c = CHR ''-'') cs"

text \<open>\<open>textproto.CanonicalMIMEHeaderKey\<close>.\<close>

definition canonical_key :: "string \<Rightarrow> string" where
  "canonical_key k = (if list_all token_char k then canon True k else k)"

definition header_values :: "string \<Rightarrow> headers \<Rightarrow> string list" where
  "header_values k h = (case map_of h (canonical_key k) of None \<Rightarrow> [] | Some vs \<Rightarrow> vs)"

definition header_get :: "string \<Rightarrow> headers \<Rightarrow> string" where
  "header_get k h = (case header_values k h of [] \<Rightarrow> '''' | v # vs \<Rightarrow> v)"

definition header_add :: "string \<Rightarrow> string \<Rightarrow> headers \<Rightarrow> headers" where
  "header_add k v h = AList.update (canonical_key k) (header_values k h @ [v]) h"

definition header_set :: "string \<Rightarrow> string \<Rightarrow> headers \<Rightarrow> headers" where
  "header_set k v h = AList.update (canonical_key k) [v] h"

definition hop_by_hop :: "string list" where
  "hop_by_hop = [''connection'', ''keep-alive'', ''proxy-authenticate'', ''proxy-authorization'', ''te'',
                 ''trailers'', ''transfer-encoding'', ''upgrade'']"

definition shouldSkipRequestHeader :: "string \<Rightarrow> bool" where
  "shouldSkipRequestHeader key \<longleftrightarrow> to_lower key \<in> set ([''host'', ''content-length''] @ hop_by_hop)"

definition shouldSkipResponseHeader :: "string \<Rightarrow> bool" where
  "shouldSkipResponseHeader key \<longleftrightarrow> to_lower key \<in> set hop_by_hop"

text \<open>The loop over the headers of the client's request.\<close>

definition copy_headers :: "headers \<Rightarrow> headers" where
  "copy_headers h =
     fold (\<lambda>(k, vs) acc. if shouldSkipRequestHeader k then acc else fold (header_add k) vs acc) h []"

section \<open>Forwarding\<close>

record client_request =
  cr_method :: string
  cr_url :: string
  cr_headers :: headers
  cr_body :: string

record forward_options =
  fo_base_url :: string
  fo_rewrite_model_name :: bool
  fo_requested_model :: string
  fo_upstream_model :: string
  fo_request_id :: string
  fo_additional_headers :: "(string, string) gomap"
  fo_timeout :: duration
  fo_on_done :: bool

record upstream_request =
  ur_method :: string
  ur_url :: string
  ur_headers :: headers
  ur_body :: "string option"

record upstream_response =
  us_status :: int
  us_headers :: headers
  us_body :: body

text \<open>The environment: which requests \<open>NewRequestWithContext\<close> refuses, what the backend answers
  within the client's timeout, whether \<open>Send\<close> succeeds.\<close>

record forward_env =
  fe_num64 :: "string \<Rightarrow> string option"
  fe_can_build :: "string \<Rightarrow> string \<Rightarrow> bool"
  fe_do :: "duration option \<Rightarrow> upstream_request \<Rightarrow> upstream_response option"
  fe_send :: "string \<Rightarrow> bool"

datatype forward_error = BuildFailed | DoFailed | BodyReadFailed | SendFailed

text \<open>\<open>OnDone\<close> as \<open>callOnce\<close> sees it: whether the pointer is still set, and the calls made.\<close>

type_synonym done_state = "bool \<times> nat"

definition callOnce :: "done_state \<Rightarrow> done_state" where
  "callOnce d = (if fst d then (False, Suc (snd d)) else d)"

text \<open>\<open>fr_stream\<close> is the body a stream writer was installed for.\<close>

record forward_result =
  fr_error :: "forward_error option"
  fr_appended :: "(string \<times> string) list"
  fr_status :: "int option"
  fr_body :: "string option"
  fr_stream :: "body option"
  fr_done :: done_state

definition is_json_type :: "string \<Rightarrow> bool" where
  "is_json_type ct \<longleftrightarrow> contains (to_lower ct) ''application/json''"

definition rewrite_or_keep :: "(string \<Rightarrow> string option) \<Rightarrow> string \<Rightarrow> string \<Rightarrow> string" where
  "rewrite_or_keep num64 b model =
     (case RewriteJSONModel num64 b model of Inr (rewritten, True) \<Rightarrow> rewritten | _ \<Rightarrow> b)"

definition forward_request :: "(string \<Rightarrow> string option) \<Rightarrow> forward_options \<Rightarrow> client_request \<Rightarrow> upstream_request" where
  "forward_request num64 opts req =
     (let b = cr_body req;
          b' = (if fo_upstream_model opts \<noteq> '''' \<and> is_json_type (header_get ''Content-Type'' (cr_headers req))
                then rewrite_or_keep num64 b (fo_upstream_model opts) else b);
          h1 = copy_headers (cr_headers req);
          h2 = (if fo_request_id opts \<noteq> '''' then header_set ''X-Request-ID'' (fo_request_id opts) h1 else h1);
          h3 = fold (\<lambda>(k, v). header_set k v) (fo_additional_headers opts) h2
      in \<lparr>ur_method = cr_method req, ur_url = trim_right CHR ''/'' (fo_base_url opts) @ cr_url req,
          ur_headers = h3, ur_body = (if b = [] then None else Some b')\<rparr>)"

definition response_headers :: "headers \<Rightarrow> (string \<times> string) list" where
  "response_headers h = concat (map (\<lambda>(k, vs). if shouldSkipResponseHeader k then [] else map (Pair k) vs) h)"

definition ForwardFiber :: "forward_env \<Rightarrow> forward_options \<Rightarrow> client_request \<Rightarrow> forward_result" where
  "ForwardFiber env opts req =
     (let ureq = forward_request (fe_num64 env) opts req;
          d = (fo_on_done opts, 0);
          failed = (\<lambda>e. \<lparr>fr_error = Some e, fr_appended = [], fr_status = None, fr_body = None, fr_stream = None,
                         fr_done = d\<rparr>)
      in if \<not> fe_can_build env (ur_method ureq) (ur_url ureq) then failed BuildFailed
         else (case fe_do env (if fo_timeout opts > 0 then Some (fo_timeout opts) else None) ureq of
                 None \<Rightarrow> failed DoFailed
               | Some resp \<Rightarrow>
                   let r = (failed BodyReadFailed)\<lparr>fr_appended := response_headers (us_headers resp),
                                                    fr_status := Some (us_status resp)\<rparr>;
                       ct = header_get ''Content-Type'' (us_headers resp)
                   in if contains (to_lower ct) ''text/event-stream''
                      then r\<lparr>fr_error := None, fr_stream := Some (us_body resp)\<rparr>
                      else if ending (us_body resp) \<noteq> Eof then r
                      else let b = content (us_body resp);
                               b' = (if fo_rewrite_model_name opts \<and> fo_requested_model opts \<noteq> '''' \<and> is_json_type ct
                                     then rewrite_or_keep (fe_num64 env) b (fo_requested_model opts) else b)
                           in r\<lparr>fr_error := (if fe_send env b' then None else Some SendFailed),
                                fr_body := Some b', fr_done := callOnce d\<rparr>))"

text \<open>The stream writer, run after the handler has returned.\<close>

definition stream_writer ::
  "(string \<Rightarrow> string option) \<Rightarrow> forward_options \<Rightarrow> body \<Rightarrow> sink \<Rightarrow> done_state \<Rightarrow> sink \<times> done_state" where
  "stream_writer num64 opts b w d =
     ((if fo_rewrite_model_name opts \<and> fo_requested_model opts \<noteq> ''''
       then the (snd (RewriteSSEModel num64 (Some b) (Some w) (fo_requested_model opts)))
       else snd (copyWithFlush b w)), callOnce d)"

end
