(* ===== verification/Http_Server.thy ===== *)
theory Http_Server
  imports Proxy Metrics
begin

text \<open>
  The HTTP front end of \<open>internal/httpserver\<close>: error replies, API-key check, the handlers and
  the route table. A reply body is a JSON value; its encoding is the framework's. The handlers that
  forward a request are functions of the router they call and of its state.
\<close>

section \<open>Replies\<close>

record http_reply =
  hr_status :: int
  hr_headers :: headers
  hr_body :: json

definition json_int :: "int \<Rightarrow> json" where
  "json_int n = JNum (itoa n)"

definition writeOpenAIError :: "int \<Rightarrow> string \<Rightarrow> string \<Rightarrow> string \<Rightarrow> http_reply" where
  "writeOpenAIError st message errType code =
     \<lparr>hr_status = st, hr_headers = [(''Content-Type'', [''application/json''])],
      hr_body = JObj [(''error'', JObj [(''message'', JStr message), (''type'', JStr errType), (''code'', JStr code)])]\<rparr>"

definition writeAnthropicError :: "int \<Rightarrow> string \<Rightarrow> string \<Rightarrow> http_reply" where
  "writeAnthropicError st errType message =
     \<lparr>hr_status = st, hr_headers = [(''Content-Type'', [''application/json''])],
      hr_body = JObj [(''type'', JStr ''error''),
                      (''error'', JObj [(''type'', JStr errType), (''message'', JStr message)])]\<rparr>"

text \<open>\<open>d.Round(time.Second)\<close> for a positive duration, and the \<open>Retry-After\<close> seconds.\<close>

definition round_second :: "duration \<Rightarrow> duration" where
  "round_second d =
     (let r = d mod second
      in if r + r < second then d - r
         else if d + second - r \<le> max_int64 then d + second - r else max_int64)"

definition retry_seconds :: "duration \<Rightarrow> int" where
  "retry_seconds d = (let s = seconds (round_second d) in if s \<le> 0 then 1 else s)"

definition with_retry :: "duration \<Rightarrow> http_reply \<Rightarrow> http_reply" where
  "with_retry d r = (if d > 0 then r\<lparr>hr_headers := header_set ''Retry-After'' (itoa (retry_seconds d)) (hr_headers r)\<rparr> else r)"

fun openai_reject_message :: "RejectReason \<Rightarrow> string" where
  "openai_reject_message RejectPinnedConflict = ''Insufficient resources: requested model conflicts with a pinned model''"
| "openai_reject_message RejectNoCapacity = ''Insufficient capacity to start requested model, please retry''"
| "openai_reject_message RejectInsufficient = ''Insufficient GPU resources to start requested model, please retry''"
| "openai_reject_message RejectMinUptime = ''Insufficient GPU resources (min uptime), please retry''"
| "openai_reject_message _ = ''Model switch in progress, please retry''"

definition mapEnsureError :: "route_error \<Rightarrow> http_reply" where
  "mapEnsureError err =
     (case err of
        Rejected rej \<Rightarrow>
          with_retry (rj_retry_after rej)
            (if rj_reason rej = RejectBackoff
             then writeOpenAIError 500 ''Backend in error state, please retry'' ''internal_error'' ''backend_error''
             else writeOpenAIError 503 (openai_reject_message (rj_reason rej)) ''service_unavailable'' ''model_switching'')
      | _ \<Rightarrow> writeOpenAIError 500 ''Backend unavailable'' ''internal_error'' ''backend_unavailable'')"

fun anthropic_reject_message :: "RejectReason \<Rightarrow> string" where
  "anthropic_reject_message RejectPinnedConflict = ''insufficient resources: requested model conflicts with a pinned model''"
| "anthropic_reject_message RejectNoCapacity = ''insufficient capacity to start requested model, please retry''"
| "anthropic_reject_message RejectInsufficient = ''insufficient GPU resources to start requested model, please retry''"
| "anthropic_reject_message RejectMinUptime = ''insufficient GPU resources (min uptime), please retry''"
| "anthropic_reject_message _ = ''model loading in progress, please retry''"

definition mapAnthropicError :: "route_error \<Rightarrow> http_reply" where
  "mapAnthropicError err =
     (case err of
        Rejected rej \<Rightarrow>
          with_retry (rj_retry_after rej)
            (if rj_reason rej = RejectBackoff
             then writeAnthropicError 500 ''api_error'' ''model in error state, please retry''
             else writeAnthropicError 503 ''overloaded_error'' (anthropic_reject_message (rj_reason rej)))
      | _ \<Rightarrow> writeAnthropicError 500 ''api_error'' ''backend unavailable'')"

definition notImplementedHandler :: http_reply where
  "notImplementedHandler = writeOpenAIError 501 ''Not implemented'' ''not_implemented'' ''not_implemented''"

section \<open>Authorization and request ids\<close>

text \<open>\<^term>\<open>None\<close> means that the next handler runs.\<close>

definition AuthAPIKey :: "string \<Rightarrow> headers \<Rightarrow> http_reply option" where
  "AuthAPIKey expected h =
     (if expected = '''' then None
      else let header = header_get ''Authorization'' h
           in if \<not> has_prefix header ''Bearer '' then
                Some (writeOpenAIError 401 ''Missing or invalid Authorization header'' ''invalid_request_error'' ''missing_auth'')
              else if drop (length ''Bearer '') header \<noteq> expected then
                Some (writeOpenAIError 401 ''Invalid API key'' ''invalid_request_error'' ''invalid_auth'')
              else None)"

definition request_id :: "string \<Rightarrow> headers \<Rightarrow> string" where
  "request_id fresh h = (let r = header_get ''X-Request-ID'' h in if r = '''' then fresh else r)"

section \<open>The requested model\<close>

text \<open>Decoding into a struct with the one field \<open>model\<close>: a member matches it in any case.\<close>

fun model_field :: "(string \<times> json) list \<Rightarrow> string \<Rightarrow> bool \<Rightarrow> string \<times> bool" where
  "model_field [] m err = (m, err)"
| "model_field ((k, v) # kvs) m err =
     (if to_lower k \<noteq> ''model'' then model_field kvs m err
      else (case v of
              JStr s \<Rightarrow> model_field kvs s err
            | JNull \<Rightarrow> model_field kvs m err
            | _ \<Rightarrow> model_field kvs m True))"

definition extractModel :: "string \<Rightarrow> json_error + string" where
  "extractModel body =
     (if body = '''' then Inr ''''
      else (case parse_json body of
              None \<Rightarrow> Inl SyntaxError
            | Some JNull \<Rightarrow> Inr ''''
            | Some (JObj kvs) \<Rightarrow> (case model_field kvs '''' False of (m, err) \<Rightarrow> if err then Inl TypeError else Inr m)
            | Some _ \<Rightarrow> Inl TypeError))"

section \<open>Pages\<close>

definition json_opt :: "('a \<Rightarrow> json) \<Rightarrow> 'a option \<Rightarrow> json" where
  "json_opt f v = (case v of None \<Rightarrow> JNull | Some x \<Rightarrow> f x)"

definition idle_status :: status where
  "idle_status =
     \<lparr>ss_state = StateIdle, ss_current_model = '''', ss_in_flight = 0, ss_pid = 0, ss_failure_count = 0,
      ss_uptime_seconds = 0, ss_last_ready_at = 0, ss_last_swap = None, ss_last_swap_at = 0,
      ss_scheduler_busy = False, ss_waiters = [], ss_instances = []\<rparr>"

fun health_code :: "State \<Rightarrow> int" where
  "health_code StateStarting = 503"
| "health_code StateStopping = 503"
| "health_code StateError = 500"
| "health_code _ = 200"

definition healthHandler :: "status option \<Rightarrow> http_reply" where
  "healthHandler coord =
     (let st = (case coord of None \<Rightarrow> idle_status | Some x \<Rightarrow> x); code = health_code (ss_state st)
      in \<lparr>hr_status = code, hr_headers = [],
          hr_body = JObj
            [(''status'', JStr (if code \<ge> 500 then ''unhealthy'' else ''healthy'')),
             (''accepting_requests'', JBool (ss_state st = StateReady)),
             (''vllm'', JObj
                [(''state'', JStr (state_string (ss_state st))), (''model'', JStr (ss_current_model st)),
                 (''pid'', json_int (ss_pid st)), (''uptime_seconds'', json_int (ss_uptime_seconds st))])]\<rparr>)"

definition format_time :: "(gotime \<Rightarrow> string) \<Rightarrow> gotime \<Rightarrow> json" where
  "format_time fmt t = (if is_zero_time t then JNull else JStr (fmt t))"

text \<open>\<open>wall\<close> is the clock of \<open>time.Until\<close>.\<close>

definition cooldown_remaining :: "config option \<Rightarrow> gotime \<Rightarrow> status \<Rightarrow> int" where
  "cooldown_remaining cfg wall st =
     (case cfg of None \<Rightarrow> 0
      | Some c \<Rightarrow>
          if vc_swap_cooldown (VLLM c) > 0 \<and> \<not> is_zero_time (ss_last_swap_at st) then
            (let remaining = time_sub (ss_last_swap_at st + vc_swap_cooldown (VLLM c)) wall
             in if remaining > 0 then (if seconds remaining < 0 then 0 else seconds remaining) else 0)
          else 0)"

definition instance_json :: "(gotime \<Rightarrow> string) \<Rightarrow> instance_status \<Rightarrow> json" where
  "instance_json fmt i = JObj
     [(''model'', JStr (st_model i)), (''port'', json_int (st_port i)), (''gpus'', JArr (map json_int (st_gpus i))),
      (''pid'', json_int (st_pid i)), (''state'', JStr (state_string (st_state i))), (''pinned'', JBool (st_pinned i)),
      (''draining'', JBool (st_draining i)), (''in_flight_requests'', json_int (st_in_flight i)),
      (''started_at'', format_time fmt (st_started_at i)), (''last_used_at'', format_time fmt (st_last_used_at i))]"

definition swap_json :: "(gotime \<Rightarrow> string) \<Rightarrow> last_swap \<Rightarrow> json" where
  "swap_json fmt l = JObj
     [(''from'', JStr (ls_from l)), (''to'', JStr (ls_to l)), (''at'', JStr (fmt (ls_at l))),
      (''duration_ms'', json_int (go_div (ls_duration l) 1000000)),
      (''triggered_by_request_id'', JStr (ls_triggered_by l))]"

definition model_names :: "config \<Rightarrow> string list" where
  "model_names c = sort (keys (Models c))"

definition statusHandler :: "(gotime \<Rightarrow> string) \<Rightarrow> config option \<Rightarrow> gotime \<Rightarrow> status option \<Rightarrow> http_reply" where
  "statusHandler fmt cfg wall coord =
     (let st = (case coord of None \<Rightarrow> idle_status | Some x \<Rightarrow> x)
      in \<lparr>hr_status = 200, hr_headers = [],
          hr_body = JObj
            [(''state'', JStr (state_string (ss_state st))), (''accepting_requests'', JBool (ss_state st = StateReady)),
             (''current_model'', JStr (ss_current_model st)), (''in_flight_requests'', json_int (ss_in_flight st)),
             (''uptime_seconds'', json_int (ss_uptime_seconds st)),
             (''swap_cooldown_remaining_seconds'', json_int (cooldown_remaining cfg wall st)),
             (''last_swap'', json_opt (swap_json fmt) (ss_last_swap st)),
             (''failure_count'', json_int (ss_failure_count st)),
             (''available_models'', json_opt (\<lambda>c. JArr (map JStr (model_names c))) cfg),
             (''scheduler_busy'', JBool (ss_scheduler_busy st)), (''waiters'', JArr (map JStr (ss_waiters st))),
             (''instances'', if ss_instances st = [] then JNull else JArr (map (instance_json fmt) (ss_instances st)))]\<rparr>)"

definition listModelsHandler :: "int \<Rightarrow> config option \<Rightarrow> http_reply" where
  "listModelsHandler created cfg =
     (case cfg of
        None \<Rightarrow> \<lparr>hr_status = 500, hr_headers = [],
                 hr_body = JObj [(''error'', JObj [(''message'', JStr ''server not configured''),
                                                   (''type'', JStr ''internal_error''),
                                                   (''code'', JStr ''config_missing'')])]\<rparr>
      | Some c \<Rightarrow> \<lparr>hr_status = 200, hr_headers = [],
                   hr_body = JObj [(''object'', JStr ''list''),
                     (''data'', JArr (map (\<lambda>n. JObj [(''id'', JStr n), (''object'', JStr ''model''),
                        (''created'', json_int created), (''owned_by'', JStr ''jukebox'')]) (model_names c)))]\<rparr>)"

section \<open>Forwarding handlers\<close>

abbreviation quote1 :: string where
  "quote1 \<equiv> [CHR 0x27]"

text \<open>A router as the handlers see it; \<open>ro_done\<close> is the first call of a route's \<open>Done\<close>.\<close>

record 's router =
  ro_status :: "'s \<Rightarrow> status"
  ro_acquire :: "string \<Rightarrow> string \<Rightarrow> 's \<Rightarrow> (route_error + route) \<times> 's"
  ro_has_done :: "route \<Rightarrow> bool"
  ro_done :: "route \<Rightarrow> 's \<Rightarrow> 's"

record 's app_options =
  ao_config :: "config option"
  ao_router :: "'s router option"

text \<open>What the server takes from its libraries: matching of paths, texts of JSON errors, time
  formatting, fresh ids, and the environment of a forward.\<close>

record server_env =
  hv_forward :: forward_env
  hv_json_msg :: "json_error \<Rightarrow> string"
  hv_match :: "string \<Rightarrow> string \<Rightarrow> bool"
  hv_fmt_time :: "gotime \<Rightarrow> string"
  hv_wall :: gotime
  hv_created :: int
  hv_fresh_id :: string

datatype handler_reply =
    Reply http_reply
  | Forwarded route forward_options forward_result
  | MetricsText
  | NoRoute

definition route_options :: "config \<Rightarrow> bool \<Rightarrow> string \<Rightarrow> string \<Rightarrow> route \<Rightarrow> forward_options" where
  "route_options c hasDone modelName requestID rt =
     \<lparr>fo_base_url = rt_base_url rt, fo_rewrite_model_name = bc_rewrite_model_name (Behavior c),
      fo_requested_model = modelName, fo_upstream_model = rt_upstream_model rt, fo_request_id = requestID,
      fo_additional_headers = [], fo_timeout = 0, fo_on_done = hasDone\<rparr>"

text \<open>The calls of \<open>Done\<close> when the handler returns: those of the proxy, and one more on an error.\<close>

definition done_calls :: "bool \<Rightarrow> forward_result \<Rightarrow> nat" where
  "done_calls hasDone fr = snd (fr_done fr) + (if fr_error fr \<noteq> None \<and> hasDone then 1 else 0)"

definition release_calls :: "'s router \<Rightarrow> nat \<Rightarrow> route \<Rightarrow> 's \<Rightarrow> 's" where
  "release_calls R n rt s = (if n = 0 then s else ro_done R rt s)"

definition forward_route ::
  "forward_env \<Rightarrow> config \<Rightarrow> 's router \<Rightarrow> string \<Rightarrow> string \<Rightarrow> route \<Rightarrow> client_request \<Rightarrow> 's \<Rightarrow> handler_reply \<times> 's" where
  "forward_route env c R modelName requestID rt req s =
     (let opts = route_options c (ro_has_done R rt) modelName requestID rt;
          fr = ForwardFiber env opts req
      in (Forwarded rt opts fr, release_calls R (done_calls (ro_has_done R rt) fr) rt s))"

definition switchingProxyHandler ::
  "server_env \<Rightarrow> 's app_options \<Rightarrow> string \<Rightarrow> client_request \<Rightarrow> 's \<Rightarrow> handler_reply \<times> 's" where
  "switchingProxyHandler V opts requestID req s =
     (case (ao_config opts, ao_router opts) of
        (Some c, Some R) \<Rightarrow>
          (case extractModel (cr_body req) of
             Inl e \<Rightarrow> (Reply (writeOpenAIError 400 (hv_json_msg V e) ''invalid_request_error'' ''invalid_json''), s)
           | Inr modelName \<Rightarrow>
               if modelName = '''' then
                 (Reply (writeOpenAIError 400 (''missing required field '' @ quote1 @ ''model'' @ quote1)
                    ''invalid_request_error'' ''model_not_found''), s)
               else (case ResolveModel c modelName of
                       Inl e \<Rightarrow> (Reply (writeOpenAIError 400 (''Model '' @ quoted modelName @ '' not found in configuration'')
                                  ''invalid_request_error'' ''model_not_found''), s)
                     | Inr _ \<Rightarrow>
                         (case ro_acquire R modelName requestID s of
                            (Inl err, s1) \<Rightarrow> (Reply (mapEnsureError err), s1)
                          | (Inr rt, s1) \<Rightarrow> forward_route (hv_forward V) c R modelName requestID rt req s1)))
      | _ \<Rightarrow> (Reply (writeOpenAIError 500 ''server not configured'' ''internal_error'' ''config_missing''), s))"

definition anthropicProxyHandler ::
  "server_env \<Rightarrow> 's app_options \<Rightarrow> string \<Rightarrow> client_request \<Rightarrow> 's \<Rightarrow> handler_reply \<times> 's" where
  "anthropicProxyHandler V opts requestID req s =
     (case (ao_config opts, ao_router opts) of
        (Some c, Some R) \<Rightarrow>
          (case extractModel (cr_body req) of
             Inl e \<Rightarrow> (Reply (writeAnthropicError 400 ''invalid_request_error'' (hv_json_msg V e)), s)
           | Inr modelName \<Rightarrow>
               if modelName = '''' then
                 (Reply (writeAnthropicError 400 ''invalid_request_error'' (''missing required field '' @ quote1 @ ''model'' @ quote1)), s)
               else (case ResolveModel c modelName of
                       Inl e \<Rightarrow> (Reply (writeAnthropicError 400 ''invalid_request_error''
                                  (''model '' @ quoted modelName @ '' not found in configuration'')), s)
                     | Inr _ \<Rightarrow>
                         (case ro_acquire R modelName requestID s of
                            (Inl err, s1) \<Rightarrow> (Reply (mapAnthropicError err), s1)
                          | (Inr rt, s1) \<Rightarrow> forward_route (hv_forward V) c R modelName requestID rt req s1)))
      | _ \<Rightarrow> (Reply (writeAnthropicError 500 ''api_error'' ''server not configured''), s))"

text \<open>The stream writer of a forwarded reply and the call of \<open>Done\<close> at its end.\<close>

definition finish_stream ::
  "forward_env \<Rightarrow> 's router \<Rightarrow> route \<Rightarrow> forward_options \<Rightarrow> forward_result \<Rightarrow> sink \<Rightarrow> 's \<Rightarrow> sink \<times> 's" where
  "finish_stream env R rt opts fr w s =
     (case fr_stream fr of
        None \<Rightarrow> (w, s)
      | Some b \<Rightarrow>
          let (w', d) = stream_writer (fe_num64 env) opts b w (fr_done fr)
          in (w', release_calls R (snd d - snd (fr_done fr)) rt s))"

section \<open>Routes\<close>

datatype endpoint = EpHealth | EpStatus | EpMetrics | EpModels | EpOpenAI | EpAnthropic | EpNotImplemented

text \<open>Method, pattern, whether the API key is checked, handler; in the order of registration.\<close>

definition app_routes :: "(string \<times> string \<times> bool \<times> endpoint) list" where
  "app_routes =
     [(''GET'', ''/health'', False, EpHealth),
      (''GET'', ''/status'', True, EpStatus),
      (''GET'', ''/metrics'', True, EpMetrics),
      (''GET'', ''/v1/models'', True, EpModels),
      (''POST'', ''/v1/responses'', True, EpOpenAI),
      (''POST'', ''/v1/chat/completions'', True, EpOpenAI),
      (''POST'', ''/v1/completions'', True, EpOpenAI),
      (''POST'', ''/v1/embeddings'', True, EpOpenAI),
      (''POST'', ''/v1/tokenize'', True, EpOpenAI),
      (''POST'', ''/v1/detokenize'', True, EpOpenAI),
      (''POST'', ''/v1/messages'', True, EpAnthropic),
      (''ALL'', ''/v1/audio/*'', False, EpNotImplemented),
      (''ALL'', ''/v1/images/*'', False, EpNotImplemented),
      (''ALL'', ''/v1/files*'', False, EpNotImplemented),
      (''ALL'', ''/v1/fine-tuning/*'', False, EpNotImplemented),
      (''ALL'', ''/v1/assistants/*'', False, EpNotImplemented),
      (''ALL'', ''/v1/*'', False, EpNotImplemented)]"

text \<open>A route registered for GET also serves HEAD.\<close>

definition method_matches :: "string \<Rightarrow> string \<Rightarrow> bool" where
  "method_matches pat m \<longleftrightarrow> pat = ''ALL'' \<or> pat = m \<or> (pat = ''GET'' \<and> m = ''HEAD'')"

definition api_key :: "'s app_options \<Rightarrow> string" where
  "api_key opts = (case ao_config opts of None \<Rightarrow> '''' | Some c \<Rightarrow> srv_api_key (Server c))"

fun handle_endpoint ::
  "server_env \<Rightarrow> 's app_options \<Rightarrow> string \<Rightarrow> client_request \<Rightarrow> endpoint \<Rightarrow> 's \<Rightarrow> handler_reply \<times> 's" where
  "handle_endpoint V opts rid req EpHealth s = (Reply (healthHandler (map_option (\<lambda>R. ro_status R s) (ao_router opts))), s)"
| "handle_endpoint V opts rid req EpStatus s =
     (Reply (statusHandler (hv_fmt_time V) (ao_config opts) (hv_wall V) (map_option (\<lambda>R. ro_status R s) (ao_router opts))), s)"
| "handle_endpoint V opts rid req EpMetrics s = (MetricsText, s)"
| "handle_endpoint V opts rid req EpModels s = (Reply (listModelsHandler (hv_created V) (ao_config opts)), s)"
| "handle_endpoint V opts rid req EpOpenAI s = switchingProxyHandler V opts rid req s"
| "handle_endpoint V opts rid req EpAnthropic s = anthropicProxyHandler V opts rid req s"
| "handle_endpoint V opts rid req EpNotImplemented s = (Reply notImplementedHandler, s)"

text \<open>The result starts with the \<open>X-Request-ID\<close> header of the response.\<close>

definition serve ::
  "server_env \<Rightarrow> 's app_options \<Rightarrow> string \<Rightarrow> client_request \<Rightarrow> 's \<Rightarrow> (string \<times> handler_reply) \<times> 's" where
  "serve V opts path req s =
     (let rid = request_id (hv_fresh_id V) (cr_headers req)
      in apfst (Pair rid)
        (case find (\<lambda>(m, p, _). method_matches m (cr_method req) \<and> hv_match V p path) app_routes of
           None \<Rightarrow> (NoRoute, s)
         | Some (_, _, auth, ep) \<Rightarrow>
             (case (if auth then AuthAPIKey (api_key opts) (cr_headers req) else None) of
                Some r \<Rightarrow> (Reply r, s)
              | None \<Rightarrow> handle_endpoint V opts rid req ep s)))"

section \<open>Request metrics\<close>

text \<open>
  \<open>requestLoggingMiddleware\<close> reads the status of the response when the handler has returned. An
  error the handler returns is turned into a response afterwards, by the framework's error handler.
\<close>

definition logs_requests :: "'s app_options \<Rightarrow> bool" where
  "logs_requests opts = (case ao_config opts of None \<Rightarrow> True | Some c \<Rightarrow> srv_log_requests (Server c) \<in> {None, Some True})"

definition logged_status :: "handler_reply \<Rightarrow> int" where
  "logged_status r =
     (case r of
        Reply h \<Rightarrow> hr_status h
      | Forwarded rt opts fr \<Rightarrow> (case fr_status fr of None \<Rightarrow> 200 | Some st \<Rightarrow> st)
      | _ \<Rightarrow> 200)"

text \<open>The status the client receives: the default error handler answers 500, an unmatched path 404.\<close>

definition client_status :: "handler_reply \<Rightarrow> int" where
  "client_status r =
     (case r of
        Reply h \<Rightarrow> hr_status h
      | Forwarded rt opts fr \<Rightarrow>
          (if fr_error fr \<noteq> None then 500 else case fr_status fr of None \<Rightarrow> 200 | Some st \<Rightarrow> st)
      | MetricsText \<Rightarrow> 200
      | NoRoute \<Rightarrow> 404)"

text \<open>\<open>c.Locals(requestedModelLocal)\<close>: what the proxy handlers stored, for any name but the empty one.\<close>

definition requested_local :: "'s app_options \<Rightarrow> client_request \<Rightarrow> string" where
  "requested_local opts req =
     (case (ao_config opts, ao_router opts) of
        (Some c, Some R) \<Rightarrow> (case extractModel (cr_body req) of Inl e \<Rightarrow> '''' | Inr m \<Rightarrow> m)
      | _ \<Rightarrow> '''')"

definition requestLoggingMiddleware :: "string \<Rightarrow> duration \<Rightarrow> handler_reply \<Rightarrow> metric_call list" where
  "requestLoggingMiddleware model dur r = ObserveRequest (logged_status r) model dur"

end
