(* ===== verification/Proxy_Properties.thy ===== *)
theory Proxy_Properties
  imports Http_Server Example_Config
begin

text \<open>
  The properties of the forwarding proxy: the bodies, streams and headers that pass through it, and
  the number of times it gives a route back.
\<close>

section \<open>ASCII text\<close>

lemma to_lower_ascii: "list_all (\<lambda>c. byte c < 128) s \<Longrightarrow> to_lower s = map lower_char s"
  by (induction s rule: to_lower.induct) (auto simp: of_char_eq_iff)

lemma lower_fixed: "list_all (\<lambda>c. byte c < 65 \<or> 90 < byte c \<and> byte c < 128) s \<Longrightarrow> to_lower s = s"
proof -
  assume a: "list_all (\<lambda>c. byte c < 65 \<or> 90 < byte c \<and> byte c < 128) s"
  then have "list_all (\<lambda>c. byte c < 128) s" by (auto simp: list_all_iff)
  then have "to_lower s = map lower_char s" by (rule to_lower_ascii)
  also have "\<dots> = s" using a by (auto simp: list_all_iff lower_char_def Let_def intro!: map_idI)
  finally show ?thesis .
qed

declare to_lower.simps [simp del]

lemma lower_model: "to_lower ''model'' = ''model''" "to_lower ''Model'' = ''model''"
  by (simp_all add: to_lower_ascii lower_char_def char_of_def bit_0)

lemma json_type:
  "is_json_type ''application/json''" "contains (to_lower ''application/json'') ''text/event-stream'' = False"
  by (simp_all add: is_json_type_def lower_fixed sublist_Cons_right prefix_def)

lemma canonical_names:
  "canonical_key ''Content-Type'' = ''Content-Type''" "canonical_key ''Retry-After'' = ''Retry-After''"
  "canonical_key ''X-Request-ID'' = ''X-Request-Id''" "canonical_key ''Authorization'' = ''Authorization''"
  by (simp_all add: canonical_key_def token_char_def upper_char_def lower_char_def is_digit_def char_of_def bit_0)

lemma header_values_set [simp]:
  "header_values k (header_set k' v h) = (if canonical_key k = canonical_key k' then [v] else header_values k h)"
  by (simp add: header_values_def header_set_def)

section \<open>Examples\<close>

definition ex_response :: upstream_response where
  "ex_response = \<lparr>us_status = 200, us_headers = [(''Content-Type'', [''application/json'']), (''Connection'', [''close''])],
     us_body = Last (render (JObj [(''model'', JStr ''org/a'')])) Eof\<rparr>"

definition ex_forward :: "upstream_response option \<Rightarrow> forward_env" where
  "ex_forward answer = \<lparr>fe_num64 = (\<lambda>n. if num_ok n then Some n else None), fe_can_build = (\<lambda>m u. True),
     fe_do = (\<lambda>t u. answer), fe_send = (\<lambda>b. True)\<rparr>"

definition ex_request :: "string \<Rightarrow> client_request" where
  "ex_request model = \<lparr>cr_method = ''POST'', cr_url = ''/v1/completions'',
     cr_headers = [(''Content-Type'', [''application/json''])], cr_body = render (JObj [(''model'', JStr model)])\<rparr>"

lemma ex_content_type:
  "header_get ''Content-Type'' (cr_headers (ex_request m)) = ''application/json''"
  "header_get ''Content-Type'' (us_headers ex_response) = ''application/json''"
  by (simp_all add: header_get_def header_values_def ex_request_def ex_response_def canonical_names)

text \<open>A body with one string member is read as it was written.\<close>

lemma parse_member_body: "utf8_ok k \<Longrightarrow> utf8_ok m \<Longrightarrow> parse_json (render (JObj [(k, JStr m)])) = Some (JObj [(k, JStr m)])"
  by (rule parse_render) simp_all

lemma render_not_empty: "render (JObj kvs) \<noteq> ''''"
  by simp

lemma extract_member:
  "\<lbrakk>utf8_ok k; utf8_ok m; to_lower k = ''model''\<rbrakk> \<Longrightarrow> extractModel (render (JObj [(k, JStr m)])) = Inr m"
  using parse_member_body[of k m] by (simp add: extractModel_def del: render.simps) simp

section \<open>Bodies\<close>

text \<open>The spelling of the member name: found in any case, replaced only in lower case.\<close>

lemma rewrite_keeps_other_names:
  "\<lbrakk>utf8_ok k; utf8_ok m; k \<noteq> ''model''; num64_ok num64\<rbrakk> \<Longrightarrow>
   rewrite_or_keep num64 (render (JObj [(k, JStr m)])) up = render (JObj [(k, JStr m)])"
  using parse_member_body[of k m]
  by (simp add: rewrite_or_keep_def RewriteJSONModel_def unmarshal_map_def go_object_def put_all_def del: render.simps)

text \<open>
  The handlers find the model under a member name in any case, but the proxy replaces only
  \<open>model\<close>: a request with \<open>Model\<close> is routed by that name and reaches the backend with its body
  unchanged, so the backend reads the configured name or alias in place of its model path.
\<close>

theorem capital_model_is_not_rewritten:
  assumes "utf8_ok m" "num64_ok num64" "cr_body req = render (JObj [(''Model'', JStr m)])"
  shows "extractModel (cr_body req) = Inr m \<and> ur_body (forward_request num64 fo req) = Some (cr_body req)"
proof -
  have k: "utf8_ok ''Model''" "''Model'' \<noteq> ''model''" by (simp_all add: ascii_ok)
  have "extractModel (cr_body req) = Inr m"
    unfolding assms(3) by (rule extract_member[OF k(1) assms(1) lower_model(2)])
  moreover have "rewrite_or_keep num64 (cr_body req) up = cr_body req" for up
    unfolding assms(3) by (rule rewrite_keeps_other_names[OF k(1) assms(1) k(2) assms(2)])
  moreover have "cr_body req \<noteq> ''''" unfolding assms(3) by (rule render_not_empty)
  ultimately show ?thesis by (simp add: forward_request_def Let_def)
qed

lemma ex_num64: "num64_ok (\<lambda>n. if num_ok n then Some n else None)"
  by (simp add: num64_ok_def)

lemma capital_model_is_not_rewritten_witness:
  "extractModel (render (JObj [(''Model'', JStr ''alias'')])) = Inr ''alias''"
  using capital_model_is_not_rewritten[OF _ ex_num64, of "''alias''" "(ex_request ''a'')\<lparr>cr_body := render (JObj [(''Model'', JStr ''alias'')])\<rparr>"]
  by (simp add: ascii_ok del: render.simps)

text \<open>A body that is an object with a model, and the same object with another model.\<close>

definition renamed :: "(string \<Rightarrow> string option) \<Rightarrow> string \<Rightarrow> string \<Rightarrow> string \<Rightarrow> bool" where
  "renamed num64 b m out \<longleftrightarrow>
     (\<exists>obj obj'. unmarshal_map num64 b = Inr obj \<and> parse_json out = Some (JObj obj') \<and>
        map_of obj' = (map_of obj)(''model'' \<mapsto> JStr m))"

lemma rewrite_or_keep_renamed:
  assumes "unmarshal_map num64 b = Inr obj" "map_of obj ''model'' \<noteq> None" "num64_ok num64" "utf8_ok m"
  shows "renamed num64 b m (rewrite_or_keep num64 b m)"
proof -
  obtain out where r: "RewriteJSONModel num64 b m = Inr (out, True)"
    using assms(1,2) by (auto simp: RewriteJSONModel_def)
  obtain obj' where "parse_json out = Some (JObj obj')" "map_of obj' = (map_of obj)(''model'' \<mapsto> JStr m)"
    using RewriteJSONModel_reads_back[OF r assms(3,4)] assms(1) by (metis sum.inject(2))
  with assms(1) r show ?thesis by (auto simp: renamed_def rewrite_or_keep_def)
qed

lemma parse_json_empty: "parse_json '''' = None"
  by (simp add: parse_json_def skip_ws_def parse_value.simps)


lemma ex_unmarshal:
  "utf8_ok m \<Longrightarrow> unmarshal_map num64 (render (JObj [(''model'', JStr m)])) = Inr [(''model'', JStr m)]"
  using parse_member_body[of "''model''" m] ascii_ok[of "''model''"]
  by (simp add: unmarshal_map_def go_object_def put_all_def del: render.simps)




section \<open>Streams\<close>

lemma trim_space_object: "trim_space (render (JObj kvs)) = render (JObj kvs)"
  by (rule trim_space_visible) (simp_all add: visible_def)

text \<open>A line with a JSON object that has a model, and any other line.\<close>

lemma sse_line_renames:
  assumes "trim_space (trim_prefix l ''data:'') = rest" "has_prefix l ''data:''" "has_prefix rest ''{''"
    and "unmarshal_map num64 rest = Inr obj" "map_of obj ''model'' \<noteq> None" "num64_ok num64" "utf8_ok m"
  shows "\<exists>out. sse_line num64 m l = ''data: '' @ out @ [newline] \<and> renamed num64 rest m out"
proof -
  obtain out where r: "RewriteJSONModel num64 rest m = Inr (out, True)"
    and out: "out = marshal_map (AList.update ''model'' (JStr m) obj)"
    using assms(4,5) by (auto simp: RewriteJSONModel_def)
  have "renamed num64 rest m out"
    using rewrite_or_keep_renamed[OF assms(4-7)] r by (simp add: rewrite_or_keep_def)
  moreover have "trim_space out = out" unfolding out marshal_map_def by (rule trim_space_object)
  moreover have "rest \<noteq> ''[DONE]''" "rest \<noteq> ''''" using assms(3) by auto
  ultimately show ?thesis using assms(1-3) r by (simp add: sse_line_def sse_data_def Let_def)
qed

lemma sse_line_keeps:
  assumes "\<not> has_prefix l ''data:'' \<or> \<not> has_prefix (trim_space (trim_prefix l ''data:'')) ''{'' \<or>
    unmarshal_map num64 (trim_space (trim_prefix l ''data:'')) = Inl e"
  shows "sse_line num64 m l = l"
  using assms by (auto simp: sse_line_def sse_data_def Let_def RewriteJSONModel_def)



section \<open>Headers\<close>

lemma byte_char_of: "n < 256 \<Longrightarrow> byte (char_of n) = n"
  by simp

lemma lower_upper: "lower_char (upper_char c) = lower_char c" "lower_char (lower_char c) = lower_char c"
  "byte c < 128 \<Longrightarrow> byte (upper_char c) < 128 \<and> byte (lower_char c) < 128"
  by (auto simp: lower_char_def upper_char_def Let_def)

lemma token_ascii: "token_char c \<Longrightarrow> byte c < 128"
  by (auto simp: token_char_def is_digit_def Let_def)

lemma lower_canon:
  "list_all (\<lambda>c. byte c < 128) s \<Longrightarrow> list_all (\<lambda>c. byte c < 128) (canon up s) \<and> map lower_char (canon up s) = map lower_char s"
  by (induction s arbitrary: up) (simp_all add: lower_upper)

text \<open>The case of a header name does not matter to the skip lists.\<close>

lemma lower_canonical: "to_lower (canonical_key k) = to_lower k"
proof (cases "list_all token_char k")
  case True
  then have "list_all (\<lambda>c. byte c < 128) k" using token_ascii by (auto simp: list_all_iff)
  with True lower_canon[of k True] show ?thesis by (simp add: canonical_key_def to_lower_ascii)
next
  case False
  then show ?thesis by (simp add: canonical_key_def)
qed

lemma skip_canonical [simp]: "shouldSkipRequestHeader (canonical_key k) = shouldSkipRequestHeader k"
  by (simp add: shouldSkipRequestHeader_def lower_canonical)

lemma header_values_add:
  "header_values k (header_add k' v h) = header_values k h @ (if canonical_key k = canonical_key k' then [v] else [])"
  by (simp add: header_values_def header_add_def split: option.splits)

lemma header_values_adds:
  "header_values k (fold (header_add k') vs h) = header_values k h @ (if canonical_key k = canonical_key k' then vs else [])"
  by (induction vs arbitrary: h) (simp_all add: header_values_add)

text \<open>A header map as the server and the HTTP client hand it over: canonical names, each once.\<close>

definition headers_ok :: "headers \<Rightarrow> bool" where
  "headers_ok h \<longleftrightarrow> gomap_ok h \<and> (\<forall>k \<in> fst ` set h. canonical_key k = k)"

lemma copy_headers_values:
  assumes "headers_ok h"
  shows "header_values k (copy_headers h) = (if shouldSkipRequestHeader k then [] else header_values k h)"
proof -
  let ?f = "\<lambda>(k, vs) acc. if shouldSkipRequestHeader k then acc else fold (header_add k) vs acc"
  have "header_values k (fold ?f h acc) = header_values k acc @
      (if shouldSkipRequestHeader k then [] else header_values k h)" for acc
    using assms
  proof (induction h arbitrary: acc)
    case Nil
    then show ?case by (simp add: header_values_def)
  next
    case (Cons kv h)
    obtain k' vs where kv: "kv = (k', vs)" by (cases kv)
    from Cons.prems have ok: "headers_ok h" and c: "canonical_key k' = k'" and new: "map_of h k' = None"
      by (auto simp: headers_ok_def gomap_ok_def kv map_of_eq_None_iff)
    have s: "shouldSkipRequestHeader k' = shouldSkipRequestHeader k" if "canonical_key k = k'"
      using skip_canonical[of k] that by simp
    show ?case
    proof (cases "canonical_key k = k'")
      case True
      with new have e: "header_values k h = []" by (simp add: header_values_def)
      have "header_values k (kv # h) = vs" using True by (simp add: header_values_def kv)
      with Cons.IH[OF ok] s[OF True] True c e show ?thesis by (simp add: kv header_values_adds)
    next
      case False
      then have "header_values k (kv # h) = header_values k h" by (simp add: header_values_def kv)
      with Cons.IH[OF ok] False c show ?thesis by (simp add: kv header_values_adds)
    qed
  qed
  from this[of "[]"] show ?thesis by (simp add: copy_headers_def header_values_def)
qed



end
