(* ===== verification/Startup.thy ===== *)
theory Startup
  imports Http_Server Scheduler_Invariant
begin

text \<open>
  The start of the program, \<open>cmd/jukebox/main.go\<close>: from the bytes of the configuration file to
  the router that serves, or to the exit code. Reading the file, decoding YAML and running
  \<open>nvidia-smi\<close> are parameters; signals and sockets are not modelled.
\<close>

section \<open>GPU power limits\<close>

definition smi_binary :: "config \<Rightarrow> string" where
  "smi_binary c =
     (case SchedulerCfg c of
        None \<Rightarrow> ''nvidia-smi''
      | Some sc \<Rightarrow> if sc_nvidia_smi_binary sc \<noteq> '''' then sc_nvidia_smi_binary sc else ''nvidia-smi'')"

text \<open>The defaults handed to the power manager; \<^term>\<open>None\<close> when no manager is created.\<close>

definition power_defaults :: "(string list \<Rightarrow> string option) \<Rightarrow> config \<Rightarrow> (int, int) gomap option" where
  "power_defaults output c =
     (case GPUPowerLimits c of
        Some m \<Rightarrow> Some m
      | None \<Rightarrow>
          (case DefaultPowerLimit c of
             None \<Rightarrow> None
           | Some watts \<Rightarrow>
               Some (case List_gpus output (smi_binary c) of
                       Inl e \<Rightarrow> []
                     | Inr gpus \<Rightarrow> put_all (map (\<lambda>g. (g_index g, watts)) gpus) [])))"

definition power_setup ::
  "(string list \<Rightarrow> string option) \<Rightarrow> (nat \<Rightarrow> bool) \<Rightarrow> config \<Rightarrow> power_error option \<times> power_world option" where
  "power_setup output smi_ok c =
     (case power_defaults output c of
        None \<Rightarrow> (None, None)
      | Some defaults \<Rightarrow>
          apsnd Some (ApplyStartupLimits smi_ok (NewPowerManager (smi_binary c) defaults (PowerLimitRequired c), [])))"

section \<open>The GPUs of the models\<close>

text \<open>\<open>exists\<close> in the code is the set of the indexes; the result names a model and its missing GPU.\<close>

definition check_gpus :: "gpu list \<Rightarrow> config \<Rightarrow> (string \<times> int) option" where
  "check_gpus gpus c =
     first_err (\<lambda>(name, m).
         if mc_alias m \<noteq> '''' then None
         else first_err (\<lambda>i. fail_if (i \<notin> g_index ` set gpus) (name, i)) (mc_gpus m))
       (Models c)"

section \<open>From the file to the router\<close>

datatype 'e exit =
    NoConfigPath
  | ReadConfigFailed
  | EmptyConfig
  | ParseFailed 'e
  | StartupLimitsFailed power_error
  | InventoryUnreadable inventory_error
  | GpuMissing string int

fun exit_code :: "'e exit \<Rightarrow> int" where
  "exit_code NoConfigPath = 2"
| "exit_code _ = 1"

datatype 'm started =
    SwapMode "manager coordinator"
  | SchedulerMode "'m scheduler"

record startup_env =
  su_read :: "string \<Rightarrow> string option"
  su_raw :: "string \<Rightarrow> config_error + string list"
  su_decode :: "string \<Rightarrow> config_error + config"
  su_output :: "string list \<Rightarrow> string option"
  su_smi_ok :: "nat \<Rightarrow> bool"

definition build_router ::
  "startup_env \<Rightarrow> config \<Rightarrow> power_world option \<Rightarrow> config_error exit + (config \<times> 'm started)" where
  "build_router E c pm =
     (case SchedulerCfg c of
        None \<Rightarrow> Inr (c, SwapMode (NewCoordinatorWithPower c (NewManager c) (Some new_tracker) pm))
      | Some sc \<Rightarrow>
          (let sched = NewScheduler c True (new_pool (sc_port_range_start sc) (sc_port_range_end sc)) pm
           in case List_gpus (su_output E) (sc_nvidia_smi_binary sc) of
                Inl e \<Rightarrow> Inl (InventoryUnreadable e)
              | Inr gpus \<Rightarrow>
                  (case check_gpus gpus c of
                     Some (name, i) \<Rightarrow> Inl (GpuMissing name i)
                   | None \<Rightarrow> Inr (c, SchedulerMode sched))))"

definition startup :: "startup_env \<Rightarrow> string \<Rightarrow> config_error exit + (config \<times> 'm started)" where
  "startup E configPath =
     (if configPath = '''' then Inl NoConfigPath
      else (case su_read E configPath of
              None \<Rightarrow> Inl ReadConfigFailed
            | Some d \<Rightarrow>
                if d = '''' then Inl EmptyConfig
                else (case Load (su_raw E) (su_decode E) d of
                        Inl e \<Rightarrow> Inl (ParseFailed e)
                      | Inr c \<Rightarrow>
                          (case power_setup (su_output E) (su_smi_ok E) c of
                             (Some e, _) \<Rightarrow> Inl (StartupLimitsFailed e)
                           | (None, pm) \<Rightarrow> build_router E c pm))))"

section \<open>Preload and shutdown\<close>

definition preload_timeout :: "config \<Rightarrow> duration" where
  "preload_timeout c =
     (let t = wrap_int64 (vc_startup_timeout (VLLM c) + vc_swap_wait_timeout (VLLM c))
      in if t \<le> 0 then 300 * second else t)"

definition stop_timeout :: "config \<Rightarrow> duration" where
  "stop_timeout c = (let t = vc_shutdown_timeout (VLLM c) in if t \<le> 0 then 30 * second else t)"

text \<open>The default model is ensured once; in scheduler mode the route is given back at once.\<close>

definition preload_swap :: "'m cparams \<Rightarrow> 'm ensure_env \<Rightarrow> clocks \<Rightarrow> 'm coordinator \<Rightarrow> 'm coordinator" where
  "preload_swap P env k c =
     (let model = bc_default_model (Behavior (co_cfg c))
      in if model = '''' then c else snd (EnsureModel P env k model c))"

definition preload_scheduler :: "'m params \<Rightarrow> 'm sched_env \<Rightarrow> 'm scheduler \<Rightarrow> 'm scheduler" where
  "preload_scheduler P env s =
     (let model = bc_default_model (Behavior (sd_cfg s))
      in if model = '''' then s
         else (case AcquireRoute P env model s of
                 (Inl e, s') \<Rightarrow> s'
               | (Inr rt, s') \<Rightarrow> (case rt_instance rt of None \<Rightarrow> s' | Some a \<Rightarrow> route_done a s')))"

text \<open>\<open>stop\<close> runs its body once, however many of the deferred call and the signal handler run it.\<close>

definition stop_once :: "('s \<Rightarrow> 's) \<Rightarrow> bool \<times> 's \<Rightarrow> bool \<times> 's" where
  "stop_once body w = (if fst w then w else (True, body (snd w)))"

text \<open>An error of \<open>Listen\<close>: whether it wraps \<open>net.ErrClosed\<close>, and its text.\<close>

definition isExpectedShutdownErr :: "(bool \<times> string) option \<Rightarrow> bool" where
  "isExpectedShutdownErr err =
     (case err of
        None \<Rightarrow> True
      | Some (shut, text) \<Rightarrow> if shut then True else contains (to_lower text) ''server closed'')"

text \<open>
  The end of \<open>main\<close>: the handler runs \<open>stop\<close> when the first signal comes; when \<open>Listen\<close> returns, the
  deferred \<open>stop\<close> runs, but \<open>os.Exit\<close> after an unexpected error skips it. The result is the exit code,
  \<^term>\<open>None\<close> while the program runs.
\<close>

datatype end_event = Signal | ListenReturns "(bool \<times> string) option"

fun main_end :: "('s \<Rightarrow> 's) \<Rightarrow> end_event list \<Rightarrow> bool \<times> 's \<Rightarrow> int option \<times> (bool \<times> 's)" where
  "main_end body [] w = (None, w)"
| "main_end body (Signal # es) w = main_end body es (stop_once body w)"
| "main_end body (ListenReturns err # es) w =
     (if isExpectedShutdownErr err then (Some 0, stop_once body w) else (Some 1, w))"

section \<open>The routers behind the handlers\<close>

text \<open>
  The two routers as the handlers call them; every route they return has a \<open>Done\<close>, because the
  tracker is always set. \<open>env\<close> is what the call meets, \<open>now\<close> the clock of \<open>Status\<close>.
\<close>

definition scheduler_router :: "'m params \<Rightarrow> 'm sched_env \<Rightarrow> gotime \<Rightarrow> 'm scheduler router" where
  "scheduler_router P env now =
     \<lparr>ro_status = sched_Status P now, ro_acquire = (\<lambda>name requestID s. AcquireRoute P env name s),
      ro_has_done = (\<lambda>rt. True),
      ro_done = (\<lambda>rt s. case rt_instance rt of None \<Rightarrow> s | Some a \<Rightarrow> route_done a s)\<rparr>"

definition legacy_router :: "'m cparams \<Rightarrow> 'm ensure_env \<Rightarrow> clocks \<Rightarrow> 'm coordinator router" where
  "legacy_router P env k =
     \<lparr>ro_status = coord_Status P (ck_now k), ro_acquire = (\<lambda>name requestID c. legacy_AcquireRoute P env k name c),
      ro_has_done = (\<lambda>rt. True), ro_done = (\<lambda>rt c. release_request c)\<rparr>"

definition app_for :: "config \<Rightarrow> 's router \<Rightarrow> 's app_options" where
  "app_for c R = \<lparr>ao_config = Some c, ao_router = Some R\<rparr>"

section \<open>What starts\<close>

lemma check_gpus_None:
  "check_gpus gpus c = None \<longleftrightarrow>
     (\<forall>(n, m) \<in> set (Models c). mc_alias m = '''' \<longrightarrow> set (mc_gpus m) \<subseteq> g_index ` set gpus)"
  by (fastforce simp: check_gpus_def go_loop split_beta)

lemma map_of_same_value: "map_of (rev (map (\<lambda>g. (f g, v)) gs)) k = (if k \<in> f ` set gs then Some v else None)"
proof (cases "map_of (rev (map (\<lambda>g. (f g, v)) gs)) k")
  case None
  then show ?thesis by (auto simp: map_of_eq_None_iff image_image)
next
  case (Some w)
  then have "(k, w) \<in> set (map (\<lambda>g. (f g, v)) gs)" using map_of_SomeD by fastforce
  with Some show ?thesis by auto
qed

lemma startup_Inr:
  assumes "startup E path = Inr (c, r)"
  obtains d pm where "su_read E path = Some d" "Load (su_raw E) (su_decode E) d = Inr c"
    "power_setup (su_output E) (su_smi_ok E) c = (None, pm)" "build_router E c pm = Inr (c, r)"
proof -
  from assms obtain d where d: "su_read E path = Some d"
    by (auto simp: startup_def split: if_splits option.splits)
  with assms obtain c' where c': "Load (su_raw E) (su_decode E) d = Inr c'"
    by (auto simp: startup_def split: if_splits sum.splits)
  with assms d obtain pm where p: "power_setup (su_output E) (su_smi_ok E) c' = (None, pm)"
    and b: "build_router E c' pm = Inr (c, r)"
    by (auto simp: startup_def split: if_splits prod.splits option.splits)
  moreover have "c = c'" using b by (auto simp: build_router_def Let_def split: option.splits sum.splits)
  ultimately show ?thesis using that d c' by blast
qed

lemma NewScheduler_inv:
  assumes "config_ok c" "SchedulerCfg c = Some sc"
  shows "sched_inv (NewScheduler c True (new_pool (sc_port_range_start sc) (sc_port_range_end sc)) pm)"
proof -
  have "scheduler_ok c sc" using assms by (simp add: config_ok_def)
  then have "1 \<le> sc_port_range_start sc" "\<forall>n. sc_max_instances sc = Some n \<longrightarrow> 0 < n"
    by (auto simp: scheduler_ok_def port_ok_def)
  moreover have "pool_source.leases (new_pool s e) []" for s e
    by (simp add: pool_source.leases_def pool_inv_def pool_held_def new_pool_def is_used_def)
  ultimately show ?thesis
    using assms(2)
    by (fastforce simp: sinv_def NewScheduler_def live_def port_list_def gpus_apart_def below_max_def pool_range_def
          new_pool_def)
qed

end
