(* ===== verification/Scheduler_System.thy ===== *)
theory Scheduler_System
  imports Startup
begin

text \<open>
  The scheduler with all its callers. The scheduling permit admits one operation at a time; what the
  other goroutines can do meanwhile is the relation \<open>bystander\<close>, and an operation that waits for an
  instance to drain meets any number of such steps. A request that waited for the permit goes on
  with \<open>with_permit\<close> when it gets it, whatever the others, a \<open>StopAll\<close> without the permit among them, did
  in between. Between its locked sections an operation also calls the process
  manager; the steps of others during such a call are taken before or after it, as they touch none
  of the fields the call reads.
\<close>

section \<open>Steps\<close>

text \<open>\<open>AcquireRoute\<close> from the moment it holds the permit, with the deferred release.\<close>

definition with_permit ::
  "'m params \<Rightarrow> 'm sched_env \<Rightarrow> string \<Rightarrow> model_config \<Rightarrow> 'm scheduler \<Rightarrow> (route_error + route) \<times> 'm scheduler" where
  "with_permit P env resolved mc s =
     (case (case tryRouteReady P (ev_now_retry env) resolved (mc_path mc) s of
              (Some r, s1) \<Rightarrow> (Inr r, s1)
            | (None, s1) \<Rightarrow> schedule_instance P env resolved mc s1) of
        (r, s2) \<Rightarrow> (r, s2\<lparr>sd_busy := False\<rparr>))"

text \<open>
  \<open>exits\<close> is what a process may do on its own. \<open>W\<close> holds of the surroundings an operation may meet: the
  factory gives every instance a manager with other answers to come.
\<close>

inductive bystander :: "('m params \<Rightarrow> bool) \<Rightarrow> ('m \<Rightarrow> 'm \<Rightarrow> bool) \<Rightarrow> 'm scheduler \<Rightarrow> 'm scheduler \<Rightarrow> bool" for W exits where
  routed: "W P \<Longrightarrow> tryRouteReady P now n up s = (r, t) \<Longrightarrow> bystander W exits s t"
| released: "bystander W exits s (route_done a s)"
| turned_away: "sd_busy s \<Longrightarrow> permit_try n s = (r, t) \<Longrightarrow> bystander W exits s t"
| gave_up: "w \<noteq> GotPermit \<Longrightarrow> permit_settle n w s = (r, t) \<Longrightarrow> bystander W exits s t"
| exited: "\<lbrakk>si_mgr (inst_at s a) = Some m; exits m m'\<rbrakk> \<Longrightarrow>
    bystander W exits s (upd_inst a (\<lambda>i. i\<lparr>si_mgr := Some m'\<rparr>) s)"

definition attended :: "('m params \<Rightarrow> bool) \<Rightarrow> ('m \<Rightarrow> 'm \<Rightarrow> bool) \<Rightarrow> (nat \<Rightarrow> 'm scheduler \<Rightarrow> 'm scheduler) \<Rightarrow> bool" where
  "attended W exits drain \<longleftrightarrow> (\<forall>a s. (bystander W exits)\<^sup>*\<^sup>* s (drain a s))"

text \<open>
  \<open>StopAll\<close> takes the permit if it is free and goes on without it if it is not. So between the moment
  an operation gets the permit and its first look at the instances, \<open>others\<close> may not only run beside it
  but stop everything. (A \<open>StopAll\<close> that starts later, while the holder of the permit waits for an
  instance to drain, is not a step of this relation.)
\<close>

definition others :: "('m params \<Rightarrow> bool) \<Rightarrow> ('m \<Rightarrow> 'm \<Rightarrow> bool) \<Rightarrow> 'm scheduler \<Rightarrow> 'm scheduler \<Rightarrow> bool" where
  "others W exits s t \<longleftrightarrow>
     bystander W exits s t \<or> (\<exists>P drain. W P \<and> attended W exits drain \<and> t = StopAll P drain s)"

definition gets_permit :: "string \<Rightarrow> 'm scheduler \<Rightarrow> 'm scheduler \<Rightarrow> bool" where
  "gets_permit n s t \<longleftrightarrow> permit_try n s = (Some None, t) \<or> permit_settle n GotPermit s = (None, t)"

inductive srun :: "('m params \<Rightarrow> bool) \<Rightarrow> ('m \<Rightarrow> 'm \<Rightarrow> bool) \<Rightarrow> 'm scheduler \<Rightarrow> 'm scheduler \<Rightarrow> bool" for W exits s0 where
  start: "srun W exits s0 s0"
| other: "\<lbrakk>srun W exits s0 s; bystander W exits s t\<rbrakk> \<Longrightarrow> srun W exits s0 t"
| request: "\<lbrakk>srun W exits s0 s; \<not> sd_busy s; W P; attended W exits (ev_drain env); AcquireRoute P env n s = (r, t)\<rbrakk> \<Longrightarrow>
    srun W exits s0 t"
| resumed: "\<lbrakk>srun W exits s0 s; \<not> sd_busy s; W P; attended W exits (ev_drain env); ResolveModel (sd_cfg s) n = Inr (resolved, mc);
    gets_permit resolved s s1; (others W exits)\<^sup>*\<^sup>* s1 s2; with_permit P env resolved mc s2 = (r, t)\<rbrakk> \<Longrightarrow> srun W exits s0 t"
| stop: "\<lbrakk>srun W exits s0 s; \<not> sd_busy s; W P; attended W exits drain\<rbrakk> \<Longrightarrow> srun W exits s0 (StopAll P drain s)"

inductive_cases bystander_elim: "bystander W exits s t"

section \<open>Others stay in the frame\<close>

lemma busy_kept [simp]:
  "sd_busy (emit e s) = sd_busy s" "sd_busy (upd_inst a f s) = sd_busy s"
  "sd_busy (snd (routeForInstance P a u s)) = sd_busy s" "sd_busy (route_done a s) = sd_busy s"
  "sd_busy (snd (tryRouteReady P now n u s)) = sd_busy s"
  by (simp_all add: emit_def upd_inst_def routeForInstance_def route_done_def tryRouteReady_def Let_def split_beta
        split: option.split)

lemma bystander_frame: "bystander W exits s t \<Longrightarrow> frame s t \<and> sd_busy t = sd_busy s"
proof (induction rule: bystander.induct)
  case (routed P now n up s r t)
  then have "t = snd (tryRouteReady P now n up s)" by simp
  then show ?case using frame_try_route by simp
next
  case (released s a)
  show ?case using frame_route_done by simp
next
  case (turned_away s n r t)
  then have t: "t = snd (permit_try n s)" by simp
  have "sd_busy (snd (permit_try n s)) = sd_busy s" using turned_away(1) by (simp add: permit_try_def)
  then show ?case using frame_permit(1) t by simp
next
  case (gave_up w n s r t)
  then have t: "t = snd (permit_settle n w s)" by simp
  have "sd_busy (snd (permit_settle n w s)) = sd_busy s"
    using gave_up(1) by (cases w) (simp_all add: permit_settle_def Let_def)
  then show ?case using frame_permit(2) t by simp
next
  case (exited s a m m')
  have "frame s (upd_inst a (\<lambda>i. i\<lparr>si_mgr := Some m'\<rparr>) s)" by (intro frame_upd frame_refl) simp
  then show ?case by simp
qed

lemma bystanders_frame: "(bystander W exits)\<^sup>*\<^sup>* s t \<Longrightarrow> frame s t \<and> sd_busy t = sd_busy s"
proof (induction rule: rtranclp_induct)
  case (step t u)
  with bystander_frame[OF step(2)] show ?case using frame_trans by metis
qed simp

lemma attended_quiet: "attended W exits drain \<Longrightarrow> quiet drain"
  unfolding attended_def quiet_def using bystanders_frame by blast

section \<open>Whole operations\<close>

text \<open>A request that finds the permit free never uses its wait.\<close>

lemma request_no_wait:
  assumes "\<not> sd_busy s"
  shows "AcquireRoute P env n s = AcquireRoute P (env\<lparr>ev_wait := w\<rparr>) n s"
proof -
  have p: "acquireSchedulingPermitOrReject f m x = acquireSchedulingPermitOrReject g m x" if "\<not> sd_busy x" for f g m x
    using that by (simp add: acquireSchedulingPermitOrReject_def permit_try_def)
  have t: "\<not> sd_busy x" if "tryRouteReady P now m u s = (None, x)" for now m u x
    using busy_kept(5)[of P now m u s] that assms by simp
  have sel: "ev_now_try (env\<lparr>ev_wait := w\<rparr>) = ev_now_try env" "ev_now_retry (env\<lparr>ev_wait := w\<rparr>) = ev_now_retry env"
    "ev_wait (env\<lparr>ev_wait := w\<rparr>) = w" "ev_list_exist (env\<lparr>ev_wait := w\<rparr>) = ev_list_exist env"
    "ev_now_evict (env\<lparr>ev_wait := w\<rparr>) = ev_now_evict env" "ev_drain (env\<lparr>ev_wait := w\<rparr>) = ev_drain env"
    "ev_list_free (env\<lparr>ev_wait := w\<rparr>) = ev_list_free env" "ev_now_ready (env\<lparr>ev_wait := w\<rparr>) = ev_now_ready env"
    by (cases env, simp)+
  have i: "schedule_instance P (env\<lparr>ev_wait := w\<rparr>) r mc x = schedule_instance P env r mc x" for r mc x
    unfolding schedule_instance_def launch_instance_def sel by (rule refl)
  show ?thesis
    unfolding AcquireRoute_def sel i
    by (auto split: sum.split option.split prod.split simp: p[OF t, of _ _ _ _ "ev_wait env" _ w])
qed

lemma AcquireRoute_idle:
  assumes "\<not> sd_busy s" "quiet (ev_drain env)" "sched_inv s" "AcquireRoute P env n s = (r, t)"
  shows "sched_inv t" and "r = Inr rt \<Longrightarrow> \<exists>resolved mc. ResolveModel (sd_cfg s) n = Inr (resolved, mc) \<and> serves resolved rt t"
    and "\<not> sd_busy t"
proof -
  let ?env = "env\<lparr>ev_wait := (\<lambda>s. (TimerFired, s))\<rparr>"
  have c: "civil ?env" using assms(2) by (simp add: civil_def)
  have e: "AcquireRoute P ?env n s = (r, t)" using request_no_wait[OF assms(1)] assms(4) by metis
  show "sched_inv t" and "r = Inr rt \<Longrightarrow> \<exists>resolved mc. ResolveModel (sd_cfg s) n = Inr (resolved, mc) \<and> serves resolved rt t"
    using AcquireRoute_ok[OF c assms(3) e] by blast+
  have t1: "\<not> sd_busy x" if "tryRouteReady P now m u s = (y, x)" for now m u x y
    using busy_kept(5)[of P now m u s] that assms(1) by simp
  show "\<not> sd_busy t"
    using assms(1,4) unfolding AcquireRoute_def
    by (auto split: sum.splits option.splits prod.splits simp: acquireSchedulingPermitOrReject_def permit_try_def
          dest: t1)
qed

lemma with_permit_inv:
  assumes "sched_inv s" "quiet (ev_drain env)" "map_of (Models (sd_cfg s)) resolved = Some mc"
    and "with_permit P env resolved mc s = (r, t)"
  shows "sched_inv t \<and> \<not> sd_busy t"
proof -
  obtain r1 s1 where r1: "tryRouteReady P (ev_now_retry env) resolved (mc_path mc) s = (r1, s1)" by fastforce
  have f: "frame s s1" using frame_try_route[of s P "ev_now_retry env" resolved "mc_path mc"] r1 by simp
  have i1: "sched_inv s1" by (rule sinv_frame[OF assms(1) f])
  have mc: "map_of (Models (sd_cfg s1)) resolved = Some mc" using assms(3) f by (simp add: frame_def)
  obtain r2 s2 where r2: "schedule_instance P env resolved mc s1 = (r2, s2)" by fastforce
  have i2: "sched_inv s2" using schedule_instance_inv[OF assms(2) i1 mc r2] by (simp add: scheduled_def)
  have busy: "sched_inv (u\<lparr>sd_busy := False\<rparr>)" if "sched_inv u" for u
    by (rule sinv_frame[OF that]) (intro frame_steps frame_refl)
  show ?thesis
    using assms(4) busy[OF i1] busy[OF i2] by (auto simp: with_permit_def r1 r2 split: option.splits)
qed

section \<open>The configuration never changes\<close>

lemma frame_cfg: "frame s t \<Longrightarrow> sd_cfg t = sd_cfg s"
  by (simp add: frame_def)

lemma cfg_kept [simp]:
  "sd_cfg (snd (tryRouteReady P now n up s)) = sd_cfg s" "sd_cfg (snd (routeForInstance P a u s)) = sd_cfg s"
  "sd_cfg (snd (ensureFreeVRAM ans gs k s)) = sd_cfg s" "sd_cfg (snd (apply_power P mc s)) = sd_cfg s"
  "sd_cfg (snd (start_mgr P n a s)) = sd_cfg s" "sd_cfg (snd (verify_mgr P n a s)) = sd_cfg s"
  "sd_cfg (stop_mgr P a s) = sd_cfg s" "sd_cfg (revert_power P gs s) = sd_cfg s" "sd_cfg (release_port q s) = sd_cfg s"
  "sd_cfg (snd (permit_try n s)) = sd_cfg s" "sd_cfg (snd (permit_settle n w s)) = sd_cfg s"
  "sd_cfg (emit e s) = sd_cfg s" "sd_cfg (zero_gauges i s) = sd_cfg s" "sd_cfg (snd (publish now n a s)) = sd_cfg s"
  by (simp_all add: frame_cfg frame_try_route frame_route frame_vram frame_calls frame_stop_mgr frame_ops frame_permit
        frame_field release_port_def publish_def Let_def upd_inst_def emit_def mark_draining_def split: option.split)

lemma evict_loop_cfg: "quiet drain \<Longrightarrow> sd_cfg (snd (evict_loop P drain now mu target as s)) = sd_cfg s"
  by (induction P drain now mu target as s rule: evict_loop.induct) (simp_all add: Let_def drain_stop_rest(1))

lemma wait_drain_cfg: "quiet drain \<Longrightarrow> sd_cfg (wait_drain drain a s) = sd_cfg s"
  using frame_cfg[OF frame_wait_drain[of drain s s a]] by simp

lemma evict_cfg: "quiet drain \<Longrightarrow> sd_cfg (snd (evictConflicts P drain now target s)) = sd_cfg s"
  by (simp add: evictConflicts_def Let_def evict_loop_cfg split: option.split)

lemma retire_cfg: "quiet drain \<Longrightarrow> sd_cfg (retire_old P drain old s) = sd_cfg s"
  by (simp add: retire_old_def Let_def wait_drain_cfg split: option.split)

lemma launch_cfg:
  assumes "quiet (ev_drain env)" "launch_instance P env n mc port s = (r, t)"
  shows "sd_cfg t = sd_cfg s"
proof -
  let ?a = "length (sd_store s)"
  let ?s0 = "s\<lparr>sd_store := sd_store s @ [new_instance P n mc port]\<rparr>"
  obtain e1 s1 where 1: "apply_power P mc ?s0 = (e1, s1)" by fastforce
  obtain e2 s2 where 2: "start_mgr P n ?a s1 = (e2, s2)" by fastforce
  obtain e3 s3 where 3: "verify_mgr P n ?a s2 = (e3, s3)" by fastforce
  obtain old s4 where 4: "publish (ev_now_ready env) n ?a s3 = (old, s4)" by fastforce
  obtain rt s5 where 5: "routeForInstance P ?a (mc_path mc) (retire_old P (ev_drain env) old s4) = (rt, s5)" by fastforce
  have "sd_cfg s1 = sd_cfg s" "sd_cfg s2 = sd_cfg s1" "sd_cfg s3 = sd_cfg s2" "sd_cfg s4 = sd_cfg s3"
    "sd_cfg s5 = sd_cfg (retire_old P (ev_drain env) old s4)"
    using cfg_kept(4)[of P mc ?s0] cfg_kept(5)[of P n ?a s1] cfg_kept(6)[of P n ?a s2]
      cfg_kept(14)[of "ev_now_ready env" n ?a s3]
      cfg_kept(2)[of P ?a "mc_path mc" "retire_old P (ev_drain env) old s4"]
    by (simp_all add: 1 2 3 4 5)
  with assms 1 2 3 4 5 retire_cfg[OF assms(1), of P old s4] show ?thesis
    by (auto simp: launch_instance_def Let_def split: option.splits)
qed

lemma schedule_cfg:
  assumes "quiet (ev_drain env)" "schedule_instance P env n mc s = (r, t)"
  shows "sd_cfg t = sd_cfg s"
proof -
  obtain e1 s1 where 1: "evictConflicts P (ev_drain env) (ev_now_evict env) (mc_gpus mc) s = (e1, s1)" by fastforce
  have c1: "sd_cfg s1 = sd_cfg s" using evict_cfg[OF assms(1), of P "ev_now_evict env" "mc_gpus mc" s] by (simp add: 1)
  have c2: "sd_cfg s2 = sd_cfg s1" if "ensureFreeVRAM (ev_list_free env) (mc_gpus mc) k s1 = (e2, s2)" for k e2 s2
    using cfg_kept(3)[of "ev_list_free env" "mc_gpus mc" k s1] that by simp
  have l: "sd_cfg t = sd_cfg s2" if "launch_instance P env n mc port (s2\<lparr>sd_ports := q\<rparr>) = (r, t)" for port s2 q
    using launch_cfg[OF assms(1) that] by simp
  from assms(2) 1 c1 show ?thesis
    unfolding schedule_instance_def
    by (auto split: option.splits if_splits prod.splits dest!: c2 l)
qed

lemma AcquireRoute_cfg:
  assumes "quiet (ev_drain env)" "\<not> sd_busy s" "AcquireRoute P env n s = (r, t)"
  shows "sd_cfg t = sd_cfg s"
proof -
  have tr: "sd_cfg x = sd_cfg y \<and> sd_busy x = sd_busy y" if "tryRouteReady P now m u y = (z, x)" for now m u y z x
    using cfg_kept(1)[of P now m u y] busy_kept(5)[of P now m u y] that by simp_all
  have pm: "sd_cfg x = sd_cfg y" if "acquireSchedulingPermitOrReject w m y = (z, x)" "\<not> sd_busy y" for w m y z x
    using that by (auto simp: acquireSchedulingPermitOrReject_def permit_try_def)
  from assms(2,3) show ?thesis
    unfolding AcquireRoute_def
    by (auto split: sum.splits option.splits prod.splits dest!: tr pm schedule_cfg[OF assms(1)])
qed

lemma with_permit_cfg:
  assumes "quiet (ev_drain env)" "with_permit P env n mc s = (r, t)"
  shows "sd_cfg t = sd_cfg s"
proof -
  have tr: "sd_cfg x = sd_cfg y" if "tryRouteReady P now m u y = (z, x)" for now m u y z x
    using cfg_kept(1)[of P now m u y] that by simp
  from assms(2) show ?thesis
    unfolding with_permit_def by (auto split: option.splits prod.splits dest!: tr schedule_cfg[OF assms(1)])
qed

lemma StopAll_cfg: "quiet drain \<Longrightarrow> sd_cfg (StopAll P drain s) = sd_cfg s"
proof -
  assume q: "quiet drain"
  have "sd_cfg (fold (drainAndStopInstance P drain False) as x) = sd_cfg x" for as x
    by (induction as arbitrary: x) (simp_all add: drain_stop_rest(1)[OF q])
  then show ?thesis by (simp add: StopAll_def Let_def)
qed

section \<open>Runs\<close>

lemma gets_permit_frame: "gets_permit n s t \<Longrightarrow> frame s t"
  using frame_permit[of s n] by (metis gets_permit_def snd_conv)

lemma others_step: "others W exits s t \<Longrightarrow> sched_inv s \<Longrightarrow> sched_inv t \<and> sd_cfg t = sd_cfg s"
  unfolding others_def using bystander_frame[of W exits s t]
  by (auto simp: frame_cfg StopAll_cfg[OF attended_quiet] intro: StopAll_ok(1)[OF attended_quiet] dest: sinv_frame)

lemma others_inv: "(others W exits)\<^sup>*\<^sup>* s t \<Longrightarrow> sched_inv s \<Longrightarrow> sched_inv t \<and> sd_cfg t = sd_cfg s"
proof (induction rule: rtranclp_induct)
  case (step t u)
  with others_step[OF step(2)] show ?case by simp
qed simp

lemma held_inv:
  assumes "sched_inv s" "gets_permit n s s1" "(others W exits)\<^sup>*\<^sup>* s1 t"
  shows "sched_inv t" "sd_cfg t = sd_cfg s"
  using others_inv[OF assms(3) sinv_frame[OF assms(1) gets_permit_frame[OF assms(2)]]]
    frame_cfg[OF gets_permit_frame[OF assms(2)]] by simp_all

lemma srun_inv: "srun W exits s0 s \<Longrightarrow> sched_inv s0 \<Longrightarrow> \<not> sd_busy s0 \<Longrightarrow> sched_inv s \<and> \<not> sd_busy s"
proof (induction rule: srun.induct)
  case (other s t)
  with bystander_frame[OF other(2)] show ?case using sinv_frame by blast
next
  case (request s P env n r t)
  with AcquireRoute_idle(1,3)[OF request(2) attended_quiet[OF request(4)] _ request(5)] show ?case by simp
next
  case (resumed s P env n resolved mc s1 s2 r t)
  then have "sched_inv s" by blast
  note h = held_inv[OF this resumed(6,7)]
  from h(2) have "map_of (Models (sd_cfg s2)) resolved = Some mc" using resolved_model[OF resumed(5)] by simp
  with with_permit_inv[OF h(1) attended_quiet[OF resumed(4)] _ resumed(8)] show ?case by simp
next
  case (stop s P drain)
  then have "sched_inv s" "\<not> sd_busy (StopAll P drain s)" by (simp_all add: StopAll_def Let_def)
  with StopAll_ok(1)[OF attended_quiet[OF stop(4)]] show ?case by blast
qed simp

lemma srun_cfg: "srun W exits s0 s \<Longrightarrow> sched_inv s0 \<Longrightarrow> \<not> sd_busy s0 \<Longrightarrow> sd_cfg s = sd_cfg s0"
proof (induction rule: srun.induct)
  case (other s t)
  with frame_cfg[OF conjunct1[OF bystander_frame[OF other(2)]]] show ?case by simp
next
  case (request s P env n r t)
  with AcquireRoute_cfg[OF attended_quiet[OF request(4)] request(2,5)] show ?case by simp
next
  case (resumed s P env n resolved mc s1 s2 r t)
  have "sched_inv s" using srun_inv[OF resumed(1)] resumed by blast
  from held_inv(2)[OF this resumed(6,7)] resumed with_permit_cfg[OF attended_quiet[OF resumed(4)] resumed(8)]
  show ?case by simp
next
  case (stop s P drain)
  with StopAll_cfg[OF attended_quiet[OF stop(4)]] show ?case by simp
qed simp

end
