(* ===== verification/Scheduler_Processes.thy ===== *)
theory Scheduler_Processes
  imports Scheduler_System
begin

text \<open>
  The scheduler and the processes behind its instances: in every run, a backend process that exists is
  the process of an instance in the map, or of one whose \<open>Stop\<close> has returned an error. What the
  scheduler relies on is the contract of the process manager, the locale \<open>instance_manager\<close>.
\<close>

section \<open>Accounting for the processes\<close>

text \<open>
  \<open>Y\<close> are the instances that may have a process; every other one is dead or its last \<open>Stop\<close> failed.
  Every manager is sound for the port of its instance.
\<close>

definition accounted :: "('m \<Rightarrow> bool) \<Rightarrow> (int \<Rightarrow> 'm \<Rightarrow> bool) \<Rightarrow> nat set \<Rightarrow> 'm scheduler \<Rightarrow> bool" where
  "accounted alive sound Y s \<longleftrightarrow>
     (\<forall>a < length (sd_store s). si_mgr (inst_at s a) \<noteq> None \<and> (\<forall>m. si_mgr (inst_at s a) = Some m \<longrightarrow>
        sound (si_port (inst_at s a)) m \<and> (alive m \<longrightarrow> a \<in> Y \<or> si_stop_err (inst_at s a) \<noteq> None)))"

lemma accounted_mono: "accounted al iv Y s \<Longrightarrow> Y \<subseteq> Y' \<Longrightarrow> accounted al iv Y' s"
  unfolding accounted_def by blast

text \<open>Steps that leave every manager, its port and the result of its last \<open>Stop\<close> as they were.\<close>

definition same_procs :: "'m scheduler \<Rightarrow> 'm scheduler \<Rightarrow> bool" where
  "same_procs s t \<longleftrightarrow>
     map (\<lambda>i. (si_mgr i, si_stop_err i, si_port i)) (sd_store t) = map (\<lambda>i. (si_mgr i, si_stop_err i, si_port i)) (sd_store s)"

lemma same_procs_refl [simp, intro]: "same_procs s s"
  by (simp add: same_procs_def)

lemma same_procs_store: "sd_store t = sd_store s \<Longrightarrow> same_procs s t"
  by (simp add: same_procs_def)

lemma accounted_same: "accounted al iv Y s \<Longrightarrow> same_procs s t \<Longrightarrow> accounted al iv Y t"
proof -
  assume acc: "accounted al iv Y s" and same: "same_procs s t"
  have len: "length (sd_store t) = length (sd_store s)" using same by (auto simp: same_procs_def dest: map_eq_imp_length_eq)
  have "si_mgr (inst_at t a) = si_mgr (inst_at s a)" "si_stop_err (inst_at t a) = si_stop_err (inst_at s a)"
    "si_port (inst_at t a) = si_port (inst_at s a)"
    if "a < length (sd_store s)" for a
    using same that len by (auto simp: same_procs_def inst_at_def list_eq_iff_nth_eq)
  with acc len show ?thesis by (simp add: accounted_def)
qed

named_theorems same_steps \<open>single updates that leave the processes alone\<close>

lemma same_procs_upd [same_steps]:
  assumes "\<And>i. si_mgr (f i) = si_mgr i \<and> si_stop_err (f i) = si_stop_err i \<and> si_port (f i) = si_port i" "same_procs s t"
  shows "same_procs s (upd_inst a f t)"
proof -
  let ?g = "\<lambda>i. (si_mgr i, si_stop_err i, si_port i)"
  have "map ?g ((sd_store t)[a := f (sd_store t ! a)]) = map ?g (sd_store t)"
    using assms(1) by (cases "a < length (sd_store t)") (simp_all add: map_update list_update_same_conv list_update_beyond)
  with assms(2) show ?thesis by (simp add: same_procs_def upd_inst_def)
qed

lemma same_procs_fields [same_steps]:
  "same_procs s t \<Longrightarrow> same_procs s (emit e t)"
  "same_procs s t \<Longrightarrow> same_procs s (t\<lparr>sd_total := x\<rparr>)"
  "same_procs s t \<Longrightarrow> same_procs s (t\<lparr>sd_power := w\<rparr>)"
  "same_procs s t \<Longrightarrow> same_procs s (t\<lparr>sd_busy := b\<rparr>)"
  "same_procs s t \<Longrightarrow> same_procs s (t\<lparr>sd_waiters := v\<rparr>)"
  "same_procs s t \<Longrightarrow> same_procs s (t\<lparr>sd_instances := i\<rparr>)"
  "same_procs s t \<Longrightarrow> same_procs s (t\<lparr>sd_ports := q\<rparr>)"
  by (simp_all add: same_procs_def emit_def)

lemma same_procs_ops [same_steps]:
  "same_procs s t \<Longrightarrow> same_procs s (mark_draining a t)"
  "same_procs s t \<Longrightarrow> same_procs s (revert_power P gs t)"
  "same_procs s t \<Longrightarrow> same_procs s (zero_gauges i t)"
  "same_procs s t \<Longrightarrow> same_procs s (release_port q t)"
  by (auto simp: mark_draining_def revert_power_def zero_gauges_def release_port_def intro!: same_steps)

lemma same_procs_route [same_steps]: "same_procs s t \<Longrightarrow> same_procs s (snd (routeForInstance P a u t))"
  unfolding routeForInstance_def Let_def split_beta snd_conv by (intro same_steps) simp_all

lemma same_procs_calls:
  "same_procs s (route_done a s)" "same_procs s (snd (tryRouteReady P now n u s))"
  "same_procs s (snd (permit_try m s))" "same_procs s (snd (permit_settle m w s))"
  "same_procs s (snd (apply_power P mc s))" "same_procs s (snd (ensureFreeVRAM ans gs k s))"
  by (auto simp: route_done_def tryRouteReady_def permit_try_def permit_settle_def apply_power_def ensureFreeVRAM_def
        Let_def split_beta split: option.splits wait_outcome.splits sum.splits prod.splits intro!: same_steps)

lemma same_procs_forget: "same_procs s (forget_instance e a s)"
  by (rule same_procs_store) (simp add: forget_fields)

lemma same_procs_publish: "same_procs s (snd (publish now n a s))"
  by (auto simp: publish_def Let_def split: option.splits intro!: same_steps)

lemma accounted_emit: "accounted al iv (set (live s)) s \<Longrightarrow> accounted al iv (set (live (emit x s))) (emit x s)"
  using accounted_same[OF _ same_procs_fields(1)[OF same_procs_refl]] by (simp add: live_def emit_def)

lemma live_port_inj:
  assumes "sched_inv s" "a \<in> set (live s)" "b \<in> set (live s)" "si_port (inst_at s a) = si_port (inst_at s b)"
  shows "a = b"
proof -
  have "distinct (port_list s)" using sinv_leases[OF assms(1)] by (simp add: pool_source.leases_def)
  with assms(2-4) show ?thesis by (auto simp: port_list_def distinct_map inj_on_def)
qed

section \<open>A request with the permit\<close>

text \<open>A request that finds the permit free takes it and goes on like one that waited.\<close>

lemma AcquireRoute_with_permit:
  assumes "\<not> sd_busy s" "AcquireRoute P env n s = (r, t)"
  obtains (unknown) e where "r = Inl (RouteConfig e)" "t = s"
    | (routed) resolved up rt where "tryRouteReady P (ev_now_try env) resolved up s = (Some rt, t)"
    | (permit) resolved mc s1 where "ResolveModel (sd_cfg s) n = Inr (resolved, mc)"
        "tryRouteReady P (ev_now_try env) resolved (mc_path mc) s = (None, s1)"
        "with_permit P env resolved mc (s1\<lparr>sd_busy := True\<rparr>) = (r, t)"
proof (cases "ResolveModel (sd_cfg s) n")
  case (Inl e)
  with assms(2) have "r = Inl (RouteConfig e)" "t = s" by (simp_all add: AcquireRoute_def)
  then show ?thesis by (rule unknown)
next
  case (Inr x)
  obtain resolved mc where x: "x = (resolved, mc)" by fastforce
  obtain r1 s1 where r1: "tryRouteReady P (ev_now_try env) resolved (mc_path mc) s = (r1, s1)" by fastforce
  have "\<not> sd_busy s1" using busy_kept(5)[of P "ev_now_try env" resolved "mc_path mc" s] r1 assms(1) by simp
  then have "acquireSchedulingPermitOrReject (ev_wait env) resolved s1 = (None, s1\<lparr>sd_busy := True\<rparr>)"
    by (simp add: acquireSchedulingPermitOrReject_def permit_try_def)
  note e = assms(2)[unfolded AcquireRoute_def Inr x, simplified, unfolded r1, simplified, unfolded this]
  show ?thesis
  proof (cases r1)
    case None
    have "with_permit P env resolved mc (s1\<lparr>sd_busy := True\<rparr>) = (r, t)"
      using e None by (simp add: with_permit_def)
    with Inr x r1 None permit show ?thesis by simp
  next
    case (Some rt)
    with r1 e routed[of resolved "mc_path mc" rt] show ?thesis by simp
  qed
qed

section \<open>What the scheduler needs of its managers\<close>

text \<open>
  Every surrounding gives the operations of the manager and a factory of managers without a process,
  at the address of their port; a process that exits on its own only ends.
\<close>

locale supervisor = instance_manager ops alive invar
  for ops :: "'m mgr_ops" and alive :: "'m \<Rightarrow> bool" and invar :: "'m \<Rightarrow> bool" +
  fixes W :: "'m params \<Rightarrow> bool" and exits :: "'m \<Rightarrow> 'm \<Rightarrow> bool" and address :: "int \<Rightarrow> string"
  assumes world_ops: "W P \<Longrightarrow> pm_ops P = ops"
    and world_new: "W P \<Longrightarrow> invar (pm_new P port gpus) \<and> \<not> alive (pm_new P port gpus) \<and>
        op_url ops (pm_new P port gpus) = address port"
    and exits_ok: "\<lbrakk>exits m m'; invar m\<rbrakk> \<Longrightarrow> invar m' \<and> (alive m' \<longrightarrow> alive m) \<and> op_url ops m' = op_url ops m"
begin

abbreviation sound :: "int \<Rightarrow> 'm \<Rightarrow> bool" where
  "sound port m \<equiv> invar m \<and> op_url ops m = address port"

abbreviation acc :: "nat set \<Rightarrow> 'm scheduler \<Rightarrow> bool" where
  "acc \<equiv> accounted alive sound"

lemma acc_mgr:
  assumes "acc Y s" "\<And>m. si_mgr (inst_at s a) = Some m \<Longrightarrow> a < length (sd_store s) \<Longrightarrow>
      \<exists>m'. si_mgr (f (inst_at s a)) = Some m' \<and> sound (si_port (inst_at s a)) m' \<and> (alive m' \<longrightarrow> a \<in> Y' \<or> si_stop_err (f (inst_at s a)) \<noteq> None)"
    and "Y - {a} \<subseteq> Y'" "si_mgr (inst_at s a) \<noteq> None" "si_port (f (inst_at s a)) = si_port (inst_at s a)"
  shows "acc Y' (upd_inst a f s)"
proof -
  let ?t = "upd_inst a f s"
  have some: "si_mgr (inst_at ?t b) \<noteq> None" if "b < length (sd_store ?t)" for b
  proof (cases "b = a")
    case True
    with that have "a < length (sd_store s)" "inst_at ?t b = f (inst_at s a)"
      by (simp_all add: upd_inst_def inst_at_def)
    with assms(2,4) show ?thesis by fastforce
  next
    case False
    with that assms(1) show ?thesis by (simp add: accounted_def upd_inst_def inst_at_def)
  qed
  have "sound (si_port (inst_at ?t b)) m \<and> (alive m \<longrightarrow> b \<in> Y' \<or> si_stop_err (inst_at ?t b) \<noteq> None)"
    if b: "b < length (sd_store ?t)" "si_mgr (inst_at ?t b) = Some m" for b m
  proof (cases "b = a")
    case True
    with b have "a < length (sd_store s)" "inst_at ?t b = f (inst_at s a)"
      by (simp_all add: upd_inst_def inst_at_def)
    with assms(2,4,5) b(2) show ?thesis by (auto simp: True)
  next
    case False
    with b have "b < length (sd_store s)" "inst_at ?t b = inst_at s b" by (simp_all add: upd_inst_def inst_at_def)
    with assms(1,3) b(2) False show ?thesis by (auto simp: accounted_def)
  qed
  with some show ?thesis by (simp add: accounted_def)
qed

subsection \<open>Steps of others\<close>

lemma acc_bystander: "bystander W exits s t \<Longrightarrow> acc Y s \<Longrightarrow> acc Y t"
proof (induction rule: bystander.induct)
  case (routed P now n up s r t)
  with accounted_same[OF _ same_procs_calls(2), of alive sound Y s P now n up] show ?case by simp
next
  case (released s a)
  with accounted_same[OF _ same_procs_calls(1)] show ?case by blast
next
  case (turned_away s n r t)
  with accounted_same[OF _ same_procs_calls(3), of alive sound Y s n] show ?case by simp
next
  case (gave_up w n s r t)
  with accounted_same[OF _ same_procs_calls(4), of alive sound Y s n w] show ?case by simp
next
  case (exited s a m m')
  show ?case
  proof (rule acc_mgr[OF exited(3)])
    fix x assume "si_mgr (inst_at s a) = Some x" "a < length (sd_store s)"
    with exited exits_ok[OF exited(2)]
    show "\<exists>y. si_mgr ((inst_at s a)\<lparr>si_mgr := Some m'\<rparr>) = Some y \<and> sound (si_port (inst_at s a)) y \<and>
        (alive y \<longrightarrow> a \<in> Y \<or> si_stop_err ((inst_at s a)\<lparr>si_mgr := Some m'\<rparr>) \<noteq> None)"
      by (simp add: accounted_def)
  qed (use exited in auto)
qed

lemma acc_drain: "attended W exits drain \<Longrightarrow> acc Y s \<Longrightarrow> acc Y (wait_drain drain a s)"
proof -
  assume "attended W exits drain" and acc: "acc Y s"
  then have "(bystander W exits)\<^sup>*\<^sup>* s (drain a s)" by (simp add: attended_def)
  from this acc have "acc Y (drain a s)" by (induction rule: rtranclp_induct) (auto intro: acc_bystander)
  with acc show ?thesis by (simp add: wait_drain_def)
qed

subsection \<open>Calls of the manager\<close>

lemma acc_stop: "W P \<Longrightarrow> acc Y s \<Longrightarrow> acc (Y - {a}) (stop_mgr P a s)"
proof (cases "si_mgr (inst_at s a)")
  case None
  moreover assume "acc Y s"
  ultimately show ?thesis unfolding accounted_def stop_mgr_def by auto
next
  case (Some m)
  assume W: "W P" and acc: "acc Y s"
  obtain err m' where o: "op_stop (pm_ops P) m = (err, m')" by fastforce
  have st: "stop_mgr P a s = upd_inst a (\<lambda>i. i\<lparr>si_mgr := Some m', si_stop_err := err\<rparr>) s"
    by (simp add: stop_mgr_def Some o)
  show ?thesis unfolding st
  proof (rule acc_mgr[OF acc])
    fix x assume "si_mgr (inst_at s a) = Some x" "a < length (sd_store s)"
    then have "sound (si_port (inst_at s a)) m" using acc Some by (simp add: accounted_def)
    with o W stop_inv[of m err m'] stop_ok[of m m']
    show "\<exists>y. si_mgr ((inst_at s a)\<lparr>si_mgr := Some m', si_stop_err := err\<rparr>) = Some y \<and> sound (si_port (inst_at s a)) y \<and>
        (alive y \<longrightarrow> a \<in> Y - {a} \<or> si_stop_err ((inst_at s a)\<lparr>si_mgr := Some m', si_stop_err := err\<rparr>) \<noteq> None)"
      by (cases err) (auto simp: world_ops)
  qed (use Some in auto)
qed

lemma acc_start:
  assumes W: "W P" and acc: "acc Y s" and some: "si_mgr (inst_at s a) = Some m" and e: "start_mgr P n a s = (e, t)"
  shows "acc (if e = None then insert a Y else Y) t"
proof -
  let ?Y = "if e = None then insert a Y else Y"
  obtain r m' where o: "op_start (pm_ops P) n m = (r, m')" by fastforce
  then have t: "t = upd_inst a (\<lambda>i. i\<lparr>si_mgr := Some m'\<rparr>) s" "e = (case r of Inl x \<Rightarrow> Some x | Inr p \<Rightarrow> None)"
    using e some by (auto simp: start_mgr_def)
  show ?thesis unfolding t(1)
  proof (rule acc_mgr[OF acc])
    fix x assume "si_mgr (inst_at s a) = Some x" "a < length (sd_store s)"
    then have old: "sound (si_port (inst_at s a)) m" "alive m \<longrightarrow> a \<in> Y \<or> si_stop_err (inst_at s a) \<noteq> None"
      using acc some by (simp_all add: accounted_def)
    with o W start_inv[of m n r m'] start_err[of m n _ m'] t(2)
    show "\<exists>y. si_mgr ((inst_at s a)\<lparr>si_mgr := Some m'\<rparr>) = Some y \<and> sound (si_port (inst_at s a)) y \<and>
        (alive y \<longrightarrow> a \<in> ?Y \<or> si_stop_err ((inst_at s a)\<lparr>si_mgr := Some m'\<rparr>) \<noteq> None)"
      by (cases r) (auto simp: world_ops)
  qed (use some in auto)
qed

lemma acc_verify:
  assumes W: "W P" and acc: "acc Y s" and some: "si_mgr (inst_at s a) = Some m" and e: "verify_mgr P n a s = (e, t)"
  shows "acc Y t"
proof -
  obtain r m' where o: "op_verify (pm_ops P) n m = (r, m')" by fastforce
  then have t: "t = upd_inst a (\<lambda>i. i\<lparr>si_mgr := Some m'\<rparr>) s" using e some by (auto simp: verify_mgr_def)
  show ?thesis unfolding t
  proof (rule acc_mgr[OF acc])
    fix x assume "si_mgr (inst_at s a) = Some x" "a < length (sd_store s)"
    then have old: "sound (si_port (inst_at s a)) m" "alive m \<longrightarrow> a \<in> Y \<or> si_stop_err (inst_at s a) \<noteq> None"
      using acc some by (simp_all add: accounted_def)
    with o W verify_inv[of m n r m']
    show "\<exists>y. si_mgr ((inst_at s a)\<lparr>si_mgr := Some m'\<rparr>) = Some y \<and> sound (si_port (inst_at s a)) y \<and>
        (alive y \<longrightarrow> a \<in> Y \<or> si_stop_err ((inst_at s a)\<lparr>si_mgr := Some m'\<rparr>) \<noteq> None)"
      by (auto simp: world_ops)
  qed (use some in auto)
qed

subsection \<open>Draining and evicting\<close>

lemma acc_drain_stop:
  assumes W: "W P" "attended W exits drain" and acc: "acc Y s"
  shows "acc (Y - {a}) (drainAndStopInstance P drain e a s)"
proof -
  let ?s = "mark_draining a s"
  have s: "acc Y ?s" by (rule accounted_same[OF acc]) (intro same_steps same_procs_refl)
  have "acc (Y - {a}) (stop_instance P drain a ?s)"
  proof (cases "si_mgr (inst_at ?s a) = None")
    case True
    with s show ?thesis unfolding stop_instance_def accounted_def by auto
  next
    case False
    have "acc (Y - {a}) (stop_mgr P a (wait_drain drain a ?s))" by (intro acc_stop acc_drain W s)
    from accounted_same[OF this same_procs_ops(2)[OF same_procs_refl]] show ?thesis
      using False by (auto simp: stop_instance_def Let_def)
  qed
  then show ?thesis unfolding drainAndStopInstance_def by (rule accounted_same[OF _ same_procs_forget])
qed

lemma acc_drain_stop_live:
  assumes "W P" "attended W exits drain" "sinv ls s" "a \<in> set (live s)" "acc (set (live s)) s"
  shows "acc (set (live (drainAndStopInstance P drain e a s))) (drainAndStopInstance P drain e a s)"
  using acc_drain_stop[OF assms(1,2,5), of a e] live_distinct[OF assms(3)]
  by (simp add: drain_stop(2)[OF attended_quiet[OF assms(2)] assms(3,4)])

lemma acc_evict_loop:
  "\<lbrakk>W P; attended W exits drain; sinv ls s; acc (set (live s)) s; distinct as; set as \<subseteq> set (live s)\<rbrakk> \<Longrightarrow>
   acc (set (live (snd (evict_loop P drain now m target as s)))) (snd (evict_loop P drain now m target as s))"
proof (induction P drain now m target as s rule: evict_loop.induct)
  case (1 P drain now m target s)
  then show ?case by (simp add: accounted_emit)
next
  case (2 P drain now m target a as s)
  let ?s' = "drainAndStopInstance P drain True a s"
  have a: "a \<in> set (live s)" using "2.prems" by simp
  note q = attended_quiet[OF "2.prems"(2)]
  note d = drain_stop(1,2)[OF q "2.prems"(3) a, of P True]
  have s': "acc (set (live ?s')) ?s'" by (rule acc_drain_stop_live[OF "2.prems"(1-3) a "2.prems"(4)])
  have as: "set as \<subseteq> set (live ?s')" using "2.prems" live_distinct[OF "2.prems"(3)] by (auto simp: d(2))
  note IH = "2.IH"[OF refl refl]
  consider (skip) "\<not> overlaps (si_gpus (inst_at s a)) target"
    | (young) "overlaps (si_gpus (inst_at s a)) target"
        "\<not> is_zero_time (si_started_at (inst_at s a)) \<and> time_sub now (si_started_at (inst_at s a)) < m"
    | (evict) "overlaps (si_gpus (inst_at s a)) target"
        "\<not> (\<not> is_zero_time (si_started_at (inst_at s a)) \<and> time_sub now (si_started_at (inst_at s a)) < m)"
    by blast
  then show ?case
  proof cases
    case skip
    with IH(1)[OF skip "2.prems"(1-4)] "2.prems"(5,6) show ?thesis by simp
  next
    case young
    with accounted_emit[OF "2.prems"(4)] show ?thesis by (simp add: Let_def)
  next
    case evict
    show ?thesis
    proof (cases "still_conflicts target ?s'")
      case True
      from IH(2)[OF _ evict(2) refl _ "2.prems"(1,2) d(1) s' _ as] True evict "2.prems"(5)
      have "acc (set (live (snd (evict_loop P drain now m target as ?s')))) (snd (evict_loop P drain now m target as ?s'))"
        by simp
      moreover have "evict_loop P drain now m target (a # as) s = evict_loop P drain now m target as ?s'"
        using evict True by (auto simp: Let_def)
      ultimately show ?thesis by (simp only:)
    next
      case False
      then have "evict_loop P drain now m target (a # as) s = (None, ?s')" using evict by (auto simp: Let_def)
      with s' show ?thesis by simp
    qed
  qed
qed

lemma acc_evict:
  assumes "W P" "attended W exits drain" "sinv ls s" "acc (set (live s)) s"
    and "evictConflicts P drain now target s = (r, t)"
  shows "acc (set (live t)) t"
proof (cases "find (\<lambda>a. si_pinned (inst_at s a)) (conflicts_of target s)")
  case (Some a)
  then have "t = emit (ScheduleRejected RejectPinnedConflict) s" using assms(5) by (auto simp: evictConflicts_def)
  with accounted_emit[OF assms(4)] show ?thesis by simp
next
  case None
  let ?as = "sort_key (\<lambda>a. si_last_used_at (inst_at s a)) (conflicts_of target s)"
  have "t = snd (evict_loop P drain now (min_instance_uptime (sd_cfg s)) target ?as s)"
    using assms(5) None by (simp add: evictConflicts_def)
  moreover have "distinct ?as" "set ?as \<subseteq> set (live s)"
    using live_distinct[OF assms(3)] by (auto simp: conflicts_of_def)
  ultimately show ?thesis using acc_evict_loop[OF assms(1-4)] by simp
qed

subsection \<open>Launching\<close>

lemma acc_launch:
  assumes W: "W P" "attended W exits (ev_drain env)" and i: "sinv [port] s" and acc: "acc (set (live s)) s"
    and none: "map_of (sd_instances s) resolved = None"
    and l: "launch_instance P env resolved mc port s = (r, t)"
  shows "acc (case r of Inl _ \<Rightarrow> set (live s) | Inr _ \<Rightarrow> insert (length (sd_store s)) (set (live s))) t"
proof -
  let ?a = "length (sd_store s)"
  let ?s0 = "s\<lparr>sd_store := sd_store s @ [new_instance P resolved mc port]\<rparr>"
  let ?L = "set (live s)"
  have 0: "acc ?L ?s0" "inst_at ?s0 ?a = new_instance P resolved mc port"
    using acc world_new[OF W(1)] by (auto simp: accounted_def inst_at_def nth_append new_instance_def less_Suc_eq)
  obtain e1 s1 where ap: "apply_power P mc ?s0 = (e1, s1)" by fastforce
  obtain e2 s2 where st: "start_mgr P resolved ?a s1 = (e2, s2)" by fastforce
  obtain e3 s3 where vf: "verify_mgr P resolved ?a s2 = (e3, s3)" by fastforce
  have store1: "sd_store s1 = sd_store ?s0" using ap by (auto simp: apply_power_def split: option.splits prod.splits)
  then obtain m1 where m1: "si_mgr (inst_at s1 ?a) = Some m1" by (simp add: inst_at_def new_instance_def)
  have a1: "acc ?L s1" using accounted_same[OF 0(1) same_procs_store[OF store1]] .
  have a2: "acc (if e2 = None then insert ?a ?L else ?L) s2" by (rule acc_start[OF W(1) a1 m1 st])
  obtain m2 where m2: "si_mgr (inst_at s2 ?a) = Some m2"
    using st store1 by (auto simp: start_mgr_def upd_inst_def inst_at_def split: prod.splits)
  have a3: "acc (insert ?a ?L) s3" if "e2 = None" using acc_verify[OF W(1) _ m2 vf] a2 that by simp
  have a4: "acc ?L (stop_mgr P ?a s3)" if "e2 = None"
    using accounted_mono[OF acc_stop[OF W(1) a3[OF that]], of ?a ?L] by blast
  have undo: "acc Y (release_port port u)" "acc Y (revert_power P gs (release_port port u))" if "acc Y u" for Y u gs
    using accounted_same[OF that same_procs_ops(4)[OF same_procs_refl]]
      accounted_same[OF that same_procs_ops(2)[OF same_procs_ops(4)[OF same_procs_refl]]] by simp_all
  show ?thesis
  proof (cases "e1 = None \<and> e2 = None \<and> e3 = None")
    case False
    then consider "e1 \<noteq> None" | "e1 = None" "e2 \<noteq> None" | "e1 = None" "e2 = None" "e3 \<noteq> None" by metis
    then show ?thesis
    proof cases
      case 1
      then obtain e where "r = Inl e" "t = release_port port s1"
        using l by (auto simp: launch_instance_def Let_def ap)
      with undo(1)[OF a1] show ?thesis by simp
    next
      case 2
      then obtain e where "r = Inl e" "t = revert_power P (mc_gpus mc) (release_port port s2)"
        using l by (auto simp: launch_instance_def Let_def ap
          st)
      with undo(2)[OF a2] 2 show ?thesis by simp
    next
      case 3
      then obtain e where "r = Inl e" "t = revert_power P (mc_gpus mc) (release_port port (stop_mgr P ?a s3))"
        using l by (auto simp: launch_instance_def Let_def ap
          st vf)
      with undo(2)[OF a4] 3 show ?thesis by simp
    qed
  next
    case True
    let ?s4 = "snd (publish (ev_now_ready env) resolved ?a s3)"
    have none3: "map_of (sd_instances s3) resolved = None"
      using none ap st vf frame_calls(3)[of ?s0 P mc] frame_calls(1)[of s1 P resolved ?a] frame_calls(2)[of s2 P resolved ?a]
      by (simp add: frame_def)
    have "fst (publish (ev_now_ready env) resolved ?a s3) = None" by (rule publish_fields(1)[OF none3])
    then have t: "r = Inr (fst (routeForInstance P ?a (mc_path mc) ?s4))" "t = snd (routeForInstance P ?a (mc_path mc) ?s4)"
      using l True by (simp_all add: launch_instance_def Let_def ap st vf split_beta retire_old_def)
    have "acc (insert ?a ?L) t" unfolding t(2)
      by (rule accounted_same[OF a3]) (use True same_procs_route[OF same_procs_publish] in auto)
    with t(1) show ?thesis by simp
  qed
qed

subsection \<open>Whole operations\<close>

text \<open>Every process belongs to an instance in the map, or its \<open>Stop\<close> failed.\<close>

abbreviation owned :: "'m scheduler \<Rightarrow> bool" where
  "owned s \<equiv> acc (set (live s)) s"

lemma owned_same: "\<lbrakk>owned s; same_procs s t; live t = live s\<rbrakk> \<Longrightarrow> owned t"
  using accounted_same by metis

lemma owned_launch:
  assumes W: "W P" "attended W exits (ev_drain env)" and i: "sinv [port] s" and o: "owned s"
    and mc: "map_of (Models (sd_cfg s)) resolved = Some mc" "mc_gpus mc \<noteq> []"
    and none: "map_of (sd_instances s) resolved = None"
    and free: "\<not> still_conflicts (mc_gpus mc) s" and room: "room s"
    and l: "launch_instance P env resolved mc port s = (r, t)"
  shows "owned t"
  using launch_inv[OF attended_quiet[OF W(2)] i mc none free room l] acc_launch[OF W i o none l]
  by (auto simp: evicts_def intro: accounted_mono)

lemma owned_schedule:
  assumes W: "W P" "attended W exits (ev_drain env)" and i: "sched_inv s" and o: "owned s"
    and mc: "map_of (Models (sd_cfg s)) resolved = Some mc"
    and e: "schedule_instance P env resolved mc s = (r, t)"
  shows "owned t"
proof -
  note q = attended_quiet[OF W(2)]
  obtain er s1 where er: "evictConflicts P (ev_drain env) (ev_now_evict env) (mc_gpus mc) s = (er, s1)" by fastforce
  have o1: "owned s1" by (rule acc_evict[OF W i o er])
  note ev1 = evictConflicts_evicts[OF q i er]
  have vram: "owned s2 \<and> frame s1 s2" if "ensureFreeVRAM (ev_list_free env) (mc_gpus mc) k s1 = (ef, s2)" for k ef s2
    using owned_same[OF o1 same_procs_calls(6)[of s1 "ev_list_free env" "mc_gpus mc" k]]
      frame_vram[of s1 "ev_list_free env" "mc_gpus mc" k] that by (simp add: frame_live)
  have launch: "owned t"
    if c: "SchedulerCfg (sd_cfg s) = Some sc" "mc_gpus mc \<noteq> []" "\<not> at_capacity resolved sc s" "er = None"
      and v: "ensureFreeVRAM (ev_list_free env) (mc_gpus mc) k s1 = (None, s2)"
      and a: "Acquire (sd_ports s2) = ((port, True), pool)"
      and l: "launch_instance P env resolved mc port (s2\<lparr>sd_ports := pool\<rparr>) = (r, t)"
    for sc k s2 port pool
  proof -
    let ?s3 = "s2\<lparr>sd_ports := pool\<rparr>"
    have f2: "frame s1 s2" and o2: "owned s2" using vram[OF v] by simp_all
    note ev2 = evicts_frame[OF ev1(1) f2]
    have i2: "sched_inv s2" and cfg2: "sd_cfg s2 = sd_cfg s" using ev2 by (auto simp: evicts_def)
    have free2: "\<not> still_conflicts (mc_gpus mc) s2"
      using ev1 c(4) frame_still[OF f2, of "[]"] by (auto simp: evicts_def)
    have none: "map_of (sd_instances s2) resolved = None"
      using evicted_own[OF i2 free2 _ c(2)] mc by (simp add: cfg2)
    have "room s2" by (rule room_after_eviction[OF ev2 i c(1,3) none])
    moreover have "owned ?s3" by (rule owned_same[OF o2 same_procs_store]) (simp_all add: live_def)
    ultimately show ?thesis
      using owned_launch[OF W sinv_acquire[OF i2 a] _ _ c(2) _ _ _ l] mc free2 none
      by (simp add: cfg2 still_conflicts_def live_def inst_at_def room_def)
  qed
  have stays: "owned (emit x u)" if "owned u" for x u using that by (rule accounted_emit)
  have ports: "owned (u\<lparr>sd_ports := pool\<rparr>)" if "owned u" for u pool
    by (rule owned_same[OF that same_procs_store]) (simp_all add: live_def)
  show ?thesis
    using e o o1 vram launch stays[OF o] stays[OF ports]
    unfolding schedule_instance_def er
    by (auto split: option.splits if_splits prod.splits)
qed

lemma owned_try: "owned s \<Longrightarrow> owned (snd (tryRouteReady P now n u s))"
  by (rule owned_same[OF _ same_procs_calls(2)]) (simp_all add: frame_live[OF frame_try_route])

lemma owned_busy: "owned s \<Longrightarrow> owned (s\<lparr>sd_busy := b\<rparr>)"
  by (rule owned_same[OF _ same_procs_store]) (simp_all add: live_def)

lemma owned_with_permit:
  assumes W: "W P" "attended W exits (ev_drain env)" and i: "sched_inv s" and o: "owned s"
    and mc: "map_of (Models (sd_cfg s)) resolved = Some mc"
    and e: "with_permit P env resolved mc s = (r, t)"
  shows "owned t"
proof -
  obtain r1 s1 where r1: "tryRouteReady P (ev_now_retry env) resolved (mc_path mc) s = (r1, s1)" by fastforce
  have f: "frame s s1" using frame_try_route[of s P "ev_now_retry env" resolved "mc_path mc"] r1 by simp
  have o1: "owned s1" using owned_try[OF o, of P "ev_now_retry env" resolved "mc_path mc"] r1 by simp
  have mc1: "map_of (Models (sd_cfg s1)) resolved = Some mc" using mc f by (simp add: frame_def)
  obtain r2 s2 where r2: "schedule_instance P env resolved mc s1 = (r2, s2)" by fastforce
  have "owned s2" by (rule owned_schedule[OF W sinv_frame[OF i f] o1 mc1 r2])
  with e owned_busy o1 show ?thesis by (auto simp: with_permit_def r1 r2 split: option.splits)
qed

lemma owned_request:
  assumes W: "W P" "attended W exits (ev_drain env)" and i: "sched_inv s" and o: "owned s"
    and b: "\<not> sd_busy s" and e: "AcquireRoute P env n s = (r, t)"
  shows "owned t"
proof (cases rule: AcquireRoute_with_permit[OF b e])
  case (1 e)
  with o show ?thesis by simp
next
  case (2 resolved up rt)
  with owned_try[OF o, of P "ev_now_try env" resolved up] show ?thesis by simp
next
  case (3 resolved mc s1)
  have f: "frame s s1" using frame_try_route[of s P "ev_now_try env" resolved "mc_path mc"] 3(2) by simp
  have o1: "owned s1" using owned_try[OF o, of P "ev_now_try env" resolved "mc_path mc"] 3(2) by simp
  have "map_of (Models (sd_cfg (s1\<lparr>sd_busy := True\<rparr>))) resolved = Some mc"
    using resolved_model[OF 3(1)] f by (simp add: frame_def)
  from owned_with_permit[OF W sinv_frame[OF i frame_field(4)[OF f]] owned_busy[OF o1] this 3(3)] show ?thesis .
qed

lemma owned_stop:
  assumes W: "W P" "attended W exits drain" and i: "sched_inv s" and o: "owned s"
  shows "owned (StopAll P drain s)"
proof -
  have "owned (fold (drainAndStopInstance P drain False) as u)"
    if "sched_inv u" "owned u" "distinct as" "set as \<subseteq> set (live u)" for as u
    using that
  proof (induction as arbitrary: u)
    case (Cons a as)
    let ?u = "drainAndStopInstance P drain False a u"
    have a: "a \<in> set (live u)" using Cons.prems by simp
    note d = drain_stop(1,2)[OF attended_quiet[OF W(2)] Cons.prems(1) a, of P False]
    have "set as \<subseteq> set (live ?u)" using Cons.prems live_distinct[OF Cons.prems(1)] by (auto simp: d(2))
    with Cons.IH[OF d(1) acc_drain_stop_live[OF W Cons.prems(1) a Cons.prems(2)]] Cons.prems show ?case by simp
  qed simp
  moreover have "sched_inv (s\<lparr>sd_busy := True\<rparr>)" by (rule sinv_frame[OF i]) (intro frame_steps frame_refl)
  moreover have "live (s\<lparr>sd_busy := True\<rparr>) = live s" by (simp add: live_def)
  ultimately have "owned (fold (drainAndStopInstance P drain False) (live s) (s\<lparr>sd_busy := True\<rparr>))"
    using owned_busy[OF o, of True] live_distinct[OF i] by simp
  then show ?thesis using owned_busy by (simp add: StopAll_def Let_def)
qed

lemma owned_others: "(others W exits)\<^sup>*\<^sup>* s t \<Longrightarrow> sched_inv s \<Longrightarrow> owned s \<Longrightarrow> owned t"
proof (induction rule: rtranclp_induct)
  case (step t u)
  have i: "sched_inv t" using others_inv[OF step(1,4)] by simp
  have o: "owned t" by (rule step(3)[OF step(4,5)])
  from step(2) consider "bystander W exits t u" | P drain where "W P" "attended W exits drain" "u = StopAll P drain t"
    unfolding others_def by blast
  then show ?case
  proof cases
    case 1
    have "live u = live t" using bystander_frame[OF 1] by (simp add: frame_live)
    with acc_bystander[OF 1] o show ?thesis by simp
  next
    case 2
    with owned_stop[OF 2(1,2) i o] show ?thesis by simp
  qed
qed simp

lemma owned_run:
  assumes "srun W exits s0 s" "sched_inv s0" "\<not> sd_busy s0" "owned s0"
  shows "owned s"
  using assms
proof (induction rule: srun.induct)
  case (other s t)
  have "live t = live s" using bystander_frame[OF other(2)] by (simp add: frame_live)
  with acc_bystander[OF other(2)] other show ?case by simp
next
  case (request s P env n r t)
  have "sched_inv s" using srun_inv[OF request(1)] request by blast
  from owned_request[OF request(3,4) this _ request(2,5)] request show ?case by simp
next
  case (resumed s P env n resolved mc s1 s2 r t)
  have i: "sched_inv s" using srun_inv[OF resumed(1)] resumed by blast
  have f: "frame s s1" by (rule gets_permit_frame[OF resumed(6)])
  have "same_procs s s1" using resumed(6) same_procs_calls(3,4)[of s] by (metis gets_permit_def snd_conv)
  with owned_same[OF _ _ frame_live[OF f]] resumed have "owned s1" by simp
  with owned_others[OF resumed(7) sinv_frame[OF i f]] have o: "owned s2" by simp
  note i2 = held_inv[OF i resumed(6,7)]
  from i2(2) have "map_of (Models (sd_cfg s2)) resolved = Some mc" using resolved_model[OF resumed(5)] by simp
  from owned_with_permit[OF resumed(3,4) i2(1) o this resumed(8)] show ?case .
next
  case (stop s P drain)
  have "sched_inv s" using srun_inv[OF stop(1)] stop by blast
  from owned_stop[OF stop(3,4) this] stop show ?case by simp
qed simp

end

section \<open>The address of a route\<close>

definition routed_to :: "'m params \<Rightarrow> route \<Rightarrow> 'm scheduler \<Rightarrow> bool" where
  "routed_to P rt t \<longleftrightarrow> (\<exists>a. rt_instance rt = Some a \<and> rt_base_url rt = op_url (pm_ops P) (the (si_mgr (inst_at t a))))"

lemma route_routed_to: "routed_to P (fst (routeForInstance P a u s)) (snd (routeForInstance P a u s))"
  by (cases "a < length (sd_store s)")
     (simp_all add: routed_to_def routeForInstance_def Let_def split_beta emit_def upd_inst_def inst_at_def list_update_beyond)

lemma try_routed_to: "tryRouteReady P now n u s = (Some rt, t) \<Longrightarrow> routed_to P rt t"
  using route_routed_to by (fastforce simp: tryRouteReady_def Let_def split_beta split: option.splits if_splits)

lemma launch_routed_to: "launch_instance P env n mc port s = (Inr rt, t) \<Longrightarrow> routed_to P rt t"
  using route_routed_to
  by (fastforce simp: launch_instance_def Let_def split_beta split: option.splits prod.splits)

lemma schedule_routed_to: "schedule_instance P env n mc s = (Inr rt, t) \<Longrightarrow> routed_to P rt t"
  by (auto simp: schedule_instance_def split: option.splits if_splits prod.splits dest: launch_routed_to)

lemma AcquireRoute_routed_to: "AcquireRoute P env n s = (Inr rt, t) \<Longrightarrow> routed_to P rt t"
proof -
  have b: "routed_to P rt (u\<lparr>sd_busy := b\<rparr>) = routed_to P rt u" for u b by (simp add: routed_to_def inst_at_def)
  show "AcquireRoute P env n s = (Inr rt, t) \<Longrightarrow> routed_to P rt t"
    by (auto simp: AcquireRoute_def b split: sum.splits option.splits prod.splits dest: try_routed_to schedule_routed_to)
qed

lemma route_done_mgr: "si_mgr (inst_at (route_done b s) a) = si_mgr (inst_at s a)"
  by (cases "b < length (sd_store s)")
     (simp_all add: route_done_def Let_def split_beta emit_def upd_inst_def inst_at_def nth_list_update list_update_beyond)

section \<open>The process managers are supervised\<close>

text \<open>
  A process ends on its own; later its waiting goroutine tells the manager. The factory of
  \<open>NewSchedulerWithFactory\<close> makes managers without a process, and process ids are positive.
\<close>

definition proc_exit :: "proc \<Rightarrow> proc \<Rightarrow> bool" where
  "proc_exit p q \<longleftrightarrow>
     q = p\<lparr>pr_alive := False\<rparr> \<or>
     \<not> pr_alive p \<and> (\<exists>cid rt err. q = p\<lparr>pr_mgr := reap cid rt err (pr_mgr p)\<rparr>)"

definition proc_world :: "config \<Rightarrow> proc params \<Rightarrow> bool" where
  "proc_world c P \<longleftrightarrow>
     pm_ops P = proc_ops c \<and>
     (\<forall>port gpus. \<exists>starts stops verifies.
        pm_new P port gpus = vllm_factory starts stops verifies port gpus \<and>
        (\<forall>env \<in> set starts. \<forall>pid. se_pid env = Some pid \<longrightarrow> 0 < pid))"

lemma vllm_factory_new:
  "\<forall>env \<in> set starts. \<forall>pid. se_pid env = Some pid \<longrightarrow> 0 < pid \<Longrightarrow>
   proc_inv (vllm_factory starts stops verifies port gpus) \<and> \<not> pr_alive (vllm_factory starts stops verifies port gpus) \<and>
   op_url (proc_ops c) (vllm_factory starts stops verifies port gpus) = ''http://127.0.0.1:'' @ itoa port"
  by (simp add: vllm_factory_def proc_inv_def proc_ops_def BaseURL_def NewInstanceManager_def)

interpretation proc_supervisor: supervisor "proc_ops c" pr_alive proc_inv "proc_world c" proc_exit
  "\<lambda>port. ''http://127.0.0.1:'' @ itoa port" for c
proof unfold_locales
  fix P port gpus assume w: "proc_world c P"
  then show "pm_ops P = proc_ops c" by (simp add: proc_world_def)
  from w obtain starts stops verifies where "pm_new P port gpus = vllm_factory starts stops verifies port gpus"
    "\<forall>env \<in> set starts. \<forall>pid. se_pid env = Some pid \<longrightarrow> 0 < pid"
    unfolding proc_world_def by blast
  then show "proc_inv (pm_new P port gpus) \<and> \<not> pr_alive (pm_new P port gpus) \<and>
      op_url (proc_ops c) (pm_new P port gpus) = ''http://127.0.0.1:'' @ itoa port" using vllm_factory_new by simp
next
  fix p q assume "proc_exit p q" "proc_inv p"
  then show "proc_inv q \<and> (pr_alive q \<longrightarrow> pr_alive p) \<and> op_url (proc_ops c) q = op_url (proc_ops c) p"
    by (auto simp: proc_exit_def proc_inv_def proc_ops_def BaseURL_def)
qed

text \<open>The process of an instance exists.\<close>

definition running :: "proc scheduler \<Rightarrow> nat \<Rightarrow> bool" where
  "running s a \<longleftrightarrow> a < length (sd_store s) \<and> (case si_mgr (inst_at s a) of None \<Rightarrow> False | Some p \<Rightarrow> pr_alive p)"

lemma running_live:
  assumes "srun (proc_world c) proc_exit s0 s" "sched_inv s0" "\<not> sd_busy s0" "sd_store s0 = []"
    and "running s a" "si_stop_err (inst_at s a) = None"
  shows "a \<in> set (live s)"
proof -
  have "proc_supervisor.owned c s0" using assms(4) by (simp add: accounted_def)
  from proc_supervisor.owned_run[OF assms(1-3) this] assms(5,6) show ?thesis
    by (auto simp: accounted_def running_def split: option.splits)
qed

text \<open>The address of an instance's backend is that of its port.\<close>

lemma instance_address:
  assumes "srun (proc_world c) proc_exit s0 s" "sched_inv s0" "\<not> sd_busy s0" "sd_store s0 = []"
    and "a < length (sd_store s)"
  shows "op_url (proc_ops c) (the (si_mgr (inst_at s a))) = ''http://127.0.0.1:'' @ itoa (si_port (inst_at s a))"
proof -
  have "proc_supervisor.owned c s0" using assms(4) by (simp add: accounted_def)
  from proc_supervisor.owned_run[OF assms(1-3) this] assms(5) show ?thesis by (auto simp: accounted_def)
qed

end
