(* ===== verification/Scheduler_Progress.thy ===== *)
theory Scheduler_Progress
  imports Scheduler_System
begin

text \<open>
  When scheduling succeeds: a request whose model can be scheduled is served. The instances in the
  way must be evictable, a port must be free, the GPUs must exist and have room, and the backend must
  start and become ready; then nothing else can make the request fail.
\<close>

section \<open>Draining keeps the ages and the port range\<close>

definition ages :: "'m scheduler \<Rightarrow> gotime list" where
  "ages s = map si_started_at (sd_store s)"

lemma ages_upd [simp]: "(\<And>i. si_started_at (f i) = si_started_at i) \<Longrightarrow> ages (upd_inst a f s) = ages s"
  by (cases "a < length (sd_store s)")
     (simp_all add: ages_def upd_inst_def map_update list_update_same_conv list_update_beyond)

lemma ages_fields [simp]:
  "ages (emit e s) = ages s" "ages (s\<lparr>sd_total := x\<rparr>) = ages s" "ages (s\<lparr>sd_busy := b\<rparr>) = ages s"
  "ages (s\<lparr>sd_waiters := v\<rparr>) = ages s" "ages (s\<lparr>sd_power := w\<rparr>) = ages s"
  "ages (forget_instance b a s) = ages s" "ages (revert_power P gs s) = ages s"
  by (simp_all add: ages_def emit_def forget_fields revert_power_def)

lemma ages_ops [simp]:
  "ages (mark_draining a s) = ages s" "ages (stop_mgr P a s) = ages s" "ages (route_done a s) = ages s"
  "ages (snd (routeForInstance P a u s)) = ages s" "ages (snd (tryRouteReady P now n u s)) = ages s"
  "ages (snd (permit_try m s)) = ages s" "ages (snd (permit_settle m w s)) = ages s"
  by (simp_all add: mark_draining_def stop_mgr_def route_done_def routeForInstance_def tryRouteReady_def permit_try_def
        permit_settle_def Let_def split_beta split: option.split wait_outcome.split)

lemma bystander_ages: "bystander W exits s t \<Longrightarrow> ages t = ages s"
proof (induction rule: bystander.induct)
  case (routed P now n up s r t)
  then show ?case using ages_ops(5)[of P now n up s] by simp
next
  case (turned_away s n r t)
  then show ?case using ages_ops(6)[of n s] by simp
next
  case (gave_up w n s r t)
  then show ?case using ages_ops(7)[of n w s] by simp
qed simp_all

lemma drain_ages: "attended W exits drain \<Longrightarrow> ages (wait_drain drain a s) = ages s"
proof -
  assume "attended W exits drain"
  then have "(bystander W exits)\<^sup>*\<^sup>* s (drain a s)" by (simp add: attended_def)
  then have "ages (drain a s) = ages s" by (induction rule: rtranclp_induct) (simp_all add: bystander_ages)
  then show ?thesis by (simp add: wait_drain_def)
qed

lemma drain_stop_ages: "attended W exits drain \<Longrightarrow> ages (drainAndStopInstance P drain e a s) = ages s"
  by (simp add: drainAndStopInstance_def stop_instance_def Let_def drain_ages)

lemma ages_started: "\<lbrakk>ages t = ages s; a < length (sd_store s)\<rbrakk> \<Longrightarrow> si_started_at (inst_at t a) = si_started_at (inst_at s a)"
proof -
  assume a: "ages t = ages s" "a < length (sd_store s)"
  then have "length (sd_store t) = length (sd_store s)" by (metis ages_def length_map)
  with a show ?thesis by (auto simp: ages_def inst_at_def list_eq_iff_nth_eq)
qed

lemma frame_range: "frame s t \<Longrightarrow> sd_ports t = sd_ports s"
  by (simp add: frame_def)

lemma drain_stop_range:
  assumes "quiet drain" "sinv ls s"
  shows "pool_range (sd_ports (drainAndStopInstance P drain e a s)) = pool_range (sd_ports s)"
proof -
  let ?u = "stop_instance P drain a (mark_draining a s)"
  have f: "frame s ?u" using assms(1) by (intro frame_stop_instance frame_steps frame_refl)
  have "pool_inv (sd_ports s)" using pool_source.leases_inv[OF sinv_leases[OF assms(2)]] .
  then have "pool_range (Release q (sd_ports ?u)) = pool_range (sd_ports s)" for q
    using pool_source.release_held frame_range[OF f] by simp
  moreover have "pool_range (sd_ports ?u) = pool_range (sd_ports s)" using frame_range[OF f] by simp
  ultimately show ?thesis
    by (simp add: drainAndStopInstance_def forget_instance_def zero_gauges_def release_port_def emit_def Let_def)
qed

section \<open>Eviction succeeds\<close>

definition old_enough :: "gotime \<Rightarrow> duration \<Rightarrow> 'm sched_inst \<Rightarrow> bool" where
  "old_enough now m i \<longleftrightarrow> is_zero_time (si_started_at i) \<or> \<not> time_sub now (si_started_at i) < m"

lemma evict_loop_clears:
  "\<lbrakk>attended W exits drain; sinv ls s; distinct as; set as \<subseteq> set (live s);
    \<forall>b \<in> set (live s). overlaps (si_gpus (inst_at s b)) target \<longrightarrow> b \<in> set as;
    \<forall>b \<in> set as. old_enough now m (inst_at s b); evict_loop P drain now m target as s = (r, t)\<rbrakk> \<Longrightarrow>
   r = None \<and> pool_range (sd_ports t) = pool_range (sd_ports s)"
proof (induction P drain now m target as s arbitrary: r t rule: evict_loop.induct)
  case (1 P drain now m target s)
  then have "\<not> still_conflicts target s" by (auto simp: still_conflicts_def list_ex_iff)
  with 1 show ?case by simp
next
  case (2 P drain now m target a as s)
  let ?s' = "drainAndStopInstance P drain True a s"
  note IH = "2.IH"[OF refl refl]
  have a: "a \<in> set (live s)" and old: "old_enough now m (inst_at s a)" using "2.prems"(4,6) by simp_all
  note q = attended_quiet[OF "2.prems"(1)]
  note d = drain_stop[OF q "2.prems"(2) a, where P = P and e = True]
  show ?case
  proof (cases "overlaps (si_gpus (inst_at s a)) target")
    case False
    then have "\<forall>b \<in> set (live s). overlaps (si_gpus (inst_at s b)) target \<longrightarrow> b \<in> set as" using "2.prems"(5) by auto
    with IH(1)[OF False "2.prems"(1,2), of r t] "2.prems" False show ?thesis by simp
  next
    case True
    have young: "\<not> (\<not> is_zero_time (si_started_at (inst_at s a)) \<and> time_sub now (si_started_at (inst_at s a)) < m)"
      using old by (auto simp: old_enough_def)
    have range: "pool_range (sd_ports ?s') = pool_range (sd_ports s)" by (rule drain_stop_range[OF q "2.prems"(2)])
    show ?thesis
    proof (cases "still_conflicts target ?s'")
      case False
      with "2.prems"(7) True young range show ?thesis by (auto simp: Let_def)
    next
      case conf: True
      have live: "set (live ?s') = set (live s) - {a}" using live_distinct[OF "2.prems"(2)] by (simp add: d(2))
      have same: "si_gpus (inst_at ?s' b) = si_gpus (inst_at s b)" "old_enough now m (inst_at ?s' b) = old_enough now m (inst_at s b)"
        if "b \<in> set (live s)" for b
        using d(3)[OF live_lt[OF "2.prems"(2) that]] ages_started[OF drain_stop_ages[OF "2.prems"(1)] live_lt[OF "2.prems"(2) that]]
        by (simp_all add: skel_def old_enough_def)
      have 1: "set as \<subseteq> set (live ?s')" "distinct as" using "2.prems"(3,4) by (auto simp: live)
      have 2: "\<forall>b \<in> set (live ?s'). overlaps (si_gpus (inst_at ?s' b)) target \<longrightarrow> b \<in> set as"
        using "2.prems"(5) same(1) by (auto simp: live)
      have 3: "\<forall>b \<in> set as. old_enough now m (inst_at ?s' b)" using "2.prems"(4,6) same(2) by auto
      have "evict_loop P drain now m target as ?s' = (r, t)"
        using "2.prems"(7) True young conf by (auto simp: Let_def)
      with IH(2)[OF _ young refl _ "2.prems"(1) d(1) 1(2,1) 2 3] True conf range show ?thesis by simp
    qed
  qed
qed

lemma evictConflicts_clears:
  assumes "attended W exits drain" "sinv ls s" "evictConflicts P drain now target s = (r, t)"
    and "\<forall>b \<in> set (live s). overlaps (si_gpus (inst_at s b)) target \<longrightarrow>
           \<not> si_pinned (inst_at s b) \<and> old_enough now (min_instance_uptime (sd_cfg s)) (inst_at s b)"
  shows "r = None" "pool_range (sd_ports t) = pool_range (sd_ports s)"
proof -
  let ?as = "sort_key (\<lambda>a. si_last_used_at (inst_at s a)) (conflicts_of target s)"
  have "find (\<lambda>a. si_pinned (inst_at s a)) (conflicts_of target s) = None"
    using assms(4) by (auto simp: find_None_iff conflicts_of_def)
  then have e: "evict_loop P drain now (min_instance_uptime (sd_cfg s)) target ?as s = (r, t)"
    using assms(3) by (simp add: evictConflicts_def)
  have "distinct ?as" "set ?as \<subseteq> set (live s)"
    "\<forall>b \<in> set (live s). overlaps (si_gpus (inst_at s b)) target \<longrightarrow> b \<in> set ?as"
    "\<forall>b \<in> set ?as. old_enough now (min_instance_uptime (sd_cfg s)) (inst_at s b)"
    using live_distinct[OF assms(2)] assms(4) by (auto simp: conflicts_of_def)
  from evict_loop_clears[OF assms(1,2) this e] show "r = None" "pool_range (sd_ports t) = pool_range (sd_ports s)"
    by simp_all
qed

text \<open>The inventory is never taken away.\<close>

lemma inventory_kept:
  "sd_has_inventory (emit e s) = sd_has_inventory s" "sd_has_inventory (upd_inst a f s) = sd_has_inventory s"
  "sd_has_inventory (stop_mgr P a s) = sd_has_inventory s" "sd_has_inventory (revert_power P gs s) = sd_has_inventory s"
  "sd_has_inventory (route_done a s) = sd_has_inventory s"
  "sd_has_inventory (snd (tryRouteReady P now n u s)) = sd_has_inventory s"
  "sd_has_inventory (snd (permit_try m s)) = sd_has_inventory s"
  "sd_has_inventory (snd (permit_settle m w s)) = sd_has_inventory s"
  by (simp_all add: emit_def upd_inst_def stop_mgr_def revert_power_def route_done_def tryRouteReady_def permit_try_def
        permit_settle_def routeForInstance_def Let_def split_beta split: option.split wait_outcome.split)

lemma bystander_inventory: "bystander W exits s t \<Longrightarrow> sd_has_inventory t = sd_has_inventory s"
proof (induction rule: bystander.induct)
  case (routed P now n up s r t)
  then show ?case using inventory_kept(6)[of P now n up s] by simp
next
  case (turned_away s n r t)
  then show ?case using inventory_kept(7)[of n s] by simp
next
  case (gave_up w n s r t)
  then show ?case using inventory_kept(8)[of n w s] by simp
qed (simp_all add: inventory_kept)

lemma drain_stop_inventory:
  assumes "attended W exits drain"
  shows "sd_has_inventory (drainAndStopInstance P drain e a s) = sd_has_inventory s"
proof -
  have "sd_has_inventory (drain a u) = sd_has_inventory u" for u
  proof -
    have "(bystander W exits)\<^sup>*\<^sup>* u (drain a u)" using assms by (simp add: attended_def)
    then show ?thesis by (induction rule: rtranclp_induct) (simp_all add: bystander_inventory)
  qed
  then show ?thesis
    by (simp add: drainAndStopInstance_def stop_instance_def Let_def forget_fields inventory_kept wait_drain_def mark_draining_def)
qed

lemma evict_inventory:
  assumes "attended W exits drain"
  shows "sd_has_inventory (snd (evictConflicts P drain now target s)) = sd_has_inventory s"
proof -
  have "sd_has_inventory (snd (evict_loop P drain now m target as s)) = sd_has_inventory s" for m as s
    using assms
    by (induction P drain now m target as s rule: evict_loop.induct)
       (simp_all add: Let_def drain_stop_inventory inventory_kept)
  then show ?thesis by (simp add: evictConflicts_def Let_def inventory_kept split: option.split)
qed

section \<open>Launching succeeds\<close>

definition limits_apply :: "'m params \<Rightarrow> model_config \<Rightarrow> bool" where
  "limits_apply P mc \<longleftrightarrow>
     (\<forall>w. fst (ApplyModelLimits (pm_smi_ok P) (mc_gpus mc) (mc_power_limit mc) (mc_power_limits mc) w) = None)"

definition comes_up :: "'m params \<Rightarrow> string \<Rightarrow> 'm \<Rightarrow> bool" where
  "comes_up P n m \<longleftrightarrow>
     (case op_start (pm_ops P) n m of
        (Inl e, m1) \<Rightarrow> False | (Inr pid, m1) \<Rightarrow> fst (op_verify (pm_ops P) n m1) = None)"

lemma launch_succeeds:
  assumes "limits_apply P mc" "comes_up P n (pm_new P port (joinInts (mc_gpus mc)))"
  shows "\<exists>rt t. launch_instance P env n mc port s = (Inr rt, t)"
proof -
  let ?a = "length (sd_store s)"
  let ?s0 = "s\<lparr>sd_store := sd_store s @ [new_instance P n mc port]\<rparr>"
  obtain e1 s1 where ap: "apply_power P mc ?s0 = (e1, s1)" by fastforce
  have e1: "e1 = None" "sd_store s1 = sd_store ?s0"
    using ap assms(1) by (auto simp: apply_power_def limits_apply_def split: option.splits prod.splits) (metis fst_conv)
  have mgr: "si_mgr (inst_at s1 ?a) = Some (pm_new P port (joinInts (mc_gpus mc)))"
    by (simp add: inst_at_def e1(2) new_instance_def)
  obtain e2 s2 where st: "start_mgr P n ?a s1 = (e2, s2)" by fastforce
  obtain e3 s3 where vf: "verify_mgr P n ?a s2 = (e3, s3)" by fastforce
  have "e2 = None \<and> e3 = None"
    using st vf assms(2) mgr e1(2)
    by (auto simp: start_mgr_def verify_mgr_def comes_up_def upd_inst_def inst_at_def split: prod.splits sum.splits)
  with ap e1(1) st vf show ?thesis by (auto simp: launch_instance_def Let_def split: prod.split)
qed

section \<open>A request that can be scheduled\<close>

text \<open>What the caller of \<open>schedule_instance\<close> needs; the uptime is measured when the eviction starts.\<close>

definition schedulable :: "'m params \<Rightarrow> 'm sched_env \<Rightarrow> string \<Rightarrow> model_config \<Rightarrow> 'm scheduler \<Rightarrow> bool" where
  "schedulable P env resolved mc s \<longleftrightarrow>
     sd_has_inventory s \<and> mc_gpus mc \<noteq> [] \<and>
     (\<exists>sc. SchedulerCfg (sd_cfg s) = Some sc \<and> \<not> at_capacity resolved sc s) \<and>
     (\<exists>gs. ev_list_exist env = Inr gs \<and> set (mc_gpus mc) \<subseteq> g_index ` set gs) \<and>
     (\<exists>k gs. mc_min_free_mem mc = Some k \<and> ev_list_free env = Inr gs \<and> (\<forall>i \<in> set (mc_gpus mc). check_vram gs k i = None)) \<and>
     (\<forall>b \<in> set (live s). overlaps (si_gpus (inst_at s b)) (mc_gpus mc) \<longrightarrow>
        \<not> si_pinned (inst_at s b) \<and> old_enough (ev_now_evict env) (min_instance_uptime (sd_cfg s)) (inst_at s b)) \<and>
     \<not> pool_range (sd_ports s) \<subseteq> set (port_list s) \<and>
     limits_apply P mc \<and> (\<forall>port. comes_up P resolved (pm_new P port (joinInts (mc_gpus mc))))"

lemma port_after_eviction:
  assumes e: "evicts [] K s t" and i: "sched_inv s" and r: "pool_range (sd_ports t) = pool_range (sd_ports s)"
    and free: "\<not> pool_range (sd_ports s) \<subseteq> set (port_list s)"
  shows "\<exists>port pool. Acquire (sd_ports t) = ((port, True), pool)"
proof -
  obtain port ok pool where a: "Acquire (sd_ports t) = ((port, ok), pool)" by (metis surj_pair)
  have it: "sched_inv t" using e by (simp add: evicts_def)
  have "set (port_list t) \<subseteq> set (port_list s)"
    using e live_lt[OF i] by (fastforce simp: evicts_def port_list_def skel_def)
  moreover have "set (port_list t) = pool_held (sd_ports t)"
    using sinv_leases[OF it] by (simp add: pool_source.leases_def)
  ultimately have "\<not> pool_range (sd_ports t) \<subseteq> pool_held (sd_ports t)" using r free by auto
  with a pool_source.acquire_none[OF pool_source.leases_inv[OF sinv_leases[OF it]], of port pool]
  show ?thesis by (cases ok) auto
qed

lemma schedule_succeeds:
  assumes d: "attended W exits (ev_drain env)" and i: "sched_inv s" and can: "schedulable P env resolved mc s"
  shows "\<exists>rt t. schedule_instance P env resolved mc s = (Inr rt, t)"
proof -
  note q = attended_quiet[OF d]
  obtain sc k gs gs' where c: "SchedulerCfg (sd_cfg s) = Some sc" "\<not> at_capacity resolved sc s" "mc_min_free_mem mc = Some k"
    "ev_list_exist env = Inr gs" "set (mc_gpus mc) \<subseteq> g_index ` set gs"
    "ev_list_free env = Inr gs'" "\<forall>i \<in> set (mc_gpus mc). check_vram gs' k i = None"
    using can unfolding schedulable_def by blast
  obtain er s1 where er: "evictConflicts P (ev_drain env) (ev_now_evict env) (mc_gpus mc) s = (er, s1)" by fastforce
  have "\<forall>b \<in> set (live s). overlaps (si_gpus (inst_at s b)) (mc_gpus mc) \<longrightarrow>
      \<not> si_pinned (inst_at s b) \<and> old_enough (ev_now_evict env) (min_instance_uptime (sd_cfg s)) (inst_at s b)"
    using can by (simp add: schedulable_def)
  note clear = evictConflicts_clears[OF d i er this]
  note ev = evictConflicts_evicts(1)[OF q i er]
  obtain port pool where p: "Acquire (sd_ports s1) = ((port, True), pool)"
    using port_after_eviction[OF ev i clear(2)] can by (auto simp: schedulable_def)
  have exist: "ensureGPUsExist True (Inr gs) (mc_gpus mc) = None"
    using c(5) by (auto simp: ensureGPUsExist_def go_loop)
  have inv: "sd_has_inventory s1 = sd_has_inventory s" using er evict_inventory[OF d] by (metis snd_conv)
  have room: "ensureFreeVRAM (Inr gs') (mc_gpus mc) k s1 = (None, s1)"
    using c(7) can inv by (simp add: ensureFreeVRAM_def Let_def schedulable_def is_reject_def first_err_None[THEN iffD2])
  obtain rt t where "launch_instance P env resolved mc port (s1\<lparr>sd_ports := pool\<rparr>) = (Inr rt, t)"
    using launch_succeeds can unfolding schedulable_def by blast
  then show ?thesis
    using c exist room er clear(1) p can by (simp add: schedule_instance_def schedulable_def)
qed

lemma schedulable_busy [simp]: "schedulable P env resolved mc (s\<lparr>sd_busy := b\<rparr>) = schedulable P env resolved mc s"
proof -
  have "at_capacity resolved sc (s\<lparr>sd_busy := b\<rparr>) = at_capacity resolved sc s" for sc
    by (simp add: at_capacity_def Let_def split: option.split)
  then show ?thesis by (simp add: schedulable_def live_def inst_at_def port_list_def)
qed

lemma AcquireRoute_succeeds:
  assumes "attended W exits (ev_drain env)" "sched_inv s" "\<not> sd_busy s"
    and n: "ResolveModel (sd_cfg s) n = Inr (resolved, mc)" and can: "schedulable P env resolved mc s"
  shows "\<exists>rt t. AcquireRoute P env n s = (Inr rt, t)"
proof -
  have unrouted: "r = None \<Longrightarrow> u = v" if "tryRouteReady P now m up v = (r, u)" for now m up r u v
    using that by (auto simp: tryRouteReady_def Let_def split_beta split: option.splits if_splits)
  let ?s = "s\<lparr>sd_busy := True\<rparr>"
  have "sched_inv ?s" by (rule sinv_frame[OF assms(2)]) (intro frame_steps frame_refl)
  then obtain rt t where sch: "schedule_instance P env resolved mc ?s = (Inr rt, t)"
    using schedule_succeeds[OF assms(1)] can by fastforce
  have permit: "acquireSchedulingPermitOrReject w resolved s = (None, ?s)" for w
    using assms(3) by (simp add: acquireSchedulingPermitOrReject_def permit_try_def)
  obtain r1 s1 where r1: "tryRouteReady P (ev_now_try env) resolved (mc_path mc) s = (r1, s1)" by fastforce
  obtain r2 s2 where r2: "tryRouteReady P (ev_now_retry env) resolved (mc_path mc) ?s = (r2, s2)" by fastforce
  show ?thesis
    using unrouted[OF r1] unrouted[OF r2] sch permit n
    by (cases r1; cases r2) (auto simp: AcquireRoute_def r1 r2)
qed

end
