(* ===== verification/Startup_Properties.thy ===== *)
theory Startup_Properties
  imports Scheduler_Processes Scheduler_Progress Scheduler_Properties Config_Properties
begin

text \<open>
  The properties of the program from its start: the limits set on the GPUs, the consistency of the
  scheduler in every run, and its stop.
\<close>

section \<open>Power limits at the start\<close>

lemma default_watts:
  "map_of (put_all (map (\<lambda>g. (f g, w)) gs) []) k = (if k \<in> f ` set gs then Some w else None)"
  by (simp add: put_all_rev map_of_same_value)


section \<open>Examples\<close>

text \<open>A cold start of the example: the first request for \<open>a\<close> starts its process.\<close>

definition ex_cold :: proc where
  "ex_cold = pm_new ex_params 9001 ''0''"

lemma ex_cold_start_proc:
  "proc_start ex_config ''a'' ex_cold = (Inr 41, ex_cold\<lparr>pr_mgr := ex_started 0 41 ''a'' (pr_mgr ex_cold), pr_starts := [], pr_alive := True\<rparr>)"
  by (simp add: proc_start_def ex_cold_def ex_params_def vllm_factory_def Start_def ex_launch NewInstanceManager_def)
     (simp add: ex_start_def)

lemma ex_cold_verify:
  "proc_verify ex_config ''a'' (ex_cold\<lparr>pr_mgr := ex_started 0 41 ''a'' (pr_mgr ex_cold), pr_starts := [], pr_alive := True\<rparr>) =
     (None, ex_cold\<lparr>pr_mgr := ex_started 0 41 ''a'' (pr_mgr ex_cold), pr_starts := [], pr_verifies := [], pr_alive := True\<rparr>)"
  by (simp add: proc_verify_def ex_cold_def ex_params_def vllm_factory_def VerifyReady_def ex_ready_def verify_result_def runtime_for_def
      VerifyModelLoaded_def decode_models_page ascii_ok Let_def)

lemma ex_cold_launch:
  assumes "sd_power s = None" "sd_store s = []" "sd_instances s = []"
  shows "\<exists>rt t. launch_instance ex_params env ''a'' (ex_model ''org/a'' '''' [0] None) 9001 s = (Inr rt, t) \<and>
    running t 0 \<and> si_stop_err (inst_at t 0) = None"
proof -
  let ?new = "new_instance ex_params ''a'' (ex_model ''org/a'' '''' [0] None) 9001"
  have zero: "joinInts [0] = ''0''"
    by (simp add: joinInts_def itoa_def nat_str.simps[of 0] digit_char_def char_of_def bit_0)
  have new: "si_mgr ?new = Some ex_cold" "si_stop_err ?new = None" by (simp_all add: new_instance_def zero ex_cold_def)
  have ops: "op_start (pm_ops ex_params) = proc_start ex_config" "op_verify (pm_ops ex_params) = proc_verify ex_config"
    by (simp_all add: ex_params_def proc_ops_def)
  have power: "apply_power ex_params mc (s\<lparr>sd_store := x\<rparr>) = (None, s\<lparr>sd_store := x\<rparr>)" for mc x
    using assms by (simp add: apply_power_def)
  show ?thesis
    using assms(2,3)
    by (simp add: launch_instance_def Let_def power start_mgr_def verify_mgr_def inst_at_def upd_inst_def new ops
        ex_cold_start_proc ex_cold_verify split_beta publish_def retire_old_def routeForInstance_def emit_def running_def)
qed

lemma ex_cold_start:
  "\<exists>rt t. AcquireRoute ex_params (ex_env now) ''a'' (ex_sched []) = (Inr rt, t) \<and> running t 0 \<and> si_stop_err (inst_at t 0) = None"
proof -
  have exist: "ensureGPUsExist True (Inr ex_gpus) [0] = None" by (rule ex_gpus_exist) simp
  have free: "ensureFreeVRAM (Inr ex_gpus) [0] 8000 s = (None, s)" if "sd_has_inventory s" for s :: "proc scheduler"
    using that by (simp add: ensureFreeVRAM_def go_eval check_vram_def ex_gpus_def is_reject_def fail_if_def)
  have port: "Acquire (sd_ports (ex_sched [])) = ((9001, True), \<lparr>p_start = 9001, p_end = 9003, p_used = [(9001, True)]\<rparr>)"
    by (simp add: ex_sched_def NewScheduler_def Acquire_def acquire_from.simps[of _ _ 9001] is_used_def)
  have none: "evictConflicts ex_params (\<lambda>a s. s) now [0] (ex_sched []\<lparr>sd_busy := True\<rparr>) = (None, ex_sched []\<lparr>sd_busy := True\<rparr>)"
    by (simp add: evictConflicts_def conflicts_of_def live_def still_conflicts_def)
  let ?s = "ex_sched []\<lparr>sd_busy := True, sd_ports := \<lparr>p_start = 9001, p_end = 9003, p_used = [(9001, True)]\<rparr>\<rparr>"
  have "sd_power ?s = None" "sd_store ?s = []" "sd_instances ?s = []" by (simp_all add: ex_sched_def NewScheduler_def)
  from ex_cold_launch[OF this] obtain rt t where
    "launch_instance ex_params (ex_env now) ''a'' (ex_model ''org/a'' '''' [0] None) 9001 ?s = (Inr rt, t)"
    "running t 0" "si_stop_err (inst_at t 0) = None" by blast
  moreover have "running (t\<lparr>sd_busy := False\<rparr>) 0 = running t 0" "inst_at (t\<lparr>sd_busy := False\<rparr>) 0 = inst_at t 0"
    by (simp_all add: running_def inst_at_def)
  ultimately show ?thesis
    by (simp add: AcquireRoute_def tryRouteReady_def acquireSchedulingPermitOrReject_def permit_try_def schedule_instance_def
        at_capacity_def exist none free port)
qed

definition ex_startup :: startup_env where
  "ex_startup = \<lparr>su_read = (\<lambda>p. Some ''yaml''), su_raw = (\<lambda>d. Inr [''api_key'']), su_decode = (\<lambda>d. Inr ex_config),
     su_output = (\<lambda>cmd. Some (render_inventory ex_gpus)), su_smi_ok = (\<lambda>n. True)\<rparr>"

lemma ex_inventory: "List_gpus (su_output ex_startup) b = Inr ex_gpus"
proof -
  have "\<forall>g \<in> set ex_gpus. gpu_in_range g" by (simp add: ex_gpus_def gpu_in_range_def in_int64_def min_int64_def max_int64_def)
  from parse_render_inventory[OF this] show ?thesis by (simp add: List_gpus_def ex_startup_def ex_gpus_def)
qed

lemma ex_started_scheduler: "startup ex_startup ''config.yml'' = Inr (ex_config, SchedulerMode (ex_sched []))"
proof -
  have "set (mc_gpus m) \<subseteq> g_index ` set ex_gpus" if "(n, m) \<in> set ex_models" for n m
    using that by (auto simp: ex_models_def ex_gpus_def)
  then have "check_gpus ex_gpus ex_config = None" by (auto simp: check_gpus_None)
  moreover have "power_setup (su_output ex_startup) (su_smi_ok ex_startup) ex_config = (None, None)"
    by (simp add: power_setup_def power_defaults_def)
  moreover have "Load (su_raw ex_startup) (su_decode ex_startup) ''yaml'' = Inr ex_config"
    using ex_load by (simp add: ex_startup_def)
  moreover have "NewScheduler ex_config True (new_pool 9001 9003) None = ex_sched []"
    by (simp add: ex_sched_def NewScheduler_def new_pool_def)
  moreover have "su_read ex_startup p = Some ''yaml''" for p by (simp add: ex_startup_def)
  ultimately show ?thesis
    by (simp add: startup_def build_router_def ex_inventory Let_def)
qed

lemma ex_attended: "attended W exits (ev_drain (ex_env now))"
  by (simp add: attended_def)

lemma ex_world: "proc_world ex_config ex_params"
  unfolding proc_world_def ex_params_def by (auto simp: ex_start_def intro!: exI)

lemma ex_run:
  "\<exists>rt t. AcquireRoute ex_params (ex_env 5) ''a'' (ex_sched []) = (Inr rt, t) \<and>
     srun (proc_world ex_config) proc_exit (ex_sched []) t \<and> running t 0 \<and> si_stop_err (inst_at t 0) = None"
proof -
  obtain rt t where a: "AcquireRoute ex_params (ex_env 5) ''a'' (ex_sched []) = (Inr rt, t)" "running t 0"
    "si_stop_err (inst_at t 0) = None" using ex_cold_start by blast
  have "srun (proc_world ex_config) proc_exit (ex_sched []) t"
    by (rule srun.request[OF srun.start[of "proc_world ex_config" proc_exit "ex_sched []"] _ ex_world ex_attended a(1)]) simp
  with a show ?thesis by blast
qed

section \<open>Runs of the scheduler\<close>

lemma started_scheduler:
  assumes "\<And>d c. su_decode E d = Inr c \<Longrightarrow> gomap_ok (Models c)" "startup E cfg_path = Inr (c, SchedulerMode s0)"
  shows "config_ok c \<and> sd_cfg s0 = c \<and> \<not> sd_busy s0 \<and> sched_inv s0 \<and> sd_store s0 = []"
proof -
  obtain d pm where d: "Load (su_raw E) (su_decode E) d = Inr c" "build_router E c pm = Inr (c, SchedulerMode s0)"
    by (rule startup_Inr[OF assms(2)])
  have ok: "config_ok c" by (rule Load_ok[OF assms(1) d(1)])
  from d(2) obtain sc where sc: "SchedulerCfg c = Some sc"
    "s0 = NewScheduler c True (new_pool (sc_port_range_start sc) (sc_port_range_end sc)) pm"
    by (auto simp: build_router_def Let_def split: option.splits sum.splits)
  have "sched_inv s0" unfolding sc(2) by (rule NewScheduler_inv[OF ok sc(1)])
  with ok sc(2) show ?thesis by (simp add: NewScheduler_def)
qed

lemma route_done_serves: "serves resolved rt s \<Longrightarrow> rt_instance rt = Some a \<Longrightarrow> serves resolved rt (route_done a s)"
  by (auto simp: serves_def route_done_def Let_def split_beta emit_def upd_inst_def inst_at_def nth_list_update)

text \<open>
  C1. When the program has started in scheduler mode, its configuration is valid, every GPU of a model
  exists, and from then on, whatever requests, schedulings, waits, exits and stops interleave (a stop
  takes the permit, or overtakes an operation that has just got it), the
  configuration stays, the permit is free between operations, the instances in the map have distinct
  positive ports and disjoint GPUs, each those of its model, and are at most as many as configured.
\<close>

theorem runs_from_startup_are_consistent:
  assumes "\<And>d c. su_decode E d = Inr c \<Longrightarrow> gomap_ok (Models c)" "startup E cfg_path = Inr (c, SchedulerMode s0)"
    and "srun W exits s0 s"
  shows "config_ok c \<and> sd_cfg s = c \<and> \<not> sd_busy s \<and>
    (\<exists>sc gpus. SchedulerCfg c = Some sc \<and> List_gpus (su_output E) (sc_nvidia_smi_binary sc) = Inr gpus \<and>
       (\<forall>(n, m) \<in> set (Models c). mc_alias m = '''' \<longrightarrow> set (mc_gpus m) \<subseteq> g_index ` set gpus) \<and>
       (\<forall>k. sc_max_instances sc = Some k \<longrightarrow> int (length (sd_instances s)) \<le> k)) \<and>
    (\<forall>n a. map_of (sd_instances s) n = Some a \<longrightarrow> si_port (inst_at s a) \<ge> 1 \<and> si_model (inst_at s a) = n \<and>
       (\<exists>mc. map_of (Models c) n = Some mc \<and> si_gpus (inst_at s a) = mc_gpus mc)) \<and>
    (\<forall>n m a b. map_of (sd_instances s) n = Some a \<and> map_of (sd_instances s) m = Some b \<and> n \<noteq> m \<longrightarrow>
       si_port (inst_at s a) \<noteq> si_port (inst_at s b) \<and>
       set (si_gpus (inst_at s a)) \<inter> set (si_gpus (inst_at s b)) = {})"
proof -
  obtain d pm where b: "build_router E c pm = Inr (c, SchedulerMode s0)" by (rule startup_Inr[OF assms(2)])
  from started_scheduler[OF assms(1,2)] have i0: "config_ok c" "sched_inv s0" "\<not> sd_busy s0" "sd_cfg s0 = c" by simp_all
  from srun_inv[OF assms(3) i0(2,3)] have i: "sched_inv s" "\<not> sd_busy s" by simp_all
  have cfg: "sd_cfg s = c" using srun_cfg[OF assms(3) i0(2,3)] i0(4) by simp
  from b obtain sc gpus where sc: "SchedulerCfg c = Some sc" "List_gpus (su_output E) (sc_nvidia_smi_binary sc) = Inr gpus"
    and "check_gpus gpus c = None"
    by (auto simp: build_router_def Let_def split: option.splits sum.splits)
  then have gpus: "\<forall>(n, m) \<in> set (Models c). mc_alias m = '''' \<longrightarrow> set (mc_gpus m) \<subseteq> g_index ` set gpus"
    by (simp add: check_gpus_None)
  have max: "\<forall>k. sc_max_instances sc = Some k \<longrightarrow> int (length (sd_instances s)) \<le> k"
    using i(1) sc(1) by (simp add: sinv_def below_max_def cfg)
  have leases: "distinct (port_list s)" "set (port_list s) \<subseteq> {1..}"
    using sinv_leases[OF i(1)] i(1) pool_source.held_range[of "sd_ports s"]
    by (auto simp: pool_source.leases_def sinv_def)
  have inst: "si_port (inst_at s a) \<ge> 1 \<and> si_model (inst_at s a) = n \<and>
       (\<exists>mc. map_of (Models c) n = Some mc \<and> si_gpus (inst_at s a) = mc_gpus mc)" if "map_of (sd_instances s) n = Some a" for n a
    using entry_ok[OF i(1) map_of_SomeD[OF that]] leases(2) map_of_SomeD[OF that]
    by (force simp: inst_ok_def cfg port_list_def live_def)
  have apart: "si_port (inst_at s a) \<noteq> si_port (inst_at s b) \<and> set (si_gpus (inst_at s a)) \<inter> set (si_gpus (inst_at s b)) = {}"
    if "map_of (sd_instances s) n = Some a" "map_of (sd_instances s) m = Some b" "n \<noteq> m" for n m a b
  proof -
    have ab: "a \<in> set (live s)" "b \<in> set (live s)" using that(1,2) by (force simp: live_def dest: map_of_SomeD)+
    have "a \<noteq> b" using inst[OF that(1)] inst[OF that(2)] that(3) by auto
    with ab leases(1) i(1) show ?thesis
      by (auto simp: port_list_def distinct_map inj_on_def sinv_def gpus_apart_def)
  qed
  show ?thesis
    using i0(1) cfg i(2) sc gpus max inst apart by blast
qed

lemma runs_from_startup_are_consistent_witness:
  "\<exists>rt t. AcquireRoute ex_params (ex_env 5) ''a'' (ex_sched []) = (Inr rt, t) \<and> sd_cfg t = ex_config \<and> \<not> sd_busy t"
proof -
  obtain rt t where a: "AcquireRoute ex_params (ex_env 5) ''a'' (ex_sched []) = (Inr rt, t)" using ex_cold_start by blast
  have r: "srun ((=) ex_params) (\<lambda>m m'. False) (ex_sched []) t"
    by (rule srun.request[OF srun.start _ refl ex_attended a]) simp
  have "su_decode ex_startup d = Inr ex_config" for d by (simp add: ex_startup_def)
  with runs_from_startup_are_consistent[OF _ ex_started_scheduler r] ex_models_ok a show ?thesis by auto
qed

text \<open>
  C3. No backend process is lost: in every run from the start, whatever requests, schedulings, failed
  starts, evictions, exits and stops interleave, a process that exists is the one of the instance the
  scheduler holds for its model, unless the last \<open>Stop\<close> of its instance returned an error; and two
  such processes serve different models on different ports and on disjoint GPUs.
\<close>

theorem no_backend_is_lost:
  assumes "\<And>d c. su_decode E d = Inr c \<Longrightarrow> gomap_ok (Models c)" "startup E cfg_path = Inr (c, SchedulerMode s0)"
    and "srun (proc_world c) proc_exit s0 s"
  shows "(\<forall>a. running s a \<longrightarrow>
       map_of (sd_instances s) (si_model (inst_at s a)) = Some a \<or> si_stop_err (inst_at s a) \<noteq> None) \<and>
    (\<forall>a b. running s a \<and> running s b \<and> a \<noteq> b \<and> si_stop_err (inst_at s a) = None \<and> si_stop_err (inst_at s b) = None \<longrightarrow>
       si_model (inst_at s a) \<noteq> si_model (inst_at s b) \<and> si_port (inst_at s a) \<noteq> si_port (inst_at s b) \<and>
       set (si_gpus (inst_at s a)) \<inter> set (si_gpus (inst_at s b)) = {})"
proof -
  from started_scheduler[OF assms(1,2)] have i0: "sched_inv s0" "\<not> sd_busy s0" "sd_store s0 = []" by simp_all
  from srun_inv[OF assms(3) i0(1,2)] have i: "sched_inv s" by simp
  have l: "a \<in> set (live s)" if "running s a" "si_stop_err (inst_at s a) = None" for a
    by (rule running_live[OF assms(3) i0 that])
  have m: "map_of (sd_instances s) (si_model (inst_at s a)) = Some a" if "a \<in> set (live s)" for a
  proof -
    have "(si_model (inst_at s a), a) \<in> set (sd_instances s)" using that live_iff[OF i] by simp
    moreover have "distinct (map fst (sd_instances s))" using i by (simp add: sinv_def gomap_ok_def)
    ultimately show ?thesis by simp
  qed
  have "si_model (inst_at s a) \<noteq> si_model (inst_at s b) \<and> si_port (inst_at s a) \<noteq> si_port (inst_at s b) \<and>
       set (si_gpus (inst_at s a)) \<inter> set (si_gpus (inst_at s b)) = {}"
    if "a \<in> set (live s)" "b \<in> set (live s)" "a \<noteq> b" for a b
  proof -
    have "distinct (port_list s)" using sinv_leases[OF i] by (simp add: pool_source.leases_def)
    with m[OF that(1)] m[OF that(2)] that i show ?thesis
      by (auto simp: port_list_def distinct_map inj_on_def sinv_def gpus_apart_def)
  qed
  with l m show ?thesis by blast
qed

lemma no_backend_is_lost_witness:
  "\<exists>t. srun (proc_world ex_config) proc_exit (ex_sched []) t \<and> running t 0 \<and>
     map_of (sd_instances t) (si_model (inst_at t 0)) = Some 0"
proof -
  obtain rt t where t: "srun (proc_world ex_config) proc_exit (ex_sched []) t" "running t 0"
    "si_stop_err (inst_at t 0) = None" using ex_run by blast
  have "su_decode ex_startup d = Inr ex_config" for d by (simp add: ex_startup_def)
  with no_backend_is_lost[OF _ ex_started_scheduler t(1)] ex_models_ok t show ?thesis by auto
qed

text \<open>
  C12. A request that can be scheduled is served: when the permit is free, a port is free, the GPUs of
  the model are listed with enough free memory, every instance on them is unpinned and old enough, the
  capacity is not reached, the power limits can be set and the backend comes up, then the request gets
  a route, and it leads to the ready instance of its model; no other cause makes it fail.
\<close>

theorem schedulable_request_is_served:
  assumes "attended W exits (ev_drain env)" "sched_inv s" "\<not> sd_busy s"
    and "ResolveModel (sd_cfg s) n = Inr (resolved, mc)" "schedulable P env resolved mc s"
  shows "\<exists>rt t. AcquireRoute P env n s = (Inr rt, t) \<and> serves resolved rt t"
proof -
  obtain rt t where a: "AcquireRoute P env n s = (Inr rt, t)" using AcquireRoute_succeeds[OF assms] by blast
  from AcquireRoute_idle(2)[OF assms(3) attended_quiet[OF assms(1)] assms(2) a refl] assms(4) a show ?thesis by auto
qed

text \<open>\<open>a\<close> runs and is old enough, so it is evicted for \<open>b\<close>, whose backend comes up.\<close>

definition ex_params_b :: "proc params" where
  "ex_params_b = ex_params\<lparr>pm_new := vllm_factory [ex_start 0 (Some 41)] [ex_stopped] [ex_ready ''org/b'']\<rparr>"

lemma ex_comes_up: "comes_up ex_params_b ''b'' (pm_new ex_params_b port gpus)"
proof -
  let ?p = "pm_new ex_params_b port gpus"
  let ?q = "?p\<lparr>pr_mgr := ex_started 0 41 ''b'' (pr_mgr ?p), pr_starts := [], pr_alive := True\<rparr>"
  have ops: "op_start (pm_ops ex_params_b) = proc_start ex_config" "op_verify (pm_ops ex_params_b) = proc_verify ex_config"
    by (simp_all add: ex_params_b_def ex_params_def proc_ops_def)
  have "proc_start ex_config ''b'' ?p = (Inr 41, ?q)"
    by (simp add: proc_start_def ex_params_b_def vllm_factory_def Start_def ex_launch NewInstanceManager_def)
       (simp add: ex_start_def)
  moreover have "fst (proc_verify ex_config ''b'' ?q) = None"
    by (simp add: proc_verify_def ex_params_b_def vllm_factory_def VerifyReady_def ex_ready_def verify_result_def
        runtime_for_def VerifyModelLoaded_def decode_models_page ascii_ok Let_def)
  ultimately show ?thesis by (simp add: comes_up_def ops)
qed

lemma ex_schedulable:
  "schedulable ex_params_b (ex_env ex_late) ''b'' (ex_model ''org/b'' '''' [0, 1] None) (ex_sched [ex_a [ex_stopped]])"
proof -
  have "9002 \<in> pool_range (sd_ports (ex_sched [ex_a [ex_stopped]])) - set (port_list (ex_sched [ex_a [ex_stopped]]))"
    by (simp add: pool_range_def port_list_def) (simp add: ex_sched_def NewScheduler_def)
  then have "\<not> pool_range (sd_ports (ex_sched [ex_a [ex_stopped]])) \<subseteq> set (port_list (ex_sched [ex_a [ex_stopped]]))"
    by blast
  moreover have "\<forall>i \<in> {0, 1}. check_vram ex_gpus 8000 i = None"
    by (simp add: check_vram_def ex_gpus_def fail_if_def)
  moreover have "limits_apply ex_params_b (ex_model ''org/b'' '''' [0, 1] None)"
    by (simp add: limits_apply_def ApplyModelLimits_def ex_model_def)
  moreover have "set [0, 1] \<subseteq> g_index ` set ex_gpus" by (simp add: ex_gpus_def)
  ultimately show ?thesis
    using ex_old_enough by (simp add: schedulable_def at_capacity_def old_enough_def ex_comes_up)
qed

lemma schedulable_request_is_served_witness:
  "\<exists>rt t. AcquireRoute ex_params_b (ex_env ex_late) ''b'' (ex_sched [ex_a [ex_stopped]]) = (Inr rt, t) \<and> serves ''b'' rt t"
  using schedulable_request_is_served[OF ex_attended ex_a_inv _ _ ex_schedulable] by simp

lemma main_end_code:
  "main_end body es w = (Some code, v) \<Longrightarrow> code = 0 \<Longrightarrow> v = stop_once body w"
  "main_end body es w = (Some code, v) \<Longrightarrow> code \<noteq> 0 \<Longrightarrow> Signal \<notin> set es \<Longrightarrow> v = w"
  by (induction body es w rule: main_end.induct) (auto simp: stop_once_def split: if_splits)



text \<open>
  C37. The stop of the scheduler runs once and does not close it: a preload of the default model that
  gets the permit after the stop starts an instance, and the second call of the stop does nothing, so
  the instance is still in the map, ready, when the program ends.
\<close>

theorem late_preload_outlives_the_stop:
  assumes "sched_inv s" "\<not> sd_busy s" "quiet drain" "quiet (ev_drain env)"
    and "stop_once (StopAll P drain) (False, s) = (d, s1)" "bc_default_model (Behavior (sd_cfg s)) = m" "m \<noteq> ''''"
    and "AcquireRoute P env m s1 = (Inr rt, s2)"
  shows "sd_instances s1 = [] \<and>
    (\<exists>s3 n a. stop_once (StopAll P drain) (d, preload_scheduler P env s1) = (True, s3) \<and>
       map_of (sd_instances s3) n = Some a \<and> si_state (inst_at s3 a) = StateReady \<and> \<not> si_draining (inst_at s3 a))"
proof -
  have d: "d" and s1: "s1 = StopAll P drain s" using assms(5) by (simp_all add: stop_once_def)
  have i: "sched_inv s1" "sd_instances s1 = []" "sd_cfg s1 = sd_cfg s" "\<not> sd_busy s1"
    using StopAll_ok(1,2)[OF assms(3,1)] StopAll_cfg[OF assms(3)] assms(2) unfolding s1
    by (simp_all, simp add: StopAll_def Let_def)
  obtain n where n: "serves n rt s2"
    using AcquireRoute_idle(2)[OF i(4) assms(4) i(1) assms(8) refl] by blast
  then obtain a where a: "rt_instance rt = Some a" by (auto simp: serves_def)
  have "preload_scheduler P env s1 = route_done a s2"
    using assms(6-8) a by (simp add: preload_scheduler_def i(3) Let_def)
  with route_done_serves[OF n a] a d i(2) show ?thesis by (auto simp: stop_once_def serves_def)
qed

lemma late_preload_outlives_the_stop_witness:
  "\<exists>s3 n a. stop_once (StopAll ex_params (\<lambda>a s. s)) (True, preload_scheduler ex_params (ex_env 5) (ex_sched [])) = (True, s3) \<and>
     map_of (sd_instances s3) n = Some a \<and> si_state (inst_at s3 a) = StateReady"
proof -
  have i: "sched_inv (ex_sched [])" by (rule ex_sched_inv) simp_all
  have q: "quiet (\<lambda>a s. s)" by (simp add: quiet_def)
  have q2: "quiet (ev_drain (ex_env 5))" by (simp add: quiet_def)
  have "StopAll ex_params (\<lambda>a s. s) (ex_sched []) = ex_sched []"
    by (simp add: StopAll_def ex_sched_def NewScheduler_def live_def)
  then have s: "stop_once (StopAll ex_params (\<lambda>a s. s)) (False, ex_sched []) = (True, ex_sched [])"
    by (simp add: stop_once_def)
  have m: "bc_default_model (Behavior (sd_cfg (ex_sched []))) = ''a''" by (simp add: ex_config_def)
  obtain rt t where a: "AcquireRoute ex_params (ex_env 5) ''a'' (ex_sched []) = (Inr rt, t)" using ex_cold_start by blast
  from late_preload_outlives_the_stop[OF i _ q q2 s m _ a] show ?thesis by auto
qed

end
