(* ===== verification/Http_Properties.thy ===== *)
theory Http_Properties
  imports Proxy_Properties Startup_Properties
begin

text \<open>
  The properties of the HTTP front end, and of a request that passes through the server, the router
  and the proxy.
\<close>

section \<open>Examples\<close>

definition ex_server :: "upstream_response option \<Rightarrow> server_env" where
  "ex_server answer = \<lparr>hv_forward = ex_forward answer, hv_json_msg = (\<lambda>e. ''invalid JSON''), hv_match = (=),
     hv_fmt_time = (\<lambda>t. ''2026-01-01T00:00:00Z''), hv_wall = 0, hv_created = 0, hv_fresh_id = ''id''\<rparr>"

abbreviation ex_router :: "proc scheduler router" where
  "ex_router \<equiv> scheduler_router ex_params (ex_env 5) 5"

section \<open>Requests through the server\<close>

lemma serve_cases:
  "serve V opts path req s = ((rid, r), t) \<Longrightarrow>
   r = NoRoute \<and> t = s \<or>
   (\<exists>m p auth ep. (m, p, auth, ep) \<in> set app_routes \<and>
      (case (if auth then AuthAPIKey (api_key opts) (cr_headers req) else None) of
         Some e \<Rightarrow> r = Reply e \<and> t = s
       | None \<Rightarrow> handle_endpoint V opts rid req ep s = (r, t)))"
proof -
  assume e: "serve V opts path req s = ((rid, r), t)"
  let ?f = "find (\<lambda>(m, p, _). method_matches m (cr_method req) \<and> hv_match V p path) app_routes"
  show ?thesis
  proof (cases ?f)
    case None
    with e show ?thesis by (simp add: serve_def Let_def)
  next
    case (Some x)
    obtain m p auth ep where x: "x = (m, p, auth, ep)" by (metis surj_pair)
    have "x \<in> set app_routes" using Some unfolding find_Some_iff by (metis nth_mem)
    moreover have "case (if auth then AuthAPIKey (api_key opts) (cr_headers req) else None) of
         Some e \<Rightarrow> r = Reply e \<and> t = s
       | None \<Rightarrow> handle_endpoint V opts rid req ep s = (r, t)"
    proof (cases "if auth then AuthAPIKey (api_key opts) (cr_headers req) else None")
      case None
      with e Some show ?thesis
        by (simp add: serve_def Let_def x apfst_def map_prod_def split_beta) (metis prod.collapse)
    next
      case (Some a)
      with e \<open>?f = Some x\<close> show ?thesis by (simp add: serve_def Let_def x)
    qed
    ultimately show ?thesis unfolding x by blast
  qed
qed

text \<open>The handlers that do not forward leave the router alone.\<close>

lemma open_endpoint: "(m, p, False, ep) \<in> set app_routes \<Longrightarrow> ep = EpHealth \<or> ep = EpNotImplemented"
  by (auto simp: app_routes_def)

lemma AuthAPIKey_refuses:
  assumes "key \<noteq> ''''" "header_get ''Authorization'' h \<noteq> ''Bearer '' @ key"
  shows "\<exists>e. AuthAPIKey key h = Some e \<and> hr_status e = 401"
proof -
  have "has_prefix x ''Bearer '' \<Longrightarrow> drop (length ''Bearer '') x = key \<Longrightarrow> x = ''Bearer '' @ key" for x
    by (auto simp: prefix_def)
  with assms show ?thesis by (auto simp: AuthAPIKey_def Let_def writeOpenAIError_def)
qed

text \<open>
  C7. When the configuration file has an API key, the loaded key is not blank, and a request without
  exactly this key changes nothing in the router: it is answered with 401 or is one of the unprotected
  routes, which show the health or the fixed not-implemented error, or no route at all.
\<close>

theorem protected_routes_need_the_key:
  assumes "\<And>d c. decode d = Inr c \<Longrightarrow> gomap_ok (Models c)" "Load raw decode d = Inr c" "serverAPIKeyPresent raw d = Inr True"
    and "header_get ''Authorization'' (cr_headers req) \<noteq> ''Bearer '' @ srv_api_key (Server c)"
    and "serve V (app_for c R) path req s = ((rid, r), t)"
  shows "trim_space (srv_api_key (Server c)) \<noteq> '''' \<and> t = s \<and>
    (r = NoRoute \<or> r = Reply notImplementedHandler \<or> r = Reply (healthHandler (Some (ro_status R s))) \<or>
     (\<exists>e. r = Reply e \<and> hr_status e = 401))"
proof -
  have key: "trim_space (srv_api_key (Server c)) \<noteq> ''''"
    using load_key[OF assms(1,2,3)] by simp
  have blank: "trim_space '''' = ''''" by (simp add: trim_space_def)
  have ne: "srv_api_key (Server c) \<noteq> ''''" using key blank by metis
  have "api_key (app_for c R) = srv_api_key (Server c)" by (simp add: api_key_def app_for_def)
  then obtain e where e: "AuthAPIKey (api_key (app_for c R)) (cr_headers req) = Some e" "hr_status e = 401"
    using AuthAPIKey_refuses[OF ne assms(4)] by metis
  from serve_cases[OF assms(5)] show ?thesis
  proof (elim disjE exE conjE)
    fix m p auth ep
    assume route: "(m, p, auth, ep) \<in> set app_routes"
      and h: "case (if auth then AuthAPIKey (api_key (app_for c R)) (cr_headers req) else None) of
         Some e \<Rightarrow> r = Reply e \<and> t = s
       | None \<Rightarrow> handle_endpoint V (app_for c R) rid req ep s = (r, t)"
    show ?thesis
    proof (cases auth)
      case True
      with h e key show ?thesis by simp
    next
      case False
      then have "ep = EpHealth \<or> ep = EpNotImplemented" using route open_endpoint[of m p ep] by simp
      with h False key show ?thesis by (auto simp: app_for_def)
    qed
  qed (use key in simp)
qed

lemma protected_routes_need_the_key_witness:
  "snd (serve (ex_server None) (app_for ex_config ex_router) ''/v1/completions'' (ex_request ''a'') (ex_sched [ex_a []]))
     = ex_sched [ex_a []]"
proof -
  obtain rid r t where s: "serve (ex_server None) (app_for ex_config ex_router) ''/v1/completions'' (ex_request ''a'')
      (ex_sched [ex_a []]) = ((rid, r), t)" by (metis surj_pair)
  have "header_get ''Authorization'' (cr_headers (ex_request ''a'')) \<noteq> ''Bearer '' @ srv_api_key (Server ex_config)"
    by (simp add: header_get_def header_values_def ex_request_def canonical_key_def)
  from protected_routes_need_the_key[OF _ ex_load ex_key_present this s] ex_models_ok s show ?thesis by simp
qed

text \<open>How a handler comes to forward: the model resolved and the router gave a route.\<close>

lemma forward_cases:
  assumes "h = switchingProxyHandler \<or> h = anthropicProxyHandler"
    and "h V opts rid req s = (Forwarded rt fo fr, t)"
  obtains c R m x s1 where "ao_config opts = Some c" "ao_router opts = Some R" "extractModel (cr_body req) = Inr m"
    "m \<noteq> ''''" "ResolveModel c m = Inr x" "ro_acquire R m rid s = (Inr rt, s1)"
    "fo = route_options c (ro_has_done R rt) m rid rt" "fr = ForwardFiber (hv_forward V) fo req"
    "t = release_calls R (done_calls (ro_has_done R rt) fr) rt s1"
  using assms
  by (auto simp: switchingProxyHandler_def anthropicProxyHandler_def forward_route_def Let_def
      split: option.splits sum.splits if_splits prod.splits)

text \<open>The calls of \<open>Done\<close> on every path of the proxy.\<close>

lemma ForwardFiber_done:
  "let fr = ForwardFiber env opts req
   in (fr_error fr \<noteq> None \<or> fr_stream fr = None \<longrightarrow>
         (fo_on_done opts \<longrightarrow> done_calls True fr \<noteq> 0) \<and> fr_stream fr = None) \<and>
      (fr_stream fr \<noteq> None \<longrightarrow> done_calls (fo_on_done opts) fr = 0 \<and> fr_done fr = (fo_on_done opts, 0) \<and> fr_error fr = None) \<and>
      (\<not> fo_on_done opts \<longrightarrow> snd (fr_done fr) = 0)"
  by (auto simp: ForwardFiber_def Let_def done_calls_def callOnce_def split: option.splits)

text \<open>
  C8. A forwarded request gives its slot back exactly once: when the handler has returned and, for an
  event stream, the stream writer has run, the router is in the state of one \<open>Done\<close> after the
  \<open>AcquireRoute\<close>; this holds for failed forwards too, and a stream keeps the slot until its end.
\<close>

theorem done_exactly_once:
  assumes "h = switchingProxyHandler \<or> h = anthropicProxyHandler"
    and "h V (app_for c R) rid req s = (Forwarded rt fo fr, t)" "ro_has_done R rt"
  shows "\<exists>m s1. extractModel (cr_body req) = Inr m \<and> ro_acquire R m rid s = (Inr rt, s1) \<and>
     t = (if fr_stream fr = None then ro_done R rt s1 else s1) \<and>
     snd (finish_stream (hv_forward V) R rt fo fr w t) = ro_done R rt s1"
proof -
  obtain m s1 where m: "extractModel (cr_body req) = Inr m" "ro_acquire R m rid s = (Inr rt, s1)"
    and fo: "fo = route_options c True m rid rt" and fr: "fr = ForwardFiber (hv_forward V) fo req"
    and t: "t = release_calls R (done_calls True fr) rt s1"
    by (rule forward_cases[OF assms(1,2)]) (use assms(3) in \<open>auto simp: app_for_def\<close>)
  have on: "fo_on_done fo" by (simp add: fo route_options_def)
  show ?thesis
  proof (cases "fr_stream fr")
    case None
    with ForwardFiber_done[of "hv_forward V" fo req] on m t show ?thesis
      by (auto simp: fr[symmetric] Let_def release_calls_def finish_stream_def)
  next
    case (Some b)
    with ForwardFiber_done[of "hv_forward V" fo req] on m t show ?thesis
      by (auto simp: fr[symmetric] Let_def release_calls_def finish_stream_def stream_writer_def callOnce_def)
  qed
qed

lemma ex_forwarded:
  "\<exists>fo fr t. switchingProxyHandler (ex_server answer) (app_for ex_config ex_router) ''id'' (ex_request ''alias'')
     (ex_sched [ex_a []]) = (Forwarded \<lparr>rt_base_url = ''http://127.0.0.1:9001'', rt_upstream_model = ''org/a'',
        rt_instance = Some 0\<rparr> fo fr, t)"
proof -
  have m: "extractModel (cr_body (ex_request ''alias'')) = Inr ''alias''"
    unfolding ex_request_def using extract_member[of "''model''" "''alias''"] lower_model
    by (simp add: ascii_ok del: render.simps)
  obtain s1 where a: "AcquireRoute ex_params (ex_env 5) ''alias'' (ex_sched [ex_a []]) =
     (Inr \<lparr>rt_base_url = ''http://127.0.0.1:9001'', rt_upstream_model = ''org/a'', rt_instance = Some 0\<rparr>, s1)"
    using ex_route by blast
  then have "ro_acquire ex_router ''alias'' ''id'' (ex_sched [ex_a []]) =
     (Inr \<lparr>rt_base_url = ''http://127.0.0.1:9001'', rt_upstream_model = ''org/a'', rt_instance = Some 0\<rparr>, s1)"
    by (simp add: scheduler_router_def)
  with m show ?thesis by (simp add: switchingProxyHandler_def app_for_def forward_route_def Let_def)
qed

lemma done_exactly_once_witness:
  "\<exists>rt fo fr t. switchingProxyHandler (ex_server (Some ex_response)) (app_for ex_config ex_router) ''id'' (ex_request ''alias'')
     (ex_sched [ex_a []]) = (Forwarded rt fo fr, t) \<and>
     (\<exists>s1. snd (finish_stream (ex_forward (Some ex_response)) ex_router rt fo fr \<lparr>sk_out = [], sk_room = 0\<rparr> t) =
        ro_done ex_router rt s1)"
proof -
  obtain rt fo fr t where f: "switchingProxyHandler (ex_server (Some ex_response)) (app_for ex_config ex_router) ''id''
     (ex_request ''alias'') (ex_sched [ex_a []]) = (Forwarded rt fo fr, t)" using ex_forwarded by blast
  have "ro_has_done ex_router rt" by (simp add: scheduler_router_def)
  with done_exactly_once[OF disjI1[OF refl] f, of "\<lparr>sk_out = [], sk_room = 0\<rparr>"] f show ?thesis
    by (auto simp: ex_server_def)
qed

section \<open>Errors\<close>

lemma round_second_bounds:
  assumes "0 < d" "d \<le> max_int64"
  shows "0 \<le> round_second d" "seconds (round_second d) * second \<le> d + second div 2"
    "d < (seconds (round_second d) + 1) * second"
proof -
  define q r where "q = d div second" and "r = d mod second"
  have d: "d = q * second + r" "0 \<le> r" "r < second" "0 \<le> q"
    using assms(1) by (simp_all add: q_def r_def second_def pos_imp_zdiv_nonneg_iff)
  have s: "second = 1000000000" by (simp add: second_def)
  have rd: "round_second d = (if r + r < second then d - r
      else if d + second - r \<le> max_int64 then d + second - r else max_int64)"
    by (simp add: round_second_def r_def Let_def)
  have sec: "seconds (x * second + y) = x" if "0 \<le> x" "0 \<le> y" "y < second" for x y
    using that by (simp add: seconds_def go_div_nonneg s)
  consider "r + r < second" | "\<not> r + r < second" "d + second - r \<le> max_int64"
    | "\<not> r + r < second" "max_int64 < d + second - r" by linarith
  then have "0 \<le> round_second d \<and> seconds (round_second d) * second \<le> d + second div 2 \<and>
    d < (seconds (round_second d) + 1) * second"
  proof cases
    case 1
    then have "round_second d = q * second + 0" using rd d(1) by simp
    with sec[of q 0] d 1 show ?thesis by (simp add: s)
  next
    case 2
    then have "round_second d = (q + 1) * second + 0" using rd d(1) by (simp add: algebra_simps)
    with sec[of "q + 1" 0] d 2 show ?thesis by (simp add: s)
  next
    case 3
    then have e: "round_second d = max_int64" using rd by simp
    have "max_int64 = 9223372036 * second + 854775807" by (simp add: s max_int64_def)
    with sec[of 9223372036 854775807] have m: "seconds max_int64 = 9223372036" by (simp add: s)
    from 3 d have "q = 9223372036"
      using assms(2) unfolding s max_int64_def by linarith
    with e m d 3 show ?thesis by (simp add: s max_int64_def)
  qed
  then show "0 \<le> round_second d" "seconds (round_second d) * second \<le> d + second div 2"
    "d < (seconds (round_second d) + 1) * second" by simp_all
qed

lemma json_error_headers:
  "header_values ''Retry-After'' (hr_headers (writeOpenAIError st msg ty code)) = []"
  "header_values ''Retry-After'' (hr_headers (writeAnthropicError st ty msg)) = []"
  "hr_status (writeOpenAIError st msg ty code) = st" "hr_status (writeAnthropicError st ty msg) = st"
  "hr_status (with_retry d r) = hr_status r"
  by (simp_all add: header_values_def writeOpenAIError_def writeAnthropicError_def with_retry_def canonical_names)

lemma with_retry_header:
  "header_values ''Retry-After'' (hr_headers (with_retry d r)) =
     (if d > 0 then [itoa (retry_seconds d)] else header_values ''Retry-After'' (hr_headers r))"
  by (simp add: with_retry_def)

text \<open>
  C20. A rejected request gets the same status and the same \<open>Retry-After\<close> from both APIs: 500 for the
  backoff and 503 otherwise, and a header exactly when the router gave a positive hint; its whole
  seconds are at least one, and off the hint by less than a second, at most half of one too long.
\<close>

theorem retry_after_hint:
  assumes "rj_retry_after rej \<le> max_int64"
  shows "hr_status (mapEnsureError (Rejected rej)) = (if rj_reason rej = RejectBackoff then 500 else 503) \<and>
    hr_status (mapAnthropicError (Rejected rej)) = hr_status (mapEnsureError (Rejected rej)) \<and>
    (\<exists>n \<ge> 1. header_values ''Retry-After'' (hr_headers (mapEnsureError (Rejected rej))) =
        (if rj_retry_after rej > 0 then [itoa n] else []) \<and>
      header_values ''Retry-After'' (hr_headers (mapAnthropicError (Rejected rej))) =
        (if rj_retry_after rej > 0 then [itoa n] else []) \<and>
      rj_retry_after rej < (n + 1) * second \<and>
      (n = 1 \<or> n * second \<le> rj_retry_after rej + second div 2))"
proof -
  let ?d = "rj_retry_after rej"
  have n: "retry_seconds ?d \<ge> 1" by (simp add: retry_seconds_def Let_def)
  have b: "?d < (retry_seconds ?d + 1) * second \<and> (retry_seconds ?d = 1 \<or> retry_seconds ?d * second \<le> ?d + second div 2)"
    if "?d > 0"
    using round_second_bounds[OF that assms] by (auto simp: retry_seconds_def Let_def second_def)
  have s: "hr_status (mapEnsureError (Rejected rej)) = (if rj_reason rej = RejectBackoff then 500 else 503)"
    "hr_status (mapAnthropicError (Rejected rej)) = (if rj_reason rej = RejectBackoff then 500 else 503)"
    by (simp_all add: mapEnsureError_def mapAnthropicError_def json_error_headers)
  have h: "header_values ''Retry-After'' (hr_headers (mapEnsureError (Rejected rej))) =
        (if ?d > 0 then [itoa (retry_seconds ?d)] else [])"
      "header_values ''Retry-After'' (hr_headers (mapAnthropicError (Rejected rej))) =
        (if ?d > 0 then [itoa (retry_seconds ?d)] else [])"
    by (simp_all add: mapEnsureError_def mapAnthropicError_def with_retry_header json_error_headers)
  show ?thesis
  proof (cases "?d > 0")
    case True
    with s h n b show ?thesis by (intro conjI exI[of _ "retry_seconds ?d"]) simp_all
  next
    case False
    with s h show ?thesis by (intro conjI exI[of _ 1]) (simp_all add: second_def)
  qed
qed

lemma retry_after_hint_witness:
  "hr_status (mapAnthropicError (Rejected \<lparr>rj_reason = RejectCooldown, rj_retry_after = 2 * second, rj_message = ''''\<rparr>)) = 503"
  using retry_after_hint[of "\<lparr>rj_reason = RejectCooldown, rj_retry_after = 2 * second, rj_message = ''''\<rparr>"]
  by (simp add: second_def max_int64_def)

section \<open>What the server reports\<close>



text \<open>What \<open>tryRouteReady\<close> would answer for some model, and what the health page says.\<close>

lemma accepting_iff:
  assumes "sched_inv s"
  shows "list_ex (routable P) (map (inst_at s) (live s)) \<longleftrightarrow> (\<exists>n. fst (tryRouteReady P t n up s) \<noteq> None)"
proof -
  have g: "gomap_ok (sd_instances s)" using assms by (simp add: sinv_def)
  have "fst (tryRouteReady P t n up s) \<noteq> None \<longleftrightarrow> (\<exists>a. (n, a) \<in> set (sd_instances s) \<and> routable P (inst_at s a))" for n
    using gomap_in_set[OF g] by (auto simp: tryRouteReady_def split_beta Let_def split: option.splits)
  then show ?thesis by (force simp: list_ex_iff live_def)
qed

text \<open>
  C21. In scheduler mode the health page says that requests are accepted exactly when a request for some
  model would be routed at once, and its status is 503 exactly when none would and an operation is
  scheduling; \<open>/status\<close> says the same of accepting.
\<close>

theorem health_tells_routability:
  assumes "sched_inv s"
  shows "\<exists>kvs st. healthHandler (Some (sched_Status P now s)) = \<lparr>hr_status = st, hr_headers = [], hr_body = JObj kvs\<rparr> \<and>
     map_of kvs ''accepting_requests'' = Some (JBool (\<exists>n. fst (tryRouteReady P t n up s) \<noteq> None)) \<and>
     (st = 503 \<longleftrightarrow> sd_busy s \<and> \<not> (\<exists>n. fst (tryRouteReady P t n up s) \<noteq> None)) \<and> (st = 503 \<or> st = 200) \<and>
     (\<exists>kvs2. hr_body (statusHandler fmt (Some (sd_cfg s)) wall (Some (sched_Status P now s))) = JObj kvs2 \<and>
        map_of kvs2 ''accepting_requests'' = Some (JBool (\<exists>n. fst (tryRouteReady P t n up s) \<noteq> None)))"
proof -
  let ?b = "list_ex (routable P) (map (inst_at s) (live s))"
  have st: "ss_state (sched_Status P now s) = (if ?b then StateReady else if sd_busy s then StateStarting else StateIdle)"
    by (simp add: sched_Status_def Let_def)
  show ?thesis
    unfolding accepting_iff[OF assms, of P t up, symmetric]
    by (simp add: healthHandler_def statusHandler_def st Let_def)
qed

lemma health_tells_routability_witness:
  "\<exists>kvs st. healthHandler (Some (sched_Status ex_params 5 (ex_sched [ex_a []]))) =
     \<lparr>hr_status = st, hr_headers = [], hr_body = JObj kvs\<rparr> \<and>
     map_of kvs ''accepting_requests'' =
       Some (JBool (\<exists>n. fst (tryRouteReady ex_params 5 n '''' (ex_sched [ex_a []])) \<noteq> None))"
  using health_tells_routability[OF ex_a_inv, of ex_params 5 "[]" 5 "[]"] by blast

section \<open>From the start to the backend\<close>

lemma tryRouteReady_upstream: "tryRouteReady P t n up s = (Some rt, s') \<Longrightarrow> rt_upstream_model rt = up"
  by (auto simp: tryRouteReady_def routeForInstance_def Let_def split: option.splits if_splits prod.splits)

lemma launch_upstream: "launch_instance P env resolved mc port s = (Inr rt, s') \<Longrightarrow> rt_upstream_model rt = mc_path mc"
  by (auto simp: launch_instance_def routeForInstance_def Let_def split: option.splits prod.splits)

lemma schedule_upstream: "schedule_instance P env resolved mc s = (Inr rt, s') \<Longrightarrow> rt_upstream_model rt = mc_path mc"
  unfolding schedule_instance_def
  by (auto split: option.splits prod.splits if_splits dest: launch_upstream)

lemma AcquireRoute_upstream:
  assumes "AcquireRoute P env name s = (Inr rt, t)" "ResolveModel (sd_cfg s) name = Inr (resolved, mc)"
  shows "rt_upstream_model rt = mc_path mc"
  using assms unfolding AcquireRoute_def
  by (auto split: option.splits prod.splits if_splits dest: tryRouteReady_upstream schedule_upstream)

lemma serve_forwarded:
  assumes "serve V opts path req s = ((rid, Forwarded rt fo fr), t)"
  shows "\<exists>h. (h = switchingProxyHandler \<or> h = anthropicProxyHandler) \<and> h V opts rid req s = (Forwarded rt fo fr, t)"
    and "AuthAPIKey (api_key opts) (cr_headers req) = None"
proof -
  obtain m p auth ep where r: "(m, p, auth, ep) \<in> set app_routes"
    and h: "case (if auth then AuthAPIKey (api_key opts) (cr_headers req) else None) of
         Some e \<Rightarrow> Forwarded rt fo fr = Reply e \<and> t = s
       | None \<Rightarrow> handle_endpoint V opts rid req ep s = (Forwarded rt fo fr, t)"
    using serve_cases[OF assms] by auto
  have e: "handle_endpoint V opts rid req ep s = (Forwarded rt fo fr, t)"
    and a: "auth \<longrightarrow> AuthAPIKey (api_key opts) (cr_headers req) = None"
    using h by (auto split: option.splits if_splits)
  then have ep: "ep = EpOpenAI \<or> ep = EpAnthropic" by (cases ep) simp_all
  from ep show "\<exists>h. (h = switchingProxyHandler \<or> h = anthropicProxyHandler) \<and> h V opts rid req s = (Forwarded rt fo fr, t)"
  proof (elim disjE)
    assume "ep = EpOpenAI"
    with e show ?thesis by (intro exI[of _ switchingProxyHandler]) simp
  next
    assume "ep = EpAnthropic"
    with e show ?thesis by (intro exI[of _ anthropicProxyHandler]) simp
  qed
  have auth using r ep open_endpoint[of m p ep] by (cases auth) auto
  with a show "AuthAPIKey (api_key opts) (cr_headers req) = None" by simp
qed

text \<open>
  C2. From the start of the program to a backend, in every interleaving: when the program has started
  in scheduler mode and any requests, schedulings, exits of processes and stops have run, a request that
  is forwarded carries the API key if one is configured, and goes to the instance that the scheduler
  holds for the model the body names, which is ready and on that model's GPUs; the proxy gets the
  address of this instance's port, which no other backend has whose stop did not fail, the model's path
  as the upstream name and the name in the body as the one to show.
\<close>

theorem request_reaches_its_model:
  assumes "\<And>d c. su_decode E d = Inr c \<Longrightarrow> gomap_ok (Models c)" "startup E cfg_path = Inr (c, SchedulerMode s0)"
    and "srun (proc_world c) proc_exit s0 s" "proc_world c P" "attended (proc_world c) proc_exit (ev_drain env)"
    and "serve V (app_for c (scheduler_router P env now)) path req s = ((rid, Forwarded rt fo fr), t)"
  shows "\<exists>name resolved mc a. extractModel (cr_body req) = Inr name \<and> ResolveModel c name = Inr (resolved, mc) \<and>
     rt_instance rt = Some a \<and> map_of (sd_instances t) resolved = Some a \<and> si_model (inst_at t a) = resolved \<and>
     si_state (inst_at t a) = StateReady \<and> \<not> si_draining (inst_at t a) \<and> si_gpus (inst_at t a) = mc_gpus mc \<and>
     fo_base_url fo = ''http://127.0.0.1:'' @ itoa (si_port (inst_at t a)) \<and>
     (\<forall>b. running t b \<and> si_stop_err (inst_at t b) = None \<and> si_port (inst_at t b) = si_port (inst_at t a) \<longrightarrow> b = a) \<and>
     fo_upstream_model fo = mc_path mc \<and> fo_requested_model fo = name \<and>
     (srv_api_key (Server c) \<noteq> '''' \<longrightarrow>
        header_get ''Authorization'' (cr_headers req) = ''Bearer '' @ srv_api_key (Server c))"
proof -
  let ?R = "scheduler_router P env now"
  from started_scheduler[OF assms(1,2)] have i0: "sched_inv s0" "\<not> sd_busy s0" "sd_store s0 = []" "sd_cfg s0 = c"
    by simp_all
  from srun_inv[OF assms(3) i0(1,2)] have i: "sched_inv s" "\<not> sd_busy s" by simp_all
  have cfg: "sd_cfg s = c" using srun_cfg[OF assms(3) i0(1,2)] i0(4) by simp
  have q: "quiet (ev_drain env)" by (rule attended_quiet[OF assms(5)])
  from serve_forwarded(1)[OF assms(6)] obtain h where h: "h = switchingProxyHandler \<or> h = anthropicProxyHandler"
    "h V (app_for c ?R) rid req s = (Forwarded rt fo fr, t)" by blast
  obtain name x s1 where n: "extractModel (cr_body req) = Inr name" "ResolveModel c name = Inr x"
    and a: "AcquireRoute P env name s = (Inr rt, s1)" and fo: "fo = route_options c True name rid rt"
    and t: "t = release_calls ?R (done_calls True fr) rt s1"
    by (rule forward_cases[OF h]) (auto simp: app_for_def scheduler_router_def)
  obtain resolved mc where x: "x = (resolved, mc)" by fastforce
  have s1: "sched_inv s1" "serves resolved rt s1"
    using AcquireRoute_idle(1,2)[OF i(2) q i(1) a] n(2) by (auto simp: cfg x)
  then obtain k where k: "rt_instance rt = Some k" by (auto simp: serves_def)
  have t': "t = s1 \<or> t = route_done k s1" using t k by (auto simp: release_calls_def scheduler_router_def)
  have it: "sched_inv t" "serves resolved rt t"
    using t' s1 sinv_frame[OF s1(1) frame_route_done] route_done_serves[OF s1(2) k] by auto
  have r1: "srun (proc_world c) proc_exit s0 s1" by (rule srun.request[OF assms(3) i(2) assms(4,5) a])
  have rt: "srun (proc_world c) proc_exit s0 t" using t' srun.other[OF r1 bystander.released] r1 by blast
  have kt: "k < length (sd_store t)" "k \<in> set (live t)"
    using it(2) k by (auto simp: serves_def live_def dest!: map_of_SomeD) (force simp: image_iff)
  have "rt_base_url rt = op_url (pm_ops P) (the (si_mgr (inst_at t k)))"
    using AcquireRoute_routed_to[OF a] k t' by (auto simp: routed_to_def route_done_mgr)
  then have url: "rt_base_url rt = ''http://127.0.0.1:'' @ itoa (si_port (inst_at t k))"
    using instance_address[OF rt i0(1-3) kt(1)] assms(4) by (simp add: proc_world_def)
  have only: "b = k" if "running t b" "si_stop_err (inst_at t b) = None" "si_port (inst_at t b) = si_port (inst_at t k)" for b
    using live_port_inj[OF it(1) running_live[OF rt i0(1-3) that(1,2)] kt(2) that(3)] .
  have "map_of (Models c) resolved = Some mc" by (rule resolved_model) (use n(2) x in simp)
  moreover have "sd_cfg t = c"
    using t' AcquireRoute_cfg[OF q i(2) a] frame_cfg[OF frame_route_done[of s1 k]] cfg by auto
  ultimately have inst: "map_of (sd_instances t) resolved = Some k" "si_model (inst_at t k) = resolved"
      "si_state (inst_at t k) = StateReady" "\<not> si_draining (inst_at t k)" "si_gpus (inst_at t k) = mc_gpus mc"
    using it k entry_ok[of "[]" t resolved k] by (auto simp: serves_def inst_ok_def dest: map_of_SomeD)
  have up: "rt_upstream_model rt = mc_path mc" by (rule AcquireRoute_upstream[OF a]) (simp add: cfg n(2) x)
  have "srv_api_key (Server c) \<noteq> '''' \<Longrightarrow> header_get ''Authorization'' (cr_headers req) = ''Bearer '' @ srv_api_key (Server c)"
    using AuthAPIKey_refuses[of "srv_api_key (Server c)" "cr_headers req"] serve_forwarded(2)[OF assms(6)]
    by (auto simp: api_key_def app_for_def)
  with n x k inst up url only show ?thesis by (auto simp: fo route_options_def)
qed

definition ex_keyed :: client_request where
  "ex_keyed = (ex_request ''a'')\<lparr>cr_headers := [(''Authorization'', [''Bearer s3cret''])]\<rparr>"

lemma ex_served:
  "\<exists>rid rt fo fr t. serve (ex_server None) (app_for ex_config ex_router) ''/v1/completions'' ex_keyed (ex_sched []) =
     ((rid, Forwarded rt fo fr), t)"
proof -
  have key: "AuthAPIKey (api_key (app_for ex_config ex_router)) (cr_headers ex_keyed) = None"
    by (simp add: AuthAPIKey_def api_key_def app_for_def ex_config_def header_get_def header_values_def canonical_names
        ex_keyed_def Let_def)
  have m: "extractModel (cr_body ex_keyed) = Inr ''a''"
    unfolding ex_keyed_def ex_request_def using extract_member[of "''model''" "''a''"] lower_model
    by (simp add: ascii_ok del: render.simps)
  obtain rt t where "AcquireRoute ex_params (ex_env 5) ''a'' (ex_sched []) = (Inr rt, t)" using ex_cold_start by blast
  then have "\<exists>fo fr t. switchingProxyHandler (ex_server None) (app_for ex_config ex_router) rid ex_keyed (ex_sched []) = (Forwarded rt fo fr, t)" for rid
    using m by (simp add: switchingProxyHandler_def app_for_def forward_route_def Let_def scheduler_router_def)
  then obtain fo fr t' where "switchingProxyHandler (ex_server None) (app_for ex_config ex_router)
      (request_id (hv_fresh_id (ex_server None)) (cr_headers ex_keyed)) ex_keyed (ex_sched []) = (Forwarded rt fo fr, t')" by blast
  moreover have "cr_method ex_keyed = ''POST''" by (simp add: ex_keyed_def ex_request_def)
  moreover have "hv_match (ex_server None) = (=)" by (simp add: ex_server_def)
  ultimately show ?thesis
    using key by (simp add: serve_def app_routes_def method_matches_def Let_def)
qed

lemma request_reaches_its_model_witness:
  "\<exists>rid rt fo fr t a. serve (ex_server None) (app_for ex_config ex_router) ''/v1/completions'' ex_keyed (ex_sched []) =
     ((rid, Forwarded rt fo fr), t) \<and> map_of (sd_instances t) ''a'' = Some a \<and> si_state (inst_at t a) = StateReady"
proof -
  obtain rid rt fo fr t where s: "serve (ex_server None) (app_for ex_config ex_router) ''/v1/completions'' ex_keyed (ex_sched []) =
     ((rid, Forwarded rt fo fr), t)" using ex_served by blast
  have m: "extractModel (cr_body ex_keyed) = Inr ''a''"
    unfolding ex_keyed_def ex_request_def using extract_member[of "''model''" "''a''"] lower_model
    by (simp add: ascii_ok del: render.simps)
  have "su_decode ex_startup d = Inr ex_config" for d by (simp add: ex_startup_def)
  with request_reaches_its_model[OF _ ex_started_scheduler srun.start ex_world ex_attended s] ex_models_ok s m show ?thesis by auto
qed

end
