(* ===== verification/Spec2Isabelle.thy ===== *)
theory Spec2Isabelle
  imports Config_Properties Resource_Properties Process_Properties Gpu_Inventory Scheduler_Properties
    Coordinator_Properties Metrics_Properties Http_Properties
begin

text \<open>
  The vLLM jukebox (\<open>src/\<close>, Go): one HTTP front end with the APIs of OpenAI and Anthropic, in front
  of model backends (vLLM or llama.cpp processes) that it starts and stops as requests ask for their
  models. It runs in one of two modes. In swap mode there is one backend at a time and the coordinator
  replaces it (\<open>internal/jukebox/coordinator.go\<close>, with the legacy router on it). In scheduler mode
  there are several, each on its own GPUs, and the scheduler evicts those in the way
  (\<open>internal/jukebox/scheduler.go\<close>). A request goes through the HTTP server, which asks the router
  for a route (the address of a ready backend and a \<open>Done\<close> function that gives the slot back); the
  proxy forwards it there. The routers use the process manager, the in-flight tracker, the port
  pool, the GPU inventory and the GPU power manager. The program's start builds all of this from the
  configuration file.

  \<^bold>\<open>Theories and code.\<close> \<open>Prelude\<close> holds Go maps, early-return loops, clocks and durations;
  \<open>Go_Strings\<close> the functions of Go's standard library on strings and numbers that the code uses;
  \<open>Json\<close> the part of \<open>encoding/json\<close> it uses; \<open>Durations\<close> \<open>time.ParseDuration\<close> and the decoding of
  the configuration's durations.
  \<^item> \<open>Config\<close>: the structures of \<open>internal/config/config.go\<close>, \<open>applyDefaults\<close>, \<open>Validate\<close> with its
    parts, \<open>Load\<close> and \<open>ResolveModel\<close>. Each error message is a constructor of an error type with the
    names it mentions. \<open>Example_Config\<close> holds one concrete configuration for the instances.
  \<^item> \<open>Runtime_Args\<close>: command lines and environments, \<open>internal/runtime\<close> and \<open>internal/vllmcli\<close>.
  \<^item> \<open>Ports\<close>: \<open>internal/ports/pool.go\<close>. \<open>Inflight\<close>: \<open>internal/inflight/tracker.go\<close>. \<open>Gpu_Inventory\<close>
    and \<open>Gpu_Power\<close>: \<open>internal/gpu\<close>. \<open>Log_Writer\<close>: \<open>internal/vllm/logwriter.go\<close> and the tail buffer.
  \<^item> \<open>Process_Manager\<close>: \<open>internal/vllm/runtime.go\<close>, \<open>health.go\<close> and \<open>manager.go\<close>: \<open>Start\<close>, \<open>Stop\<close>,
    \<open>VerifyReady\<close> as functions on the manager, the running processes and what the operating system
    answers; \<open>Model_Listing\<close> decodes the answer to the model check. \<open>Process_Races\<close> has the same
    methods cut at their locks, as a step relation with the goroutine that waits for the exit.
  \<^item> \<open>Router_Types\<close>: states, rejections, statuses and routes (\<open>router.go\<close>, \<open>coordinator.go\<close>).
  \<^item> \<open>Scheduler\<close>: \<open>scheduler.go\<close>. Instances are pointers into a store, the map holds pointers; each
    operation is a function that threads the whole state. \<open>Scheduler_Invariant\<close> has the invariant
    and its preservation by whole operations, \<open>Scheduler_System\<close> the scheduler with all its callers:
    the operation that holds the permit, others that route, release, wait, give up or exit meanwhile,
    and a stop that does not wait for the permit.
    \<open>Scheduler_Processes\<close> puts the process managers behind the instances and accounts for every process;
    \<open>Scheduler_Progress\<close> says when scheduling succeeds.
  \<^item> \<open>Coordinator\<close>: \<open>coordinator.go\<close> and \<open>legacy_router.go\<close>; \<open>Coordinator_System\<close> interleaves
    requests, the swap goroutine, counted requests and crashes.
  \<^item> \<open>Proxy\<close>: \<open>internal/proxy\<close>. \<open>Http_Server\<close>: \<open>internal/httpserver\<close>, over any router (a record of
    functions). \<open>Metrics\<close>: \<open>internal/metrics/metrics.go\<close> and the calls behind the routers' events.
  \<^item> \<open>Startup\<close>: \<open>cmd/jukebox/main.go\<close>, and the two routers as the handlers call them.

  \<^bold>\<open>Interfaces.\<close> Where one part relies on another, a locale states the contract, and an interpretation
  discharges it on the definitions of the code: \<open>port_source\<close> (\<open>Ports\<close>), \<open>drain_counter\<close> (\<open>Inflight\<close>),
  \<open>power_controller\<close> (\<open>Gpu_Power\<close>), \<open>backend_runtime\<close> (\<open>Runtime_Args\<close>, for both runtimes) and
  \<open>instance_manager\<close> (\<open>Process_Manager\<close>), which \<open>supervisor\<close> (\<open>Scheduler_Processes\<close>) extends. The
  routers take the operations of the process manager as a record of functions, so the instances they
  hold have any type \<open>'m\<close>; \<open>supervisor\<close> puts the process manager there.

  \<^bold>\<open>What is shown\<close> (the properties stand in the theories named \<open>..._Properties\<close> and \<open>Gpu_Inventory\<close>).
  \<^item> Whole program: from the start, in every interleaving, the scheduler stays consistent, and a
    request that is forwarded is authorised and reaches the address of a ready instance of the model
    it names; a backend process that exists belongs to an instance in the map, unless its \<open>Stop\<close> failed;
    the end of the program stops every backend, unless the server could not listen.
  \<^item> Configuration: \<open>Validate\<close> decides a declarative contract, \<open>Load\<close> establishes it, the alias loop ends
    and resolution is total on what \<open>Load\<close> returns; command lines bind the port they are given; a written
    duration means the sum of its parts.
  \<^item> Scheduler: each whole operation keeps the invariant, only unpinned conflicting instances
    leave, a request that can be scheduled is served, \<open>StopAll\<close> gives everything back; and what goes
    wrong with dead pinned instances, partial evictions, failed stops and a preload after the stop.
  \<^item> Coordinator: the invariant of all interleavings, what a swap leaves behind when it succeeds and
    fails, the rejections and the backoff; and what goes wrong after a failed stop and between
    admission and counting.
  \<^item> Process manager: the model check accepts exactly the listed models; one process per manager when
    starts do not overlap, two when they do; what an answer of \<open>Stop\<close> means.
  \<^item> Resources: exclusive ports, exact counts and no lost wake-up, recorded power limits in force, the
    round trip of the GPU list.
  \<^item> HTTP and proxy: API key, one \<open>Done\<close> per request, status codes and \<open>Retry-After\<close>, health, the rewriting
    of model names in bodies and streams, the headers; state gauge and request counter.

  \<^bold>\<open>Conventions and bounds.\<close> Go's \<open>int\<close> and \<open>time.Duration\<close> are integers with \<open>wrap_int64\<close> where the
  code computes with values it does not bound. A map is an association list with distinct keys, whose
  order is the order in which Go happens to iterate. A clock reading, the answer of a process, a wait
  or a command is an argument (the records named \<open>..._env\<close>), so a theorem quantifies over all of
  them. The only fuel is the first argument of the JSON reader: \<open>parse_json\<close> gives it one more than
  the length of the text, each call takes a character or descends by one, and \<open>parse_render\<close> shows that
  it is enough to read back whatever is written; the limit of 10000 on the nesting is the one of the
  Go decoder. All other functions are total.

  \<^bold>\<open>Not modelled.\<close> Fiber and fasthttp (path matching, the HTTP exchange, the recover middleware), the
  Prometheus client and its text format, the YAML decoder (which calls \<open>UnmarshalYAML\<close>), and uuid:
  third-party code, a parameter where its result matters. Logging output, sockets, timeouts of
  contexts other than as an outcome of a wait, the \<open>float64\<close> product for fractions of a duration,
  quoted fields in the CSV of \<open>nvidia-smi\<close>, accessors for tests, \<open>requestContext\<close> and the unused
  \<open>extractModelNameFromError\<close>. A typed nil power controller is
  \<^term>\<open>None\<close>, which is what \<open>normalizePowerController\<close> makes of it. A \<open>StopAll\<close> that starts while the
  holder of the permit waits for an instance to drain is not a step of \<open>srun\<close>, which has stops only before
  the holder's first look at the instances and after its end.
\<close>

end
